(* ===== verification/Prelude.thy ===== *)
theory Prelude
  imports Main "HOL-Library.State_Monad" "HOL-Library.AList" "HOL-Library.Word"
begin

text \<open>
  What the component theories share: the primitives of the state monad the model of the Go code
  is written in, the lemmas that carry an invariant or a frame condition through a monadic
  definition, a lens combinator that runs an operation of one component inside the state of
  another, and Go maps as association lists with distinct keys.

  Named collections: \<open>run_simps\<close> evaluates a monadic definition on a state, \<open>io_rules\<close> proves
  that a definition relates its start and end state by a transitive relation, \<open>go_map\<close> holds the
  laws of Go maps.
\<close>

named_theorems run_simps "evaluation of monadic definitions"
named_theorems io_rules "input-output relations of monadic definitions"
named_theorems go_map "laws of Go maps"

section \<open>The state monad\<close>

abbreviation ret :: "'a \<Rightarrow> ('s, 'a) state" where
  "ret \<equiv> State_Monad.return"

definition gets :: "('s \<Rightarrow> 'a) \<Rightarrow> ('s, 'a) state" where
  "gets f = State (\<lambda>s. (f s, s))"

definition modify :: "('s \<Rightarrow> 's) \<Rightarrow> ('s, unit) state" where
  "modify f = State (\<lambda>s. ((), f s))"

text \<open>\<open>for_each\<close> is a Go \<open>for \<dots> range\<close> loop whose body only has effects.\<close>

fun for_each :: "('a \<Rightarrow> ('s, unit) state) \<Rightarrow> 'a list \<Rightarrow> ('s, unit) state" where
  "for_each f [] = ret ()"
| "for_each f (x # xs) = do { f x; for_each f xs }"

text \<open>
  \<open>zoom getter putter m\<close> runs \<open>m\<close> on a part of the state.
\<close>

definition zoom :: "('s \<Rightarrow> 't) \<Rightarrow> ('t \<Rightarrow> 's \<Rightarrow> 's) \<Rightarrow> ('t, 'a) state \<Rightarrow> ('s, 'a) state" where
  "zoom getter putter m =
     State (\<lambda>s. case run_state m (getter s) of (a, t) \<Rightarrow> (a, putter t s))"

lemma run_gets [simp, run_simps]: "run_state (gets f) s = (f s, s)"
  by (simp add: gets_def)

lemma run_modify [simp, run_simps]: "run_state (modify f) s = ((), f s)"
  by (simp add: modify_def)

lemma run_zoom [simp, run_simps]:
  "run_state (zoom g p m) s =
     (fst (run_state m (g s)), p (snd (run_state m (g s))) s)"
  by (simp add: zoom_def split: prod.split)

lemmas run_bind [run_simps] = run_state_bind

text \<open>The state after an operation, and its result.\<close>

abbreviation exec :: "('s, 'a) state \<Rightarrow> 's \<Rightarrow> 's" where
  "exec m s \<equiv> snd (run_state m s)"

abbreviation result :: "('s, 'a) state \<Rightarrow> 's \<Rightarrow> 'a" where
  "result m s \<equiv> fst (run_state m s)"

lemma exec_bind: "exec (m \<bind> f) s = exec (f (result m s)) (exec m s)"
  by (simp split: prod.split)

lemma result_bind: "result (m \<bind> f) s = result (f (result m s)) (exec m s)"
  by (simp split: prod.split)

lemma run_eq: "run_state m s = (a, t) \<longleftrightarrow> result m s = a \<and> exec m s = t"
  by (auto simp: prod_eq_iff)

section \<open>Input-output relations\<close>

text \<open>
  \<open>state_io_rel R m\<close> says that \<open>m\<close> relates every state to the state it leaves by \<open>R\<close>. For a
  reflexive and transitive \<open>R\<close> it is a frame condition or a monotonicity, and it composes.
\<close>

definition preorder_rel :: "('s \<Rightarrow> 's \<Rightarrow> bool) \<Rightarrow> bool" where
  "preorder_rel R \<longleftrightarrow> reflp R \<and> transp R"

lemma preorder_relI:
  "(\<And>s. R s s) \<Longrightarrow> (\<And>s t u. R s t \<Longrightarrow> R t u \<Longrightarrow> R s u) \<Longrightarrow> preorder_rel R"
  by (auto simp: preorder_rel_def intro: reflpI transpI)

lemma preorder_rel_imp: "preorder_rel (\<lambda>s t. P s \<longrightarrow> P t)"
  by (auto intro: preorder_relI)

lemma io_ret [io_rules]: "preorder_rel R \<Longrightarrow> state_io_rel R (ret x)"
  by (auto simp: state_io_rel_def preorder_rel_def dest: reflpD)

lemma io_gets [io_rules]: "preorder_rel R \<Longrightarrow> state_io_rel R (gets f)"
  by (auto simp: state_io_rel_def preorder_rel_def dest: reflpD)

lemma io_bind [io_rules]:
  assumes "preorder_rel R" "state_io_rel R m" "\<And>x. state_io_rel R (f x)"
  shows "state_io_rel R (m \<bind> f)"
proof (rule state_io_relI)
  fix a s t
  assume "run_state (m \<bind> f) s = (a, t)"
  then have t: "t = exec (f (result m s)) (exec m s)"
    by (auto split: prod.splits)
  have "R s (exec m s)" "R (exec m s) t"
    using assms(2,3) t by (auto simp: state_io_rel_def)
  then show "R s t"
    using assms(1) by (auto simp: preorder_rel_def dest: transpD)
qed

lemma io_sum [io_rules]:
  "(\<And>e. state_io_rel R (f e)) \<Longrightarrow> (\<And>x. state_io_rel R (g x)) \<Longrightarrow>
   state_io_rel R (case r of Inl e \<Rightarrow> f e | Inr x \<Rightarrow> g x)"
  by (simp split: sum.split)

lemma io_option [io_rules]:
  "state_io_rel R f \<Longrightarrow> (\<And>x. state_io_rel R (g x)) \<Longrightarrow>
   state_io_rel R (case r of None \<Rightarrow> f | Some x \<Rightarrow> g x)"
  by (simp split: option.split)

lemma io_if [io_rules]:
  "state_io_rel R f \<Longrightarrow> state_io_rel R g \<Longrightarrow> state_io_rel R (if b then f else g)"
  by simp

lemma io_let [io_rules]: "(\<And>x. state_io_rel R (f x)) \<Longrightarrow> state_io_rel R (let x = y in f x)"
  by simp

lemma io_for_each [io_rules]:
  "preorder_rel R \<Longrightarrow> (\<And>x. state_io_rel R (f x)) \<Longrightarrow> state_io_rel R (for_each f xs)"
  by (induction xs) (auto intro: io_rules)

lemma io_exec: "state_io_rel R m \<Longrightarrow> R s (exec m s)"
  by (simp add: state_io_rel_def)

lemma io_run: "state_io_rel R m \<Longrightarrow> run_state m s = (a, t) \<Longrightarrow> R s t"
  by (metis io_exec snd_conv)

section \<open>Go maps\<close>

text \<open>
  A Go map is an association list with distinct keys: \<open>map_of\<close> looks up, \<open>AList.update\<close>
  stores, \<open>AList.delete\<close> deletes, and the list's order is the order of a \<open>range\<close> loop, which Go
  leaves open.
\<close>

type_synonym ('k, 'v) gomap = "('k \<times> 'v) list"

definition wf_gomap :: "('k, 'v) gomap \<Rightarrow> bool" where
  "wf_gomap m \<longleftrightarrow> distinct (map fst m)"

lemma wf_gomap_empty [simp, go_map]: "wf_gomap []"
  by (simp add: wf_gomap_def)

lemma wf_gomap_update [simp, go_map]: "wf_gomap m \<Longrightarrow> wf_gomap (AList.update k v m)"
  by (simp add: wf_gomap_def distinct_update)

lemma wf_gomap_delete [simp, go_map]: "wf_gomap m \<Longrightarrow> wf_gomap (AList.delete k m)"
  by (simp add: wf_gomap_def distinct_delete)

lemma lookup_update [simp, go_map]:
  "map_of (AList.update k v m) k' = (if k' = k then Some v else map_of m k')"
  by (simp add: update_conv')

lemma lookup_delete [simp, go_map]:
  "map_of (AList.delete k m) k' = (if k' = k then None else map_of m k')"
  by (simp add: delete_conv')

lemma wf_gomap_in_set [go_map]: "wf_gomap m \<Longrightarrow> (k, v) \<in> set m \<longleftrightarrow> map_of m k = Some v"
  by (auto simp: wf_gomap_def map_of_is_SomeI dest: map_of_SomeD)

section \<open>Lists\<close>

lemma find_SomeD: "find P xs = Some x \<Longrightarrow> x \<in> set xs \<and> P x"
  by (auto simp: find_Some_iff)

lemma find_NoneD: "find P xs = None \<Longrightarrow> x \<in> set xs \<Longrightarrow> \<not> P x"
  by (auto simp: find_None_iff)

lemma nth_upd: "xs[i := x] ! j = (if i = j \<and> j < length xs then x else xs ! j)"
  by (induction xs arbitrary: i j) (auto simp: nth_Cons split: nat.split)

lemma map_upd_same: "f x = f (xs ! i) \<Longrightarrow> map f (xs[i := x]) = map f xs"
  by (cases "i < length xs") (auto simp: map_update list_update_same_conv list_update_beyond)

lemma count_list_update:
  "i < length xs \<Longrightarrow> xs ! i = a \<Longrightarrow> b \<noteq> a \<Longrightarrow> count_list (xs[i := b]) a = count_list xs a - 1"
proof (induction xs arbitrary: i)
  case (Cons x xs)
  show ?case
  proof (cases i)
    case 0
    with Cons.prems show ?thesis by simp
  next
    case (Suc j)
    moreover have "count_list xs a \<noteq> 0" if "j < length xs" "xs ! j = a"
      using that by (metis count_list_0_iff nth_mem)
    ultimately show ?thesis
      using Cons by auto
  qed
qed simp

end
