(* ===== verification/World.thy ===== *)
theory World
  imports Prelude
begin

text \<open>
  The outside of the program. Everything the driver calls that is not code of the repository
  (the D-Bus client, the journal, the file system, the clock, Nomad's codecs, Go's regular
  expressions) is a field of the record \<open>env\<close>: a function of the calls made so far and of the
  call's arguments. The calls made so far are the field \<open>hist\<close> of every state, so a reply may
  change from one call to the next in any way, and a theorem about all \<open>env\<close> is a theorem about
  every behaviour of systemd and of the host. Errors are values, with the wrapping of
  \<open>fmt.Errorf("...: %w", err)\<close> kept as structure.
\<close>

section \<open>Errors\<close>

text \<open>
  \<open>Errorf\<close> and \<open>Wrapf\<close> keep the format string and its arguments instead of the rendered text;
  \<open>Wrapf\<close> is a format with a final \<open>%w\<close>. \<open>External\<close> is an error value made by code outside the
  repository.
\<close>

datatype arg = AStr string | AInt int

datatype error =
    ErrTaskNotFound
  | ErrUnitNotRegistered
  | NewError string
  | Errorf string "arg list"
  | Wrapf string "arg list" error
  | External string

text \<open>\<open>errors.Is\<close>: the error or one it wraps is the target.\<close>

fun error_is :: "error \<Rightarrow> error \<Rightarrow> bool" where
  "error_is (Wrapf f as e) t = (Wrapf f as e = t \<or> error_is e t)"
| "error_is e t = (e = t)"

section \<open>Contexts, time, files, values on the bus\<close>

text \<open>
  A context is where its cancellation comes from; \<open>OpCtx ctx limit\<close> is the one
  \<open>Manager.opContext\<close> derives: it ends with \<open>ctx\<close>, with the Manager, or after \<open>limit\<close>
  milliseconds.
\<close>

datatype ctx = DriverCtx | ManagerCtx | HandlerCtx nat | CallerCtx | OpCtx ctx nat

text \<open>A \<open>time.Time\<close> is a count of nanoseconds since the epoch, the zero time is \<open>None\<close>.\<close>

type_synonym time = int

text \<open>
  The value in a D-Bus property, by the Go type the client decodes it to; \<open>VOther\<close> is any type
  the driver does not handle (with the name \<open>%T\<close> prints).
\<close>

datatype variant =
    VString string
  | VUint64 "64 word"
  | VInt64 "64 word"
  | VInt32 "32 word"
  | VOther string

text \<open>The name \<open>%T\<close> prints for a value; a missing key of a property map is a nil interface.\<close>

fun type_name :: "variant option \<Rightarrow> string" where
  "type_name None = ''<nil>''"
| "type_name (Some (VString _)) = ''string''"
| "type_name (Some (VUint64 _)) = ''uint64''"
| "type_name (Some (VInt64 _)) = ''int64''"
| "type_name (Some (VInt32 _)) = ''int32''"
| "type_name (Some (VOther t)) = t"

text \<open>How a wait for a systemd job ends: its result string, or the context's error.\<close>

datatype job_wait = JobResult string | CtxDone error

datatype regexp = Regexp string

section \<open>Calls\<close>

text \<open>
  One constructor per call that leaves the program; \<open>conn\<close>, \<open>journal\<close> and \<open>listener\<close> handles
  are numbers. \<open>SelectExit hid timeout\<close> is the \<open>select\<close> that waits for a task's exit, with its
  timer.
\<close>

datatype call =
    Now
  | Dial ctx
  | Connected nat
  | Subscribe nat
  | SetPropertiesSubscriber nat
  | CloseConn nat
  | StartUnitContext nat ctx string string
  | StopUnitContext nat ctx string string
  | WaitJob ctx string string
  | KillUnitWithTarget nat ctx string string int
  | GetUnitProperty nat ctx string string
  | GetUnitProperties nat ctx string
  | GetUnitTypeProperties nat ctx string string
  | CpuPercent "64 word"
  | Stat string
  | ReadFile string
  | NewJournal
  | AddMatch nat string
  | SeekRealtimeUsec nat "64 word"
  | SeekTail nat
  | CloseJournal nat
  | Listen string
  | ShutdownServer nat
  | CloseListener nat
  | EmitEvent string string string time string "(string \<times> string) list"
  | SelectExit nat time

text \<open>
  Which case of the \<open>select\<close> in \<open>StopTask\<close> and \<open>DestroyTask\<close> is taken, and what the poll
  goroutine of a handler receives: its context's end, a wake signal, a tick.
\<close>

datatype exit_select = WaitChClosed | StopDone | TimerFired
datatype poll_event = PollCtxDone | PollWake | PollTick

record env =
  e_now :: "call list \<Rightarrow> time"
  e_dial :: "call list \<Rightarrow> error + nat"
  e_connected :: "call list \<Rightarrow> nat \<Rightarrow> bool"
  e_subscribe :: "call list \<Rightarrow> nat \<Rightarrow> error option"
  e_start_unit :: "call list \<Rightarrow> nat \<Rightarrow> string \<Rightarrow> error option"
  e_stop_unit :: "call list \<Rightarrow> nat \<Rightarrow> string \<Rightarrow> error option"
  e_wait_job :: "call list \<Rightarrow> string \<Rightarrow> string \<Rightarrow> job_wait"
  e_kill_unit :: "call list \<Rightarrow> nat \<Rightarrow> string \<Rightarrow> error option"
  e_get_property :: "call list \<Rightarrow> nat \<Rightarrow> string \<Rightarrow> string \<Rightarrow> error + variant"
  e_get_properties :: "call list \<Rightarrow> nat \<Rightarrow> string \<Rightarrow> error + (string, variant) gomap"
  e_get_type_properties ::
    "call list \<Rightarrow> nat \<Rightarrow> string \<Rightarrow> string \<Rightarrow> error + (string, variant) gomap"
  e_map_order :: "call list \<Rightarrow> string list \<Rightarrow> string list"
  e_stat :: "call list \<Rightarrow> string \<Rightarrow> error option"
  e_read_file :: "call list \<Rightarrow> string \<Rightarrow> error + string"
  e_new_journal :: "call list \<Rightarrow> error + nat"
  e_add_match :: "call list \<Rightarrow> nat \<Rightarrow> string \<Rightarrow> error option"
  e_seek_realtime :: "call list \<Rightarrow> nat \<Rightarrow> error option"
  e_seek_tail :: "call list \<Rightarrow> nat \<Rightarrow> error option"
  e_cpu_percent :: "call list \<Rightarrow> nat \<Rightarrow> 64 word list \<Rightarrow> 64 word \<Rightarrow> 64 word"
  e_cpu_ticks :: "nat \<Rightarrow> 64 word \<Rightarrow> 64 word"
  e_listen :: "call list \<Rightarrow> string \<Rightarrow> error + nat"
  e_emit_event :: "call list \<Rightarrow> string \<Rightarrow> error option"
  e_select_exit :: "call list \<Rightarrow> nat \<Rightarrow> exit_select"
  e_stop_late :: "call list \<Rightarrow> bool"
  e_poll_events :: "call list \<Rightarrow> nat \<Rightarrow> poll_event list"
  e_regexp_compile :: "string \<Rightarrow> error + regexp"
  e_match_string :: "regexp \<Rightarrow> string \<Rightarrow> bool"

section \<open>States with a call history\<close>

record world =
  hist :: "call list"

text \<open>\<open>outcall c f\<close> makes the call \<open>c\<close>; its reply is \<open>f\<close> of the calls made before it.\<close>

definition outcall :: "call \<Rightarrow> (call list \<Rightarrow> 'r) \<Rightarrow> ('s world_scheme, 'r) state" where
  "outcall c f = State (\<lambda>s. (f (hist s), s\<lparr>hist := hist s @ [c]\<rparr>))"

lemma run_outcall [simp, run_simps]:
  "run_state (outcall c f) s = (f (hist s), s\<lparr>hist := hist s @ [c]\<rparr>)"
  by (simp add: outcall_def)

text \<open>\<open>time.Now\<close>.\<close>

definition now :: "env \<Rightarrow> ('s world_scheme, time) state" where
  "now env = outcall Now (e_now env)"

text \<open>The calls an operation adds: histories only grow.\<close>

definition new_calls :: "'s world_scheme \<Rightarrow> 's world_scheme \<Rightarrow> call list" where
  "new_calls s t = drop (length (hist s)) (hist t)"

definition extends :: "(call \<Rightarrow> bool) \<Rightarrow> 's world_scheme \<Rightarrow> 's world_scheme \<Rightarrow> bool" where
  "extends P s t \<longleftrightarrow> (\<exists>cs. hist t = hist s @ cs \<and> list_all P cs)"

lemma extends_preorder [io_rules]: "preorder_rel (extends P)"
proof (rule preorder_relI)
  show "extends P s s" for s :: "'a world_scheme"
    by (simp add: extends_def)
  show "extends P s u" if "extends P s t" "extends P t u" for s t u :: "'a world_scheme"
    using that by (auto simp: extends_def)
qed

lemma extends_outcall [io_rules]: "P c \<Longrightarrow> state_io_rel (extends P) (outcall c f)"
  by (auto simp: state_io_rel_def extends_def)

end
