(* ===== verification/Units.thy ===== *)
theory Units
  imports World
begin

text \<open>
  The data of \<open>pkg/systemd/unit.go\<close>: a unit's ActiveState and its predicates, the mapping onto
  Nomad's task states, a main process's exit status and the exit result Nomad gets from it, and
  the decoding of systemd's microsecond timestamps.
\<close>

section \<open>Unit states\<close>

text \<open>A Go string type: values outside the constants are kept as they are.\<close>

type_synonym UnitState = string

definition UnitStateActivating :: UnitState where "UnitStateActivating = ''activating''"
definition UnitStateDeactivating :: UnitState where "UnitStateDeactivating = ''deactivating''"
definition UnitStateActive :: UnitState where "UnitStateActive = ''active''"
definition UnitStateInactive :: UnitState where "UnitStateInactive = ''inactive''"
definition UnitStateFailed :: UnitState where "UnitStateFailed = ''failed''"
definition UnitStateReloading :: UnitState where "UnitStateReloading = ''reloading''"
definition UnitStateMaintenance :: UnitState where "UnitStateMaintenance = ''maintenance''"

lemmas unit_state_defs =
  UnitStateActivating_def UnitStateDeactivating_def UnitStateActive_def UnitStateInactive_def
  UnitStateFailed_def UnitStateReloading_def UnitStateMaintenance_def

definition IsTransitioning :: "UnitState \<Rightarrow> bool" where
  "IsTransitioning s \<longleftrightarrow>
     s = UnitStateActivating \<or> s = UnitStateDeactivating \<or> s = UnitStateReloading"

definition IsActive :: "UnitState \<Rightarrow> bool" where
  "IsActive s \<longleftrightarrow> s = UnitStateActive"

definition IsInactive :: "UnitState \<Rightarrow> bool" where
  "IsInactive s \<longleftrightarrow> s = UnitStateInactive"

definition IsFailed :: "UnitState \<Rightarrow> bool" where
  "IsFailed s \<longleftrightarrow> s = UnitStateFailed"

definition IsTerminal :: "UnitState \<Rightarrow> bool" where
  "IsTerminal s \<longleftrightarrow> s = UnitStateInactive \<or> s = UnitStateFailed"

definition ParseUnitState :: "string \<Rightarrow> UnitState" where
  "ParseUnitState s = s"

text \<open>The three of Nomad's task states that the driver uses.\<close>

datatype TaskState = TaskStateUnknown | TaskStateRunning | TaskStateExited

definition ToTaskState :: "UnitState \<Rightarrow> TaskState" where
  "ToTaskState state =
     (if state = UnitStateActivating \<or> state = UnitStateDeactivating \<or> state = UnitStateReloading
      then TaskStateUnknown
      else if state = UnitStateActive then TaskStateRunning
      else if state = UnitStateFailed \<or> state = UnitStateInactive then TaskStateExited
      else if state = UnitStateMaintenance then TaskStateUnknown
      else TaskStateUnknown)"

lemma ToTaskState_exited: "ToTaskState s = TaskStateExited \<longleftrightarrow> IsTerminal s"
  by (auto simp: ToTaskState_def IsTerminal_def unit_state_defs)

lemma ToTaskState_running: "ToTaskState s = TaskStateRunning \<longleftrightarrow> IsActive s"
  by (auto simp: ToTaskState_def IsActive_def unit_state_defs)

lemma ToTaskState_unknown:
  "ToTaskState s = TaskStateUnknown \<longleftrightarrow> \<not> IsTerminal s \<and> \<not> IsActive s"
  by (metis TaskState.exhaust TaskState.distinct ToTaskState_exited ToTaskState_running)

lemma IsFailed_terminal: "IsFailed s \<Longrightarrow> IsTerminal s"
  by (simp add: IsFailed_def IsTerminal_def)

section \<open>Exit status and exit result\<close>

record ExitStatus =
  Code :: "32 word"
  Status :: "32 word"

definition CLDExited :: "32 word" where "CLDExited = 1"
definition CLDKilled :: "32 word" where "CLDKilled = 2"
definition CLDDumped :: "32 word" where "CLDDumped = 3"

lemmas cld_defs = CLDExited_def CLDKilled_def CLDDumped_def

text \<open>Nomad's \<open>drivers.ExitResult\<close>, as far as the driver sets it.\<close>

record ExitResult =
  ExitCode :: int
  Signal :: int
  Err :: "error option"

text \<open>\<open>int(status.Status)\<close> widens a signed 32-bit value: \<open>sint\<close>.\<close>

definition ExitResultFromStatus :: "ExitStatus \<Rightarrow> ExitResult option" where
  "ExitResultFromStatus status =
     (if Code status = CLDExited then
        Some \<lparr>ExitCode = sint (Status status), Signal = 0,
              Err = (if Status status \<noteq> 0
                     then Some (Errorf ''systemd unit exited with code %d'' [AInt (sint (Status status))])
                     else None)\<rparr>
      else if Code status = CLDKilled \<or> Code status = CLDDumped then
        Some \<lparr>ExitCode = -1, Signal = sint (Status status),
              Err = Some (Errorf ''systemd unit terminated by signal %d'' [AInt (sint (Status status))])\<rparr>
      else None)"

text \<open>A result reports success when it has no error; then its code and signal are 0.\<close>

definition success :: "ExitResult \<Rightarrow> bool" where
  "success r \<longleftrightarrow> ExitCode r = 0 \<and> Signal r = 0 \<and> Err r = None"

lemma ExitResultFromStatus_None:
  "ExitResultFromStatus st = None \<longleftrightarrow> Code st \<notin> {CLDExited, CLDKilled, CLDDumped}"
  by (auto simp: ExitResultFromStatus_def)

lemma ExitResultFromStatus_success:
  "ExitResultFromStatus st = Some r \<Longrightarrow> success r \<longleftrightarrow> Code st = CLDExited \<and> Status st = 0"
  by (auto simp: ExitResultFromStatus_def success_def split: if_splits)

lemma ExitResultFromStatus_error:
  "ExitResultFromStatus st = Some r \<Longrightarrow> Err r = None \<longleftrightarrow> success r"
  by (auto simp: ExitResultFromStatus_def success_def split: if_splits)

section \<open>Timestamps\<close>

text \<open>\<open>usecInfinity\<close> is \<open>^uint64(0)\<close>.\<close>

definition usecInfinity :: "64 word" where
  "usecInfinity = -1"

definition MaxInt64 :: "64 word" where
  "MaxInt64 = 0x7FFFFFFFFFFFFFFF"

text \<open>The result's boolean is the option: \<open>None\<close> for \<open>0, false\<close>.\<close>

fun parseTimestampUsec :: "variant \<Rightarrow> 64 word option" where
  "parseTimestampUsec (VUint64 t) =
     (if t = usecInfinity \<or> MaxInt64 < t then None else Some t)"
| "parseTimestampUsec (VInt64 t) = (if t <s 0 then None else Some t)"
| "parseTimestampUsec _ = None"

text \<open>\<open>time.UnixMicro(int64(usec))\<close>.\<close>

definition UnixMicro :: "64 word \<Rightarrow> time" where
  "UnixMicro usec = sint usec * 1000"

lemma MaxInt64_less: "MaxInt64 < t \<longleftrightarrow> 2 ^ 63 \<le> uint t"
  by (auto simp: MaxInt64_def word_less_def)

lemma bit63_uint:
  fixes t :: "64 word"
  shows "bit (uint t) 63 \<longleftrightarrow> 2 ^ 63 \<le> uint t"
proof -
  have "uint t < 2 ^ 64"
    using uint_lt2p [of t] by simp
  then have "uint t div 2 ^ 63 = (if 2 ^ 63 \<le> uint t then 1 else 0)"
    using uint_ge_0 [of t] by (auto simp: div_pos_pos_trivial int_div_pos_eq)
  then show ?thesis
    by (simp add: bit_iff_odd)
qed

lemma sint_word64: "sint (t :: 64 word) = signed_take_bit 63 (uint t)"
  by (simp add: sint_uint)

lemma sint_nonneg_word64:
  fixes t :: "64 word"
  shows "0 \<le> sint t \<longleftrightarrow> uint t < 2 ^ 63"
  using bit63_uint [of t] by (simp add: sint_word64 signed_take_bit_nonnegative_iff not_le)

lemma sint_eq_uint64:
  fixes t :: "64 word"
  assumes "uint t < 2 ^ 63"
  shows "sint t = uint t"
proof -
  have "\<not> bit (uint t) 63"
    using assms by (simp add: bit63_uint)
  then have "sint t = take_bit 63 (uint t)"
    by (simp add: sint_word64 signed_take_bit_eq_if_positive)
  also have "\<dots> = uint t"
    using assms uint_ge_0 [of t] by (simp add: take_bit_int_eq_self)
  finally show ?thesis .
qed

text \<open>A parsed timestamp is below 2^63, so the conversion to \<open>int64\<close> keeps its value.\<close>

lemma parseTimestampUsec_bound:
  assumes "parseTimestampUsec v = Some u"
  shows "uint u < 2 ^ 63"
  using assms
  by (cases v) (auto simp: MaxInt64_less word_sless_alt not_less sint_nonneg_word64 split: if_splits)

end
