(* ===== verification/Manager.thy ===== *)
theory Manager
  imports Units
begin

text \<open>
  \<open>systemd.Manager\<close>: its connection, its table of units under management, the wake channels and
  journal readers it has handed out, and every operation of \<open>pkg/systemd/systemd.go\<close> and
  \<open>pkg/systemd/unit.go\<close> on them. (Resource statistics are in the theory Cgroup, journal
  streaming in the theory Journal.)

  Go channels and goroutines are entries of lists, named by their position: a wake channel is the
  flag "a wake is pending" (its buffer holds one value), a journal reader is a record with its
  cancellation and its end.
\<close>

section \<open>State\<close>

definition jobTimeout :: nat where "jobTimeout = 120000"
definition propertyTimeout :: nat where "propertyTimeout = 10000"
definition reconnectInterval :: nat where "reconnectInterval = 10000"
definition reconnectBackoffMax :: nat where "reconnectBackoffMax = 300000"

text \<open>\<open>syscall.SIGKILL\<close> and the default cgroup root.\<close>

definition SIGKILL :: int where "SIGKILL = 9"
definition cgroupV2Root :: string where "cgroupV2Root = ''/sys/fs/cgroup''"

record unitState =
  wake :: nat
  cancelJournal :: "nat option"
  controlGroup :: string
  cachedAt :: "time option"
  cpu :: "64 word list option"

record reader =
  rd_unit :: string
  rd_logCh :: nat
  rd_journal :: nat
  rd_canceled :: bool
  rd_done :: bool

record manager =
  conn :: "nat option"
  units :: "(string, unitState) gomap"
  stopping :: bool
  journalWg :: nat
  compute :: nat
  cgroupRoot :: string
  ctxDone :: bool
  wg :: nat
  wakes :: "bool list"
  readers :: "reader list"

record mstate = world +
  mgr :: manager

definition upd_mgr :: "(manager \<Rightarrow> manager) \<Rightarrow> (mstate, unit) state" where
  "upd_mgr f = modify (\<lambda>s. s\<lparr>mgr := f (mgr s)\<rparr>)"

lemma run_upd_mgr [simp, run_simps]: "run_state (upd_mgr f) s = ((), s\<lparr>mgr := f (mgr s)\<rparr>)"
  by (simp add: upd_mgr_def)

text \<open>\<open>&unitState{wake: make(chan struct{}, 1)}\<close> on channel \<open>w\<close>.\<close>

definition new_unitState :: "nat \<Rightarrow> unitState" where
  "new_unitState w =
     \<lparr>wake = w, cancelJournal = None, controlGroup = '''', cachedAt = None, cpu = None\<rparr>"

section \<open>The connection\<close>

definition getConn :: "env \<Rightarrow> (mstate, error + nat) state" where
  "getConn env = do {
     c \<leftarrow> gets (\<lambda>s. conn (mgr s));
     case c of
       None \<Rightarrow> ret (Inl (NewError ''no systemd dbus connection available''))
     | Some k \<Rightarrow> do {
         up \<leftarrow> outcall (Connected k) (\<lambda>h. e_connected env h k);
         ret (if up then Inr k else Inl (NewError ''no systemd dbus connection available''))
       }
   }"

definition Healthy :: "env \<Rightarrow> (mstate, bool) state" where
  "Healthy env = do {
     c \<leftarrow> gets (\<lambda>s. conn (mgr s));
     case c of
       None \<Rightarrow> ret False
     | Some k \<Rightarrow> outcall (Connected k) (\<lambda>h. e_connected env h k)
   }"

definition setConn :: "nat \<Rightarrow> (mstate, unit) state" where
  "setConn k = do {
     old \<leftarrow> gets (\<lambda>s. conn (mgr s));
     upd_mgr (\<lambda>m. m\<lparr>conn := Some k\<rparr>);
     case old of None \<Rightarrow> ret () | Some o' \<Rightarrow> outcall (CloseConn o') (\<lambda>_. ())
   }"

definition opContext :: "ctx \<Rightarrow> nat \<Rightarrow> ctx" where
  "opContext ctx limit = OpCtx ctx limit"

definition subscribeToPropertyChanges :: "env \<Rightarrow> nat \<Rightarrow> ('s world_scheme, unit) state" where
  "subscribeToPropertyChanges env k = do {
     err \<leftarrow> outcall (Subscribe k) (\<lambda>h. e_subscribe env h k);
     case err of
       Some _ \<Rightarrow> ret ()
     | None \<Rightarrow> outcall (SetPropertiesSubscriber k) (\<lambda>_. ())
   }"

section \<open>Units under management\<close>

definition unitLocked :: "string \<Rightarrow> manager \<Rightarrow> unitState option" where
  "unitLocked unit m = map_of (units m) unit"

definition registered :: "string \<Rightarrow> (mstate, bool) state" where
  "registered unit = gets (\<lambda>s. unitLocked unit (mgr s) \<noteq> None)"

text \<open>Calling a reader's \<open>context.CancelFunc\<close>.\<close>

definition cancelReader :: "nat \<Rightarrow> (mstate, unit) state" where
  "cancelReader r = upd_mgr (\<lambda>m. m\<lparr>readers :=
     (readers m)[r := (readers m ! r)\<lparr>rd_canceled := True\<rparr>]\<rparr>)"

definition cacheUnitProperties :: "env \<Rightarrow> ctx \<Rightarrow> string \<Rightarrow> (mstate, unit) state" where
  "cacheUnitProperties env ctx unit = do {
     c \<leftarrow> getConn env;
     case c of
       Inl _ \<Rightarrow> ret ()
     | Inr k \<Rightarrow> do {
         let opCtx = opContext ctx propertyTimeout;
         props \<leftarrow> outcall (GetUnitProperties k opCtx unit) (\<lambda>h. e_get_properties env h k unit);
         case props of
           Inl _ \<Rightarrow> ret ()
         | Inr properties \<Rightarrow> do {
             let cg = (case map_of properties ''ControlGroup'' of
                         Some (VString g) \<Rightarrow> g
                       | _ \<Rightarrow> '''');
             t \<leftarrow> now env;
             upd_mgr (\<lambda>m. case unitLocked unit m of
                 None \<Rightarrow> m
               | Some st \<Rightarrow> m\<lparr>units := AList.update unit
                   (st\<lparr>controlGroup := cg, cachedAt := Some t\<rparr>) (units m)\<rparr>)
           }
       }
   }"

definition RegisterUnit :: "env \<Rightarrow> ctx \<Rightarrow> string \<Rightarrow> (mstate, unit) state" where
  "RegisterUnit env ctx unit = do {
     previous \<leftarrow> gets (\<lambda>s. unitLocked unit (mgr s));
     upd_mgr (\<lambda>m. m\<lparr>
       units := AList.update unit (new_unitState (length (wakes m))) (units m),
       wakes := wakes m @ [False]\<rparr>);
     (case Option.bind previous cancelJournal of
        None \<Rightarrow> ret ()
      | Some r \<Rightarrow> cancelReader r);
     cacheUnitProperties env ctx unit
   }"

definition UnregisterUnit :: "string \<Rightarrow> (mstate, unit) state" where
  "UnregisterUnit unit = do {
     st \<leftarrow> gets (\<lambda>s. unitLocked unit (mgr s));
     upd_mgr (\<lambda>m. m\<lparr>units := AList.delete unit (units m)\<rparr>);
     case Option.bind st cancelJournal of
       None \<Rightarrow> ret ()
     | Some r \<Rightarrow> cancelReader r
   }"

definition WakeChannel :: "string \<Rightarrow> (mstate, nat option) state" where
  "WakeChannel unit = gets (\<lambda>s. map_option wake (unitLocked unit (mgr s)))"

text \<open>The non-blocking send: a full channel stays full.\<close>

definition wakeUnit :: "string \<Rightarrow> (mstate, unit) state" where
  "wakeUnit unit = do {
     st \<leftarrow> gets (\<lambda>s. unitLocked unit (mgr s));
     case st of
       None \<Rightarrow> ret ()
     | Some u \<Rightarrow> upd_mgr (\<lambda>m. m\<lparr>wakes := (wakes m)[wake u := True]\<rparr>)
   }"

text \<open>A receive from a wake channel, by the handler that watches it.\<close>

definition recvWake :: "nat \<Rightarrow> (mstate, bool) state" where
  "recvWake w = do {
     full \<leftarrow> gets (\<lambda>s. w < length (wakes (mgr s)) \<and> wakes (mgr s) ! w);
     upd_mgr (\<lambda>m. m\<lparr>wakes := (wakes m)[w := False]\<rparr>);
     ret full
   }"

section \<open>Operations on a unit\<close>

definition waitJobResult :: "env \<Rightarrow> ctx \<Rightarrow> string \<Rightarrow> string \<Rightarrow> (mstate, error option) state" where
  "waitJobResult env ctx unit action = do {
     w \<leftarrow> outcall (WaitJob ctx unit action) (\<lambda>h. e_wait_job env h unit action);
     ret (case w of
         JobResult res \<Rightarrow>
           (if res \<noteq> ''done''
            then Some (Errorf ''%s unit %s: job result %q'' [AStr action, AStr unit, AStr res])
            else None)
       | CtxDone err \<Rightarrow>
           Some (Wrapf ''%s unit %s: waiting for job result: %w'' [AStr action, AStr unit] err))
   }"

definition StartUnit :: "env \<Rightarrow> ctx \<Rightarrow> string \<Rightarrow> (mstate, error option) state" where
  "StartUnit env ctx unit = do {
     c \<leftarrow> getConn env;
     case c of
       Inl err \<Rightarrow> ret (Some err)
     | Inr k \<Rightarrow> do {
         let opCtx = opContext ctx jobTimeout;
         r \<leftarrow> outcall (StartUnitContext k opCtx unit ''replace'') (\<lambda>h. e_start_unit env h k unit);
         case r of
           Some err \<Rightarrow> ret (Some (Wrapf ''enqueue start job: %w'' [] err))
         | None \<Rightarrow> waitJobResult env opCtx unit ''start''
       }
   }"

text \<open>\<open>defer sm.wakeUnit(unit)\<close> runs on every path, after the result is computed.\<close>

definition StopUnit :: "env \<Rightarrow> ctx \<Rightarrow> string \<Rightarrow> (mstate, error option) state" where
  "StopUnit env ctx unit = do {
     res \<leftarrow> do {
       c \<leftarrow> getConn env;
       case c of
         Inl err \<Rightarrow> ret (Some err)
       | Inr k \<Rightarrow> do {
           let opCtx = opContext ctx jobTimeout;
           r \<leftarrow> outcall (StopUnitContext k opCtx unit ''replace'') (\<lambda>h. e_stop_unit env h k unit);
           case r of
             Some err \<Rightarrow> ret (Some (Wrapf ''enqueue stop job: %w'' [] err))
           | None \<Rightarrow> waitJobResult env opCtx unit ''stop''
         }
     };
     wakeUnit unit;
     ret res
   }"

definition KillUnit :: "env \<Rightarrow> ctx \<Rightarrow> string \<Rightarrow> (mstate, error option) state" where
  "KillUnit env ctx unit = do {
     res \<leftarrow> do {
       c \<leftarrow> getConn env;
       case c of
         Inl err \<Rightarrow> ret (Some err)
       | Inr k \<Rightarrow> do {
           let opCtx = opContext ctx propertyTimeout;
           outcall (KillUnitWithTarget k opCtx unit ''all'' SIGKILL) (\<lambda>h. e_kill_unit env h k unit)
         }
     };
     wakeUnit unit;
     ret res
   }"

definition UnitState :: "env \<Rightarrow> ctx \<Rightarrow> string \<Rightarrow> (mstate, error + UnitState) state" where
  "UnitState env ctx unit = do {
     c \<leftarrow> getConn env;
     case c of
       Inl err \<Rightarrow> ret (Inl err)
     | Inr k \<Rightarrow> do {
         let opCtx = opContext ctx propertyTimeout;
         p \<leftarrow> outcall (GetUnitProperty k opCtx unit ''ActiveState'')
                (\<lambda>h. e_get_property env h k unit ''ActiveState'');
         ret (case p of
             Inl err \<Rightarrow> Inl (Wrapf ''get ActiveState property: %w'' [] err)
           | Inr (VString s) \<Rightarrow> Inr (ParseUnitState s)
           | Inr v \<Rightarrow> Inl (Errorf ''ActiveState property has unexpected type: %T''
                             [AStr (type_name (Some v))]))
       }
   }"

definition UnitStartTime :: "env \<Rightarrow> ctx \<Rightarrow> string \<Rightarrow> (mstate, error + time) state" where
  "UnitStartTime env ctx unit = do {
     c \<leftarrow> getConn env;
     case c of
       Inl err \<Rightarrow> ret (Inl err)
     | Inr k \<Rightarrow> do {
         let opCtx = opContext ctx propertyTimeout;
         p \<leftarrow> outcall (GetUnitProperty k opCtx unit ''ActiveEnterTimestamp'')
                (\<lambda>h. e_get_property env h k unit ''ActiveEnterTimestamp'');
         ret (case p of
             Inl err \<Rightarrow> Inl (Wrapf ''get ActiveEnterTimestamp property: %w'' [] err)
           | Inr v \<Rightarrow>
               (case parseTimestampUsec v of
                  None \<Rightarrow> Inl (Errorf ''ActiveEnterTimestamp property has unexpected type: %T''
                                 [AStr (type_name (Some v))])
                | Some usec \<Rightarrow>
                    (if usec = 0
                     then Inl (Errorf ''start time of %s: unit has never been active'' [AStr unit])
                     else Inr (UnixMicro usec))))
       }
   }"

definition UnitExitStatus :: "env \<Rightarrow> ctx \<Rightarrow> string \<Rightarrow> (mstate, error + ExitStatus) state" where
  "UnitExitStatus env ctx unit = do {
     c \<leftarrow> getConn env;
     case c of
       Inl err \<Rightarrow> ret (Inl err)
     | Inr k \<Rightarrow> do {
         let opCtx = opContext ctx propertyTimeout;
         p \<leftarrow> outcall (GetUnitTypeProperties k opCtx unit ''Service'')
                (\<lambda>h. e_get_type_properties env h k unit ''Service'');
         ret (case p of
             Inl err \<Rightarrow> Inl (Wrapf ''get service properties: %w'' [] err)
           | Inr props \<Rightarrow>
               (case map_of props ''ExecMainCode'' of
                  Some (VInt32 code) \<Rightarrow>
                    (case map_of props ''ExecMainStatus'' of
                       Some (VInt32 status) \<Rightarrow> Inr \<lparr>Code = code, Status = status\<rparr>
                     | v \<Rightarrow> Inl (Errorf ''ExecMainStatus property has unexpected type: %T''
                                   [AStr (type_name v)]))
                | v \<Rightarrow> Inl (Errorf ''ExecMainCode property has unexpected type: %T''
                              [AStr (type_name v)])))
       }
   }"

section \<open>Lifecycle\<close>

definition NewManager :: "env \<Rightarrow> ctx \<Rightarrow> nat \<Rightarrow> ('s world_scheme, error + manager) state" where
  "NewManager env ctx cpus = do {
     d \<leftarrow> outcall (Dial ctx) (e_dial env);
     case d of
       Inl err \<Rightarrow> ret (Inl (Wrapf ''connect to systemd: %w'' [] err))
     | Inr k \<Rightarrow> do {
         subscribeToPropertyChanges env k;
         ret (Inr \<lparr>conn = Some k, units = [], stopping = False, journalWg = 0, compute = cpus,
                   cgroupRoot = cgroupV2Root, ctxDone = False, wg = 0, wakes = [], readers = []\<rparr>)
       }
   }"

text \<open>\<open>Start\<close> launches the two loops; \<open>wg\<close> counts them.\<close>

definition Manager_Start :: "(mstate, unit) state" where
  "Manager_Start = upd_mgr (\<lambda>m. m\<lparr>wg := wg m + 2\<rparr>)"

text \<open>A journal reader whose context has ended returns: it closes its journal and calls
  \<open>journalWg.Done\<close>. A reader's context is derived from the Manager's.\<close>

definition reader_ended :: "manager \<Rightarrow> nat \<Rightarrow> bool" where
  "reader_ended m r \<longleftrightarrow> rd_canceled (readers m ! r) \<or> ctxDone m"

definition reader_running :: "manager \<Rightarrow> nat \<Rightarrow> bool" where
  "reader_running m r \<longleftrightarrow> r < length (readers m) \<and> \<not> rd_done (readers m ! r)"

definition finishReader :: "nat \<Rightarrow> (mstate, unit) state" where
  "finishReader r = do {
     live \<leftarrow> gets (\<lambda>s. reader_running (mgr s) r \<and> reader_ended (mgr s) r);
     if live then do {
       j \<leftarrow> gets (\<lambda>s. rd_journal (readers (mgr s) ! r));
       outcall (CloseJournal j) (\<lambda>_. ());
       upd_mgr (\<lambda>m. m\<lparr>readers := (readers m)[r := (readers m ! r)\<lparr>rd_done := True\<rparr>],
                       journalWg := journalWg m - 1\<rparr>)
     } else ret ()
   }"

text \<open>
  \<open>wg.Wait\<close> and \<open>journalWg.Wait\<close>: the goroutines waited for run to their end. The loops return
  because \<open>sm.ctx\<close> is done; every reader still running whose context has ended finishes.
\<close>

definition waitLoops :: "(mstate, unit) state" where
  "waitLoops = upd_mgr (\<lambda>m. if ctxDone m then m\<lparr>wg := 0\<rparr> else m)"

definition waitJournal :: "(mstate, unit) state" where
  "waitJournal = do {
     n \<leftarrow> gets (\<lambda>s. length (readers (mgr s)));
     for_each finishReader [0..<n]
   }"

definition Manager_Stop :: "(mstate, unit) state" where
  "Manager_Stop = do {
     upd_mgr (\<lambda>m. m\<lparr>ctxDone := True\<rparr>);
     waitLoops;
     upd_mgr (\<lambda>m. m\<lparr>stopping := True\<rparr>);
     cancels \<leftarrow> gets (\<lambda>s. List.map_filter (\<lambda>(_, st). cancelJournal st) (units (mgr s)));
     upd_mgr (\<lambda>m. m\<lparr>units := []\<rparr>);
     for_each cancelReader cancels;
     waitJournal;
     c \<leftarrow> gets (\<lambda>s. conn (mgr s));
     case c of
       None \<Rightarrow> ret ()
     | Some k \<Rightarrow> outcall (CloseConn k) (\<lambda>_. ())
   }"

section \<open>Background loops\<close>

text \<open>What \<open>propertiesDispatchLoop\<close> receives, and one iteration of it.\<close>

datatype dispatch_event = CtxEnded | PropUpdate string | PropErr error

fun propertiesDispatchLoop :: "dispatch_event list \<Rightarrow> (mstate, unit) state" where
  "propertiesDispatchLoop [] = ret ()"
| "propertiesDispatchLoop (CtxEnded # _) = ret ()"
| "propertiesDispatchLoop (PropUpdate unit # evs) =
     do { wakeUnit unit; propertiesDispatchLoop evs }"
| "propertiesDispatchLoop (PropErr _ # evs) = propertiesDispatchLoop evs"

definition tryReconnect :: "env \<Rightarrow> (mstate, bool) state" where
  "tryReconnect env = do {
     d \<leftarrow> outcall (Dial (ManagerCtx)) (e_dial env);
     case d of
       Inl _ \<Rightarrow> ret False
     | Inr k \<Rightarrow> do {
         subscribeToPropertyChanges env k;
         setConn k;
         us \<leftarrow> gets (\<lambda>s. e_map_order env (hist s) (map fst (units (mgr s))));
         for_each (cacheUnitProperties env ManagerCtx) us;
         ret True
       }
   }"

text \<open>
  One firing of the timer of \<open>reconnectLoop\<close>: the next backoff. \<open>case sm.Healthy(),
  sm.tryReconnect()\<close> tries to reconnect only if the connection is not healthy.
\<close>

definition reconnectTick :: "env \<Rightarrow> nat \<Rightarrow> (mstate, nat) state" where
  "reconnectTick env backoff = do {
     healthy \<leftarrow> Healthy env;
     ok \<leftarrow> (if healthy then ret True else tryReconnect env);
     ret (if ok then reconnectInterval else min (backoff * 2) reconnectBackoffMax)
   }"

text \<open>The loop over \<open>n\<close> firings before \<open>sm.ctx\<close> is done: the delays the timer is set to.\<close>

fun reconnectLoop :: "env \<Rightarrow> nat \<Rightarrow> nat \<Rightarrow> (mstate, nat list) state" where
  "reconnectLoop env backoff 0 = ret [backoff]"
| "reconnectLoop env backoff (Suc n) = do {
     b \<leftarrow> reconnectTick env backoff;
     bs \<leftarrow> reconnectLoop env b n;
     ret (backoff # bs)
   }"

end
