(* ===== verification/Journal.thy ===== *)
theory Journal
  imports Manager
begin

text \<open>
  \<open>pkg/systemd/journal.go\<close>: starting a unit's journal reader and the reader's loop. The loop is a
  function of what happens in each of its iterations (the journal's replies, and whether the
  reader's context ends while it waits), so it is total: an iteration is consumed every time.
\<close>

section \<open>Data\<close>

record LogEntry =
  Message :: string
  Priority :: string
  SyslogIdentifier :: string
  Timestamp :: time

text \<open>\<open>sdjournal.JournalEntry\<close>, as far as it is read.\<close>

record JournalEntry =
  Fields :: "(string, string) gomap"
  RealtimeTimestamp :: "64 word"

definition journalErrorBackoffMinimum :: nat where "journalErrorBackoffMinimum = 500"
definition journalErrorBackoffMaximum :: nat where "journalErrorBackoffMaximum = 5000"

section \<open>Starting a reader\<close>

text \<open>
  One critical section under \<open>unitsLock\<close>, then the previous reader is canceled. The reader's
  \<open>CancelFunc\<close> is the position it takes in \<open>readers\<close>.
\<close>

definition startJournalReader :: "string \<Rightarrow> nat \<Rightarrow> nat \<Rightarrow> (mstate, bool) state" where
  "startJournalReader unit logCh journal = do {
     stop \<leftarrow> gets (\<lambda>s. stopping (mgr s));
     st \<leftarrow> gets (\<lambda>s. unitLocked unit (mgr s));
     case (if stop then None else st) of
       None \<Rightarrow> ret False
     | Some u \<Rightarrow> do {
         upd_mgr (\<lambda>m. m\<lparr>
           units := AList.update unit (u\<lparr>cancelJournal := Some (length (readers m))\<rparr>) (units m),
           readers := readers m @ [\<lparr>rd_unit = unit, rd_logCh = logCh, rd_journal = journal,
                                    rd_canceled = False, rd_done = False\<rparr>],
           journalWg := journalWg m + 1\<rparr>);
         (case cancelJournal u of
            None \<Rightarrow> ret ()
          | Some previous \<Rightarrow> cancelReader previous);
         ret True
       }
   }"

definition StreamLogs :: "env \<Rightarrow> string \<Rightarrow> nat \<Rightarrow> (mstate, error option) state" where
  "StreamLogs env unit logCh = do {
     reg \<leftarrow> registered unit;
     if \<not> reg then ret (Some (Wrapf ''stream logs for %s: %w'' [AStr unit] ErrUnitNotRegistered))
     else do {
       j \<leftarrow> outcall NewJournal (e_new_journal env);
       case j of
         Inl err \<Rightarrow> ret (Some (Wrapf ''open journal: %w'' [] err))
       | Inr journal \<Rightarrow> do {
           m \<leftarrow> outcall (AddMatch journal (''_SYSTEMD_UNIT='' @ unit))
                 (\<lambda>h. e_add_match env h journal (''_SYSTEMD_UNIT='' @ unit));
           case m of
             Some err \<Rightarrow> do {
               outcall (CloseJournal journal) (\<lambda>_. ());
               ret (Some (Wrapf ''add journal match: %w'' [] err))
             }
           | None \<Rightarrow> do {
               t \<leftarrow> now env;
               seek \<leftarrow> outcall (SeekRealtimeUsec journal (word_of_int (t div 1000)))
                        (\<lambda>h. e_seek_realtime env h journal);
               (case seek of
                  None \<Rightarrow> ret None
                | Some _ \<Rightarrow> outcall (SeekTail journal) (\<lambda>h. e_seek_tail env h journal));
               started \<leftarrow> startJournalReader unit logCh journal;
               if \<not> started then do {
                 outcall (CloseJournal journal) (\<lambda>_. ());
                 ret (Some (Errorf ''stream logs for %s: unit was unregistered or the manager stopped''
                              [AStr unit]))
               } else ret None
             }
         }
     }
   }"

section \<open>The reader's loop\<close>

text \<open>
  One iteration of the loop: the context is done when the iteration starts; \<open>journal.Next\<close> fails
  (and the context ends during the backoff or not); there is no new entry and the reader waits;
  \<open>GetEntry\<close> fails; or an entry is read (and the context ends before the send or not).
\<close>

datatype iteration =
    IterDone
  | IterNextError error bool
  | IterNoEntry
  | IterEntryError error
  | IterEntry JournalEntry bool

text \<open>What the loop does: it sleeps for a backoff or sends an entry.\<close>

datatype reader_action = Slept nat | Sent LogEntry

definition field :: "JournalEntry \<Rightarrow> string \<Rightarrow> string" where
  "field e k = (case map_of (Fields e) k of None \<Rightarrow> '''' | Some v \<Rightarrow> v)"

text \<open>\<open>time.Unix(0, int64(entry.RealtimeTimestamp)*1000)\<close>: the product wraps at 64 bits.\<close>

definition logEntry :: "JournalEntry \<Rightarrow> string \<Rightarrow> LogEntry" where
  "logEntry e message =
     \<lparr>Message = message, Priority = field e ''PRIORITY'',
      SyslogIdentifier = field e ''SYSLOG_IDENTIFIER'',
      Timestamp = sint (RealtimeTimestamp e * 1000)\<rparr>"

text \<open>The actions, and whether the loop has returned.\<close>

fun readerLoop :: "nat \<Rightarrow> iteration list \<Rightarrow> reader_action list \<times> bool" where
  "readerLoop errBackoff [] = ([], False)"
| "readerLoop errBackoff (IterDone # its) = ([], True)"
| "readerLoop errBackoff (IterNextError _ ended # its) =
     (if ended then ([Slept errBackoff], True)
      else (case readerLoop (min (errBackoff * 2) journalErrorBackoffMaximum) its of
              (as, r) \<Rightarrow> (Slept errBackoff # as, r)))"
| "readerLoop errBackoff (IterNoEntry # its) = readerLoop journalErrorBackoffMinimum its"
| "readerLoop errBackoff (IterEntryError _ # its) = readerLoop journalErrorBackoffMinimum its"
| "readerLoop errBackoff (IterEntry e ended # its) =
     (case map_of (Fields e) ''MESSAGE'' of
        None \<Rightarrow> readerLoop journalErrorBackoffMinimum its
      | Some message \<Rightarrow>
          (if ended then ([], True)
           else (case readerLoop journalErrorBackoffMinimum its of
                   (as, r) \<Rightarrow> (Sent (logEntry e message) # as, r))))"

definition journalReader :: "iteration list \<Rightarrow> reader_action list \<times> bool" where
  "journalReader its = readerLoop journalErrorBackoffMinimum its"

end
