(* ===== verification/GoStrings.thy ===== *)
theory GoStrings
  imports World
begin

text \<open>
  What the driver uses of Go's \<open>bytes\<close>, \<open>strings\<close>, \<open>strconv\<close> and \<open>path/filepath\<close>, on byte
  strings (a \<open>char\<close> is a byte): \<open>TrimSpace\<close>, \<open>IndexByte\<close>, \<open>Cut\<close>, \<open>ParseUint(s, 10, 64)\<close> and
  \<open>Join\<close>. The parser of numbers keeps Go's 64-bit arithmetic and is proved against the value of
  the digits.
\<close>

section \<open>Bytes\<close>

fun IndexByte :: "string \<Rightarrow> char \<Rightarrow> nat option" where
  "IndexByte [] c = None"
| "IndexByte (x # xs) c = (if x = c then Some 0 else map_option Suc (IndexByte xs c))"

lemma IndexByte_less: "IndexByte s c = Some i \<Longrightarrow> i < length s"
  by (induction s arbitrary: i) (auto split: if_splits)

lemma IndexByte_None: "IndexByte s c = None \<longleftrightarrow> c \<notin> set s"
  by (induction s) auto

lemma IndexByte_append: "c \<notin> set xs \<Longrightarrow> IndexByte (xs @ c # ys) c = Some (length xs)"
  by (induction xs) auto

text \<open>\<open>bytes.Cut\<close> at a one-byte separator; \<open>None\<close> is \<open>ok = false\<close>.\<close>

definition Cut :: "string \<Rightarrow> char \<Rightarrow> (string \<times> string) option" where
  "Cut s c = map_option (\<lambda>i. (take i s, drop (Suc i) s)) (IndexByte s c)"

lemma Cut_append: "c \<notin> set xs \<Longrightarrow> Cut (xs @ c # ys) c = Some (xs, ys)"
  by (simp add: Cut_def IndexByte_append)

lemma Cut_None: "c \<notin> set xs \<Longrightarrow> Cut xs c = None"
  by (simp add: Cut_def IndexByte_None)

section \<open>TrimSpace\<close>

text \<open>The UTF-8 encodings of the code points \<open>unicode.IsSpace\<close> accepts.\<close>

definition space_encodings :: "string list" where
  "space_encodings =
     [[CHR 0x09], [CHR 0x0A], [CHR 0x0B], [CHR 0x0C], [CHR 0x0D], [CHR 0x20],
      [CHR 0xC2, CHR 0x85], [CHR 0xC2, CHR 0xA0], [CHR 0xE1, CHR 0x9A, CHR 0x80],
      [CHR 0xE2, CHR 0x80, CHR 0x80], [CHR 0xE2, CHR 0x80, CHR 0x81],
      [CHR 0xE2, CHR 0x80, CHR 0x82], [CHR 0xE2, CHR 0x80, CHR 0x83],
      [CHR 0xE2, CHR 0x80, CHR 0x84], [CHR 0xE2, CHR 0x80, CHR 0x85],
      [CHR 0xE2, CHR 0x80, CHR 0x86], [CHR 0xE2, CHR 0x80, CHR 0x87],
      [CHR 0xE2, CHR 0x80, CHR 0x88], [CHR 0xE2, CHR 0x80, CHR 0x89],
      [CHR 0xE2, CHR 0x80, CHR 0x8A], [CHR 0xE2, CHR 0x80, CHR 0xA8],
      [CHR 0xE2, CHR 0x80, CHR 0xA9], [CHR 0xE2, CHR 0x80, CHR 0xAF],
      [CHR 0xE2, CHR 0x81, CHR 0x9F], [CHR 0xE3, CHR 0x80, CHR 0x80]]"

definition strip_one :: "string list \<Rightarrow> string \<Rightarrow> string option" where
  "strip_one encs s =
     map_option (\<lambda>w. drop (length w) s) (find (\<lambda>w. w \<noteq> [] \<and> take (length w) s = w) encs)"

lemma strip_one_less: "strip_one encs s = Some t \<Longrightarrow> length t < length s"
  by (auto simp: strip_one_def find_Some_iff) (metis drop_all length_0_conv length_drop
      diff_less length_greater_0_conv take_eq_Nil)

function trim_left :: "string list \<Rightarrow> string \<Rightarrow> string" where
  "trim_left encs s = (case strip_one encs s of None \<Rightarrow> s | Some t \<Rightarrow> trim_left encs t)"
  by pat_completeness auto
termination
  by (relation "measure (\<lambda>(encs, s). length s)") (auto dest: strip_one_less)

declare trim_left.simps [simp del]

definition TrimSpace :: "string \<Rightarrow> string" where
  "TrimSpace s =
     rev (trim_left (map rev space_encodings) (rev (trim_left space_encodings s)))"

lemma trim_left_no_space:
  "(\<And>w. w \<in> set encs \<Longrightarrow> w \<noteq> [] \<Longrightarrow> s \<noteq> [] \<Longrightarrow> hd w \<noteq> hd s) \<Longrightarrow> trim_left encs s = s"
proof -
  assume hd: "\<And>w. w \<in> set encs \<Longrightarrow> w \<noteq> [] \<Longrightarrow> s \<noteq> [] \<Longrightarrow> hd w \<noteq> hd s"
  have "strip_one encs s = None"
  proof (rule ccontr)
    assume "strip_one encs s \<noteq> None"
    then obtain w where w: "w \<in> set encs" "w \<noteq> []" "take (length w) s = w"
      by (auto simp: strip_one_def find_Some_iff) (metis nth_mem)
    then have "s \<noteq> []" by auto
    with w have "hd w = hd s"
      by (metis hd_take length_greater_0_conv)
    with hd w \<open>s \<noteq> []\<close> show False by blast
  qed
  then show ?thesis
    by (simp add: trim_left.simps)
qed

section \<open>ParseUint\<close>

definition digit_val :: "char \<Rightarrow> nat option" where
  "digit_val c = (let n = of_char c in if 48 \<le> n \<and> n \<le> 57 then Some (n - 48) else None)"

definition is_digit :: "char \<Rightarrow> bool" where
  "is_digit c \<longleftrightarrow> digit_val c \<noteq> None"

lemma digit_val_less: "digit_val c = Some d \<Longrightarrow> d < 10"
  by (auto simp: digit_val_def Let_def split: if_splits)

definition syntaxError :: "string \<Rightarrow> error" where
  "syntaxError s = Errorf ''strconv.ParseUint: parsing %q: invalid syntax'' [AStr s]"

definition rangeError :: "string \<Rightarrow> error" where
  "rangeError s = Errorf ''strconv.ParseUint: parsing %q: value out of range'' [AStr s]"

text \<open>
  The loop of \<open>ParseUint\<close> at base 10 and 64 bits: \<open>cutoff\<close> is the smallest number whose tenfold
  overflows, and the addition of the digit is checked for a wrap.
\<close>

definition cutoff :: "64 word" where
  "cutoff = 1844674407370955162"

fun parse_loop :: "string \<Rightarrow> 64 word \<Rightarrow> string \<Rightarrow> error + 64 word" where
  "parse_loop s0 n [] = Inr n"
| "parse_loop s0 n (c # cs) =
     (case digit_val c of
        None \<Rightarrow> Inl (syntaxError s0)
      | Some d \<Rightarrow>
          (if cutoff \<le> n then Inl (rangeError s0)
           else let n10 = n * 10; n1 = n10 + word_of_nat d
                in if n1 < n10 then Inl (rangeError s0) else parse_loop s0 n1 cs))"

definition ParseUint :: "string \<Rightarrow> error + 64 word" where
  "ParseUint s = (if s = [] then Inl (syntaxError s) else parse_loop s 0 s)"

text \<open>The number a string of digits stands for.\<close>

fun digits_value :: "nat \<Rightarrow> string \<Rightarrow> nat" where
  "digits_value n [] = n"
| "digits_value n (c # cs) = digits_value (10 * n + (case digit_val c of None \<Rightarrow> 0 | Some d \<Rightarrow> d)) cs"

lemma digits_value_ge: "n \<le> digits_value n cs"
proof (induction cs arbitrary: n)
  case (Cons c cs)
  have "n \<le> 10 * n + (case digit_val c of None \<Rightarrow> 0 | Some d \<Rightarrow> d)" by simp
  also have "\<dots> \<le> digits_value n (c # cs)" using Cons by simp
  finally show ?case .
qed simp

text \<open>One step: no wrap is detected exactly when the value stays below 2^64.\<close>

lemma parse_step:
  fixes n :: "64 word"
  assumes "d < 10"
  shows "cutoff \<le> n \<or> n * 10 + word_of_nat d < n * 10 \<longleftrightarrow> 2 ^ 64 \<le> 10 * unat n + d"
    and "10 * unat n + d < 2 ^ 64 \<Longrightarrow> unat (n * 10 + word_of_nat d) = 10 * unat n + d"
proof -
  have cut: "cutoff \<le> n \<longleftrightarrow> 1844674407370955162 \<le> unat n"
    by (simp add: cutoff_def word_le_nat_alt)
  have d: "unat (word_of_nat d :: 64 word) = d"
    using assms by (simp add: unat_of_nat)
  have n10: "unat (n * 10) = 10 * unat n" if "unat n < 1844674407370955162"
    using that by (simp add: unat_word_ariths)
  have sum: "unat (n * 10 + word_of_nat d) = (unat (n * 10) + d) mod 2 ^ 64"
    by (simp add: unat_word_ariths d)
  show "10 * unat n + d < 2 ^ 64 \<Longrightarrow> unat (n * 10 + word_of_nat d) = 10 * unat n + d"
    using sum n10 by simp
  show "cutoff \<le> n \<or> n * 10 + word_of_nat d < n * 10 \<longleftrightarrow> 2 ^ 64 \<le> 10 * unat n + d"
  proof (cases "unat n < 1844674407370955162")
    case True
    then have "n * 10 + word_of_nat d < n * 10 \<longleftrightarrow> (10 * unat n + d) mod 2 ^ 64 < 10 * unat n"
      by (simp add: word_less_nat_alt sum n10)
    also have "\<dots> \<longleftrightarrow> 2 ^ 64 \<le> 10 * unat n + d"
      using True assms by (auto simp: mod_if)
    finally show ?thesis using True cut by auto
  next
    case False
    then show ?thesis using cut assms by simp
  qed
qed

lemma parse_loop_correct:
  "parse_loop s0 n cs =
     (case find (\<lambda>c. \<not> is_digit c) cs of
        None \<Rightarrow> if digits_value (unat n) cs < 2 ^ 64 then Inr (word_of_nat (digits_value (unat n) cs))
                else Inl (rangeError s0)
      | Some _ \<Rightarrow> parse_loop s0 n cs)"
proof (induction cs arbitrary: n)
  case Nil
  have "unat n < 2 ^ 64" using unsigned_less [of n, where ?'a = nat] by simp
  then show ?case by simp
next
  case (Cons c cs)
  show ?case
  proof (cases "digit_val c")
    case None
    then show ?thesis by (simp add: is_digit_def)
  next
    case (Some d)
    then have d: "d < 10" by (rule digit_val_less)
    show ?thesis
    proof (cases "10 * unat n + d < 2 ^ 64")
      case True
      then have "unat (n * 10 + word_of_nat d) = 10 * unat n + d"
        using parse_step(2) [OF d] by blast
      moreover have "\<not> cutoff \<le> n" "\<not> n * 10 + word_of_nat d < n * 10"
        using parse_step(1) [OF d, of n] True by auto
      ultimately show ?thesis
        using Cons [of "n * 10 + word_of_nat d"] Some
        by (simp add: is_digit_def Let_def split: option.splits)
    next
      case False
      then have "cutoff \<le> n \<or> n * 10 + word_of_nat d < n * 10"
        using parse_step(1) [OF d] by auto
      moreover have "\<not> digits_value (10 * unat n + d) cs < 2 ^ 64"
        using False digits_value_ge [of "10 * unat n + d" cs] by linarith
      ultimately show ?thesis
        using Some by (auto simp: is_digit_def Let_def split: option.splits)
    qed
  qed
qed

lemma parse_loop_digits: "parse_loop s0 n cs = Inr w \<Longrightarrow> list_all is_digit cs"
  by (induction cs arbitrary: n)
     (auto simp: is_digit_def Let_def split: option.splits if_splits)

text \<open>
  \<open>ParseUint\<close> accepts exactly the non-empty strings of digits whose value fits 64 bits, and
  returns that value.
\<close>

lemma ParseUint_iff:
  "ParseUint s = Inr w \<longleftrightarrow>
     s \<noteq> [] \<and> list_all is_digit s \<and> digits_value 0 s < 2 ^ 64 \<and> unat w = digits_value 0 s"
  (is "?L = ?R")
proof
  assume ?L
  then have ne: "s \<noteq> []" and p: "parse_loop s 0 s = Inr w"
    by (auto simp: ParseUint_def split: if_splits)
  from p have ds: "list_all is_digit s" by (rule parse_loop_digits)
  then have "find (\<lambda>c. \<not> is_digit c) s = None"
    by (simp add: find_None_iff list_all_iff)
  with p parse_loop_correct [of s 0 s] show ?R
    using ne ds by (auto simp: unat_of_nat split: if_splits)
next
  assume R: ?R
  then have "find (\<lambda>c. \<not> is_digit c) s = None"
    by (simp add: find_None_iff list_all_iff)
  moreover from R have "w = word_of_nat (digits_value 0 s)"
    by (intro word_unat_eq_iff [THEN iffD2]) (simp add: unat_of_nat)
  ultimately show ?L
    using R parse_loop_correct [of s 0 s] by (simp add: ParseUint_def)
qed

text \<open>A decimal printer, to state the round trip with what the kernel prints.\<close>

fun show_nat :: "nat \<Rightarrow> string" where
  "show_nat n = (if n < 10 then [char_of (48 + n)] else show_nat (n div 10) @ [char_of (48 + n mod 10)])"

declare show_nat.simps [simp del]

lemma digit_val_char_of: "d < 10 \<Longrightarrow> digit_val (char_of (48 + d)) = Some d"
  by (simp add: digit_val_def of_char_of Let_def)

lemma digits_value_append:
  "digits_value n (xs @ ys) = digits_value (digits_value n xs) ys"
  by (induction xs arbitrary: n) auto

lemma show_nat_digits: "list_all is_digit (show_nat n) \<and> show_nat n \<noteq> [] \<and> digits_value 0 (show_nat n) = n"
proof (induction n rule: show_nat.induct)
  case (1 n)
  show ?case
  proof (cases "n < 10")
    case True
    then show ?thesis
      by (subst (1 2 3) show_nat.simps) (simp add: is_digit_def digit_val_char_of)
  next
    case False
    have "is_digit (char_of (48 + n mod 10))"
      by (simp add: is_digit_def digit_val_char_of)
    with 1 False show ?thesis
      by (subst (1 2 3) show_nat.simps) (simp add: digit_val_char_of digits_value_append)
  qed
qed

lemma ParseUint_show: "n < 2 ^ 64 \<Longrightarrow> ParseUint (show_nat n) = Inr (word_of_nat n)"
  using show_nat_digits [of n] by (simp add: ParseUint_iff unat_of_nat)

section \<open>filepath.Join\<close>

text \<open>
  \<open>Join\<close> drops empty elements, joins the rest with slashes and cleans the result: empty and
  \<open>.\<close> components go, \<open>..\<close> removes the component before it, and at the root it is dropped.
\<close>

fun split_on :: "char \<Rightarrow> string \<Rightarrow> string list" where
  "split_on c [] = [[]]"
| "split_on c (x # xs) =
     (if x = c then [] # split_on c xs
      else case split_on c xs of [] \<Rightarrow> [[x]] | w # ws \<Rightarrow> (x # w) # ws)"

fun join_with :: "char \<Rightarrow> string list \<Rightarrow> string" where
  "join_with c [] = []"
| "join_with c [w] = w"
| "join_with c (w # ws) = w @ c # join_with c ws"

text \<open>The components kept so far are in reverse.\<close>

fun clean_components :: "bool \<Rightarrow> string list \<Rightarrow> string list \<Rightarrow> string list" where
  "clean_components rooted acc [] = rev acc"
| "clean_components rooted acc (w # ws) =
     (if w = [] \<or> w = ''.'' then clean_components rooted acc ws
      else if w = ''..'' then
        (case acc of
           [] \<Rightarrow> clean_components rooted (if rooted then [] else [w]) ws
         | a # as \<Rightarrow> if a = ''..'' then clean_components rooted (w # acc) ws
                    else clean_components rooted as ws)
      else clean_components rooted (w # acc) ws)"

definition Clean :: "string \<Rightarrow> string" where
  "Clean path =
     (let rooted = (case path of c # _ \<Rightarrow> c = CHR ''/'' | [] \<Rightarrow> False);
          body = join_with (CHR ''/'') (clean_components rooted [] (split_on (CHR ''/'') path))
      in if rooted then CHR ''/'' # body else if body = [] then ''.'' else body)"

definition Join :: "string list \<Rightarrow> string" where
  "Join elems =
     (let es = filter (\<lambda>e. e \<noteq> []) elems
      in if es = [] then [] else Clean (join_with (CHR ''/'') es))"

text \<open>Below the root, no component of a cleaned path is empty, \<open>.\<close> or \<open>..\<close>.\<close>

lemma clean_components_rooted:
  "list_all (\<lambda>w. w \<notin> {[], ''.'', ''..''}) acc \<Longrightarrow>
   list_all (\<lambda>w. w \<notin> {[], ''.'', ''..''}) (clean_components True acc ws)"
  by (induction "True" acc ws rule: clean_components.induct) (auto split: list.splits)

end
