(* ===== verification/Cgroup.thy ===== *)
theory Cgroup
  imports Manager GoStrings
begin

text \<open>
  \<open>pkg/systemd/cgroup.go\<close>: sampling a unit's CPU and memory usage from the cgroup v2 accounting
  files. The scanner of \<open>key value\<close> lines is the source's loop, with the callback as a monadic
  function; below it is proved equal to a fold over the lines that parse. Floating-point values
  are kept as opaque 64-bit patterns (the CPU tracker that makes them is Nomad's).
\<close>

section \<open>Data\<close>

record CpuStats =
  Percent :: "64 word"
  TotalTicks :: "64 word"
  cpu_Measured :: "string list"

record MemoryStats =
  RSS :: "64 word"
  Cache :: "64 word"
  Usage :: "64 word"
  mem_Measured :: "string list"

record resource_stats =
  CPUStats :: CpuStats
  MemStats :: MemoryStats

definition zero_CpuStats :: CpuStats where
  "zero_CpuStats = \<lparr>Percent = 0, TotalTicks = 0, cpu_Measured = []\<rparr>"

definition zero_MemoryStats :: MemoryStats where
  "zero_MemoryStats = \<lparr>RSS = 0, Cache = 0, Usage = 0, mem_Measured = []\<rparr>"

definition EmptyResourceStats :: resource_stats where
  "EmptyResourceStats = \<lparr>CPUStats = zero_CpuStats, MemStats = zero_MemoryStats\<rparr>"

text \<open>\<open>cgroupRetryInterval\<close>, in nanoseconds.\<close>

definition cgroupRetryInterval :: time where
  "cgroupRetryInterval = 5000000000"

section \<open>The line scanner\<close>

text \<open>The first line of the data and what follows its newline.\<close>

definition next_line :: "string \<Rightarrow> string \<times> string" where
  "next_line data =
     (case IndexByte data (CHR 0x0A) of
        Some i \<Rightarrow> (take i data, drop (Suc i) data)
      | None \<Rightarrow> (data, []))"

lemma next_line_less: "data \<noteq> [] \<Longrightarrow> length (snd (next_line data)) < length data"
  by (auto simp: next_line_def split: option.split dest: IndexByte_less)

text \<open>The key and value of a line; \<open>None\<close> for the lines that are skipped.\<close>

definition parse_line :: "string \<Rightarrow> (string \<times> 64 word) option" where
  "parse_line line =
     (case Cut line (CHR '' '') of
        None \<Rightarrow> None
      | Some (key, rest) \<Rightarrow>
          (case ParseUint (TrimSpace rest) of
             Inl _ \<Rightarrow> None
           | Inr v \<Rightarrow> Some (key, v)))"

function scanCgroupKeyValue ::
    "string \<Rightarrow> (string \<Rightarrow> 64 word \<Rightarrow> ('s, bool) state) \<Rightarrow> ('s, unit) state" where
  "scanCgroupKeyValue data fn =
     (if data = [] then ret ()
      else let (line, data') = next_line data in
        case Cut line (CHR '' '') of
          None \<Rightarrow> scanCgroupKeyValue data' fn
        | Some (key, rest) \<Rightarrow>
            (case ParseUint (TrimSpace rest) of
               Inl _ \<Rightarrow> scanCgroupKeyValue data' fn
             | Inr v \<Rightarrow> do {
                 more \<leftarrow> fn key v;
                 if more then scanCgroupKeyValue data' fn else ret ()
               }))"
  by pat_completeness auto
termination
  by (relation "measure (\<lambda>(data, fn). length data)") (auto dest!: next_line_less simp: prod_eq_iff)

declare scanCgroupKeyValue.simps [simp del]

definition readCgroupV2File :: "env \<Rightarrow> string \<Rightarrow> ('s world_scheme, error + 64 word) state" where
  "readCgroupV2File env path = do {
     d \<leftarrow> outcall (ReadFile path) (\<lambda>h. e_read_file env h path);
     ret (case d of
         Inl err \<Rightarrow> Inl err
       | Inr data \<Rightarrow>
           (case ParseUint (TrimSpace data) of
              Inl err \<Rightarrow> Inl (Wrapf ''parse %s: %w'' [AStr path] err)
            | Inr v \<Rightarrow> Inr v))
   }"

section \<open>Sampling\<close>

text \<open>
  The unit's tracker holds the samples taken so far; Nomad's \<open>cpustats.Tracker\<close> computes the
  percentage from them, the host's capacity and the new sample.
\<close>

definition calculateCPUPercent ::
    "env \<Rightarrow> string \<Rightarrow> 64 word \<Rightarrow> CpuStats \<Rightarrow> (mstate, CpuStats) state" where
  "calculateCPUPercent env unit nsec cs = do {
     u \<leftarrow> gets (\<lambda>s. unitLocked unit (mgr s));
     case u of
       None \<Rightarrow> ret cs
     | Some st \<Rightarrow> do {
         let samples = (case cpu st of None \<Rightarrow> [] | Some xs \<Rightarrow> xs);
         cpus \<leftarrow> gets (\<lambda>s. compute (mgr s));
         percent \<leftarrow> outcall (CpuPercent nsec) (\<lambda>h. e_cpu_percent env h cpus samples nsec);
         upd_mgr (\<lambda>m. m\<lparr>units := AList.update unit (st\<lparr>cpu := Some (samples @ [nsec])\<rparr>) (units m)\<rparr>);
         ret (cs\<lparr>Percent := percent, TotalTicks := e_cpu_ticks env cpus percent,
                 cpu_Measured := [''Percent'', ''Total Ticks'']\<rparr>)
       }
   }"

text \<open>The callback for \<open>memory.stat\<close>, on the captured \<open>memoryStats, haveAnon, haveFile\<close>.\<close>

definition memStatLine ::
    "string \<Rightarrow> 64 word \<Rightarrow> (MemoryStats \<times> bool \<times> bool, bool) state" where
  "memStatLine key v = do {
     modify (\<lambda>(ms, haveAnon, haveFile).
       if key = ''anon'' then (ms\<lparr>RSS := v, mem_Measured := mem_Measured ms @ [''RSS'']\<rparr>, True, haveFile)
       else if key = ''file'' then (ms\<lparr>Cache := v, mem_Measured := mem_Measured ms @ [''Cache'']\<rparr>, haveAnon, True)
       else (ms, haveAnon, haveFile));
     gets (\<lambda>(ms, haveAnon, haveFile). \<not> haveAnon \<or> \<not> haveFile)
   }"

text \<open>The callback for \<open>cpu.stat\<close>, on the Manager and the captured \<open>cpuStats\<close>.\<close>

definition cpuStatLine ::
    "env \<Rightarrow> string \<Rightarrow> string \<Rightarrow> 64 word \<Rightarrow> (mstate \<times> CpuStats, bool) state" where
  "cpuStatLine env unit key v =
     (if key \<noteq> ''usage_usec'' then ret True
      else do {
        cs \<leftarrow> gets snd;
        cs' \<leftarrow> zoom fst (\<lambda>t (_, c). (t, c)) (calculateCPUPercent env unit (v * 1000) cs);
        modify (\<lambda>(t, _). (t, cs'));
        ret False
      })"

text \<open>Running a scan whose callback captures a local variable.\<close>

definition with_local :: "'l \<Rightarrow> ('s \<times> 'l, unit) state \<Rightarrow> ('s, 'l) state" where
  "with_local x m = State (\<lambda>s. case run_state m (s, x) of (_, s', x') \<Rightarrow> (x', s'))"

lemma run_with_local [simp, run_simps]:
  "run_state (with_local x m) s = (snd (exec m (s, x)), fst (exec m (s, x)))"
  by (simp add: with_local_def split: prod.split)

definition getCgroupV2Stats ::
    "env \<Rightarrow> string \<Rightarrow> string \<Rightarrow> (mstate, resource_stats option) state" where
  "getCgroupV2Stats env unit cgroupPath = do {
     root \<leftarrow> gets (\<lambda>s. cgroupRoot (mgr s));
     let fullPath = Join [root, cgroupPath];
     cur \<leftarrow> readCgroupV2File env (Join [fullPath, ''memory.current'']);
     let ms0 = (case cur of
           Inr v \<Rightarrow> zero_MemoryStats\<lparr>Usage := v, mem_Measured := [''Usage'']\<rparr>
         | Inl _ \<Rightarrow> zero_MemoryStats);
     mstat \<leftarrow> outcall (ReadFile (Join [fullPath, ''memory.stat'']))
               (\<lambda>h. e_read_file env h (Join [fullPath, ''memory.stat'']));
     let ms1 = (case mstat of
           Inr data \<Rightarrow> fst (exec (scanCgroupKeyValue data memStatLine) (ms0, False, False))
         | Inl _ \<Rightarrow> ms0);
     cstat \<leftarrow> outcall (ReadFile (Join [fullPath, ''cpu.stat'']))
               (\<lambda>h. e_read_file env h (Join [fullPath, ''cpu.stat'']));
     cs \<leftarrow> (case cstat of
           Inr data \<Rightarrow> with_local zero_CpuStats (scanCgroupKeyValue data (cpuStatLine env unit))
         | Inl _ \<Rightarrow> ret zero_CpuStats);
     ret (if mem_Measured ms1 \<noteq> [] \<or> cpu_Measured cs \<noteq> []
          then Some \<lparr>CPUStats = cs, MemStats = ms1\<rparr> else None)
   }"

text \<open>The result's \<open>registered = false\<close> is \<open>None\<close>.\<close>

definition cachedControlGroup :: "string \<Rightarrow> (mstate, (string \<times> time option) option) state" where
  "cachedControlGroup unit =
     gets (\<lambda>s. map_option (\<lambda>st. (controlGroup st, cachedAt st)) (unitLocked unit (mgr s)))"

definition notRegistered :: "string \<Rightarrow> error" where
  "notRegistered unit = Wrapf ''resource stats for %s: %w'' [AStr unit] ErrUnitNotRegistered"

definition ResourceStats :: "env \<Rightarrow> ctx \<Rightarrow> string \<Rightarrow> (mstate, error + resource_stats) state" where
  "ResourceStats env ctx unit = do {
     c \<leftarrow> cachedControlGroup unit;
     case c of
       None \<Rightarrow> ret (Inl (notRegistered unit))
     | Some (cg, at) \<Rightarrow> do {
         stale \<leftarrow> (case at of
             None \<Rightarrow> ret True
           | Some t0 \<Rightarrow>
               (if cg = '''' then do { t \<leftarrow> now env; ret (t - t0 > cgroupRetryInterval) }
                else ret False));
         c' \<leftarrow> (if stale
               then do { cacheUnitProperties env ctx unit; cachedControlGroup unit }
               else ret (Some (cg, at)));
         case c' of
           None \<Rightarrow> ret (Inl (notRegistered unit))
         | Some (cg', _) \<Rightarrow>
             (if cg' = '''' then ret (Inr EmptyResourceStats)
              else do {
                stats \<leftarrow> getCgroupV2Stats env unit cg';
                case stats of
                  None \<Rightarrow> ret (Inr EmptyResourceStats)
                | Some rs \<Rightarrow> ret (Inr rs)
              })
       }
   }"

definition CgroupV2Available :: "env \<Rightarrow> (mstate, bool) state" where
  "CgroupV2Available env = do {
     root \<leftarrow> gets (\<lambda>s. cgroupRoot (mgr s));
     err \<leftarrow> outcall (Stat (Join [root, ''cgroup.controllers'']))
             (\<lambda>h. e_stat env h (Join [root, ''cgroup.controllers'']));
     ret (err = None)
   }"

end
