(* ===== verification/ManagerSteps.thy ===== *)
theory ManagerSteps
  imports Journal Cgroup
begin

text \<open>
  The Manager's operations as functions on its record: what registering, unregistering, starting a
  reader, a reader's return and \<open>Stop\<close> do, apart from the calls they make. The Manager as a
  transition system, and the locale \<open>manager_invariant\<close>: a property of the record that the
  elementary updates keep is kept by every operation, so by every step.
\<close>

section \<open>What the table says of a unit\<close>

definition wake_of :: "manager \<Rightarrow> string \<Rightarrow> nat option" where
  "wake_of m u = map_option wake (unitLocked u m)"

definition reader_of :: "manager \<Rightarrow> string \<Rightarrow> nat option" where
  "reader_of m u = Option.bind (unitLocked u m) cancelJournal"

section \<open>What an operation keeps\<close>

definition keeps :: "(manager \<Rightarrow> bool) \<Rightarrow> (mstate, 'a) state \<Rightarrow> bool" where
  "keeps P m \<longleftrightarrow> state_io_rel (\<lambda>s t. P (mgr s) \<longrightarrow> P (mgr t)) m"

named_theorems keeps_rules "what manager operations keep"

lemma keepsI: "(\<And>s. P (mgr s) \<Longrightarrow> P (mgr (exec m s))) \<Longrightarrow> keeps P m"
  by (simp add: keeps_def state_io_rel_def)

lemma keepsD: "keeps P m \<Longrightarrow> P (mgr s) \<Longrightarrow> P (mgr (exec m s))"
  by (simp add: keeps_def state_io_rel_def)

lemma keeps_ret [keeps_rules]: "keeps P (ret x)"
  and keeps_gets [keeps_rules]: "keeps P (gets f)"
  and keeps_outcall [keeps_rules]: "keeps P (outcall c g)"
  and keeps_now [keeps_rules]: "keeps P (now env)"
  by (auto intro: keepsI simp: now_def)

lemma keeps_bind [keeps_rules]: "keeps P m \<Longrightarrow> (\<And>x. keeps P (f x)) \<Longrightarrow> keeps P (m \<bind> f)"
  unfolding keeps_def by (intro io_bind preorder_rel_imp)

lemma keeps_case [keeps_rules]:
  "(\<And>e. keeps P (f e)) \<Longrightarrow> (\<And>x. keeps P (g x)) \<Longrightarrow> keeps P (case r of Inl e \<Rightarrow> f e | Inr x \<Rightarrow> g x)"
  "keeps P m \<Longrightarrow> (\<And>x. keeps P (h x)) \<Longrightarrow> keeps P (case q of None \<Rightarrow> m | Some x \<Rightarrow> h x)"
  "keeps P m \<Longrightarrow> keeps P n \<Longrightarrow> keeps P (if b then m else n)"
  "(\<And>x y. keeps P (k x y)) \<Longrightarrow> keeps P (case p of (x, y) \<Rightarrow> k x y)"
  by (auto split: sum.split option.split prod.split)

lemma keeps_let [keeps_rules]: "(\<And>x. keeps P (f x)) \<Longrightarrow> keeps P (let x = y in f x)"
  by simp

lemma keeps_for_each [keeps_rules]: "(\<And>x. keeps P (f x)) \<Longrightarrow> keeps P (for_each f xs)"
  by (induction xs) (auto intro: keeps_rules)

lemma keeps_upd: "(\<And>m. P m \<Longrightarrow> P (f m)) \<Longrightarrow> keeps P (upd_mgr f)"
  by (auto intro: keepsI)

text \<open>Reading from systemd changes nothing in the Manager.\<close>

lemma keeps_getConn [keeps_rules]: "keeps P (getConn env)"
  unfolding getConn_def by (intro keeps_rules)

lemma keeps_Healthy [keeps_rules]: "keeps P (Healthy env)"
  unfolding Healthy_def by (intro keeps_rules)

lemma keeps_subscribe [keeps_rules]: "keeps P (subscribeToPropertyChanges env k)"
  unfolding subscribeToPropertyChanges_def by (intro keeps_rules)

lemma keeps_waitJobResult [keeps_rules]: "keeps P (waitJobResult env ctx u a)"
  unfolding waitJobResult_def by (intro keeps_rules)

lemma keeps_StartUnit [keeps_rules]: "keeps P (StartUnit env ctx u)"
  unfolding StartUnit_def by (intro keeps_rules)

lemma keeps_UnitState [keeps_rules]: "keeps P (UnitState env ctx u)"
  unfolding UnitState_def by (intro keeps_rules)

lemma keeps_UnitStartTime [keeps_rules]: "keeps P (UnitStartTime env ctx u)"
  unfolding UnitStartTime_def by (intro keeps_rules)

lemma keeps_UnitExitStatus [keeps_rules]: "keeps P (UnitExitStatus env ctx u)"
  unfolding UnitExitStatus_def by (intro keeps_rules)

lemma keeps_CgroupV2Available [keeps_rules]: "keeps P (CgroupV2Available env)"
  unfolding CgroupV2Available_def by (intro keeps_rules)

lemma keeps_WakeChannel [keeps_rules]: "keeps P (WakeChannel u)"
  unfolding WakeChannel_def by (intro keeps_rules)

lemma keeps_registered [keeps_rules]: "keeps P (registered u)"
  unfolding registered_def by (intro keeps_rules)

text \<open>A scan keeps what its callback keeps.\<close>

lemma io_scan:
  assumes R: "preorder_rel R" and fn: "\<And>k v. state_io_rel R (fn k v)"
  shows "state_io_rel R (scanCgroupKeyValue data fn)"
  using fn
proof (induction data fn rule: scanCgroupKeyValue.induct)
  case (1 data fn)
  obtain line data' where nl: "next_line data = (line, data')"
    by force
  show ?case
  proof (cases "data = []")
    case True
    then show ?thesis by (simp add: scanCgroupKeyValue.simps io_ret [OF R])
  next
    case False
    have "state_io_rel R (scanCgroupKeyValue data' fn)"
      if "Cut line (CHR '' '') = None"
      using 1 that False nl by simp
    moreover have "state_io_rel R (scanCgroupKeyValue data' fn)"
      if "Cut line (CHR '' '') = Some (key, rest)" for key rest
      using 1 that False nl by (cases "ParseUint (TrimSpace rest)") auto
    ultimately show ?thesis
      using False nl 1(4)
      by (subst scanCgroupKeyValue.simps)
         (auto intro!: io_bind [OF R] io_ret [OF R] split: option.split sum.split)
  qed
qed

lemma keeps_readCgroupV2File [keeps_rules]: "keeps P (readCgroupV2File env path)"
  unfolding readCgroupV2File_def by (intro keeps_rules)

lemma keeps_cachedControlGroup [keeps_rules]: "keeps P (cachedControlGroup u)"
  unfolding cachedControlGroup_def by (intro keeps_rules)

section \<open>The operations on the record\<close>

definition cancel_reader :: "nat option \<Rightarrow> manager \<Rightarrow> manager" where
  "cancel_reader r m = (case r of
     None \<Rightarrow> m
   | Some r \<Rightarrow> m\<lparr>readers := (readers m)[r := (readers m ! r)\<lparr>rd_canceled := True\<rparr>]\<rparr>)"

lemma run_cancel_option:
  "run_state (case r of None \<Rightarrow> ret () | Some r \<Rightarrow> cancelReader r) s = ((), s\<lparr>mgr := cancel_reader r (mgr s)\<rparr>)"
  by (cases r) (simp_all add: cancelReader_def cancel_reader_def)

text \<open>\<open>RegisterUnit\<close> up to the read of the unit's properties.\<close>

definition register_m :: "string \<Rightarrow> manager \<Rightarrow> manager" where
  "register_m u m = cancel_reader (reader_of m u) (m\<lparr>
     units := AList.update u (new_unitState (length (wakes m))) (units m),
     wakes := wakes m @ [False]\<rparr>)"

lemma run_RegisterUnit:
  "run_state (RegisterUnit env ctx u) s =
     run_state (cacheUnitProperties env ctx u) (s\<lparr>mgr := register_m u (mgr s)\<rparr>)"
  by (simp add: RegisterUnit_def run_cancel_option register_m_def reader_of_def)

definition unregister_m :: "string \<Rightarrow> manager \<Rightarrow> manager" where
  "unregister_m u m = cancel_reader (reader_of m u) (m\<lparr>units := AList.delete u (units m)\<rparr>)"

lemma run_UnregisterUnit:
  "run_state (UnregisterUnit u) s = ((), s\<lparr>mgr := unregister_m u (mgr s)\<rparr>)"
  by (simp add: UnregisterUnit_def run_cancel_option reader_of_def unregister_m_def)

text \<open>\<open>startJournalReader\<close> when it registers the reader.\<close>

definition start_m :: "string \<Rightarrow> nat \<Rightarrow> nat \<Rightarrow> unitState \<Rightarrow> manager \<Rightarrow> manager" where
  "start_m u logCh journal st m = cancel_reader (cancelJournal st) (m\<lparr>
     units := AList.update u (st\<lparr>cancelJournal := Some (length (readers m))\<rparr>) (units m),
     readers := readers m @ [\<lparr>rd_unit = u, rd_logCh = logCh, rd_journal = journal,
                              rd_canceled = False, rd_done = False\<rparr>],
     journalWg := journalWg m + 1\<rparr>)"

lemma run_startJournalReader:
  "run_state (startJournalReader u logCh journal) s =
     (if stopping (mgr s) then (False, s)
      else case unitLocked u (mgr s) of
        None \<Rightarrow> (False, s)
      | Some st \<Rightarrow> (True, s\<lparr>mgr := start_m u logCh journal st (mgr s)\<rparr>))"
  by (auto simp: startJournalReader_def run_cancel_option start_m_def split: option.split)

definition finish_m :: "nat \<Rightarrow> manager \<Rightarrow> manager" where
  "finish_m r m =
     (if reader_running m r \<and> reader_ended m r
      then m\<lparr>readers := (readers m)[r := (readers m ! r)\<lparr>rd_done := True\<rparr>],
             journalWg := journalWg m - 1\<rparr>
      else m)"

lemma mgr_finishReader: "mgr (exec (finishReader r) s) = finish_m r (mgr s)"
  by (simp add: finishReader_def finish_m_def)

lemma mgr_finish_all: "mgr (exec (for_each finishReader rs) s) = fold finish_m rs (mgr s)"
proof (induction rs arbitrary: s)
  case (Cons r rs)
  have "mgr (exec (for_each finishReader (r # rs)) s) =
        mgr (exec (for_each finishReader rs) (exec (finishReader r) s))"
    by (simp split: prod.split)
  then show ?case by (simp add: Cons mgr_finishReader)
qed simp

text \<open>The Manager just before its connection is closed.\<close>

definition stopped_m :: "manager \<Rightarrow> manager" where
  "stopped_m m =
     (let cs = List.map_filter (\<lambda>(_, st). cancelJournal st) (units m);
          m1 = fold (\<lambda>r. cancel_reader (Some r)) cs
                 (m\<lparr>ctxDone := True, wg := 0, stopping := True, units := []\<rparr>)
      in fold finish_m [0..<length (readers m1)] m1)"

lemma cancels_mgr:
  "mgr (exec (for_each cancelReader rs) s) =
     fold (\<lambda>r. cancel_reader (Some r)) rs (mgr s)"
  by (induction rs arbitrary: s) (simp_all add: cancelReader_def cancel_reader_def)

lemma mgr_Manager_Stop: "mgr (exec Manager_Stop s) = stopped_m (mgr s)"
  by (simp add: Manager_Stop_def waitLoops_def waitJournal_def stopped_m_def Let_def exec_bind
      result_bind cancels_mgr mgr_finish_all del: run_state_bind split: option.split)

lemma run_getConn:
  "run_state (getConn env) s =
     (case conn (mgr s) of
        None \<Rightarrow> (Inl (NewError ''no systemd dbus connection available''), s)
      | Some k \<Rightarrow>
          (if e_connected env (hist s) k then Inr k
           else Inl (NewError ''no systemd dbus connection available''),
           s\<lparr>hist := hist s @ [Connected k]\<rparr>))"
  by (simp add: getConn_def split: option.split)

text \<open>Refreshing the cached properties touches at most the unit's entry.\<close>

lemma mgr_cache:
  "mgr (exec (cacheUnitProperties env ctx u) s) = mgr s \<or>
   (\<exists>st cg t. unitLocked u (mgr s) = Some st \<and>
      mgr (exec (cacheUnitProperties env ctx u) s) =
        (mgr s)\<lparr>units := AList.update u (st\<lparr>controlGroup := cg, cachedAt := Some t\<rparr>) (units (mgr s))\<rparr>)"
  by (auto simp: cacheUnitProperties_def getConn_def now_def Let_def split: option.split sum.split)

lemma cache_registered:
  "mgr (exec (cacheUnitProperties env ctx u) s) = mgr s \<or>
   (\<exists>st old. unitLocked u (mgr s) = Some old \<and> wake st = wake old \<and>
      cancelJournal st = cancelJournal old \<and>
      mgr (exec (cacheUnitProperties env ctx u) s) =
        (mgr s)\<lparr>units := AList.update u st (units (mgr s))\<rparr>)"
  using mgr_cache [of env ctx u s]
  by (elim disjE exE conjE; intro disjI1 disjI2 exI conjI; assumption?) simp_all

section \<open>The transition system\<close>

inductive mgr_step :: "env \<Rightarrow> mstate \<Rightarrow> mstate \<Rightarrow> bool" for env where
  step_start: "mgr_step env s (exec Manager_Start s)"
| step_register: "mgr_step env s (exec (RegisterUnit env ctx u) s)"
| step_unregister: "mgr_step env s (exec (UnregisterUnit u) s)"
| step_start_unit: "mgr_step env s (exec (StartUnit env ctx u) s)"
| step_stop_unit: "mgr_step env s (exec (StopUnit env ctx u) s)"
| step_kill_unit: "mgr_step env s (exec (KillUnit env ctx u) s)"
| step_unit_state: "mgr_step env s (exec (UnitState env ctx u) s)"
| step_start_time: "mgr_step env s (exec (UnitStartTime env ctx u) s)"
| step_exit_status: "mgr_step env s (exec (UnitExitStatus env ctx u) s)"
| step_stats: "mgr_step env s (exec (ResourceStats env ctx u) s)"
| step_stream: "mgr_step env s (exec (StreamLogs env u logCh) s)"
| step_available: "mgr_step env s (exec (CgroupV2Available env) s)"
| step_healthy: "mgr_step env s (exec (Healthy env) s)"
| step_recv: "mgr_step env s (exec (recvWake w) s)"
| step_dispatch: "mgr_step env s (exec (propertiesDispatchLoop evs) s)"
| step_reconnect: "mgr_step env s (exec (reconnectTick env backoff) s)"
| step_reader: "mgr_step env s (exec (finishReader r) s)"
| step_stop: "mgr_step env s (exec Manager_Stop s)"

inductive mgr_steps :: "env \<Rightarrow> mstate \<Rightarrow> mstate \<Rightarrow> bool" for env where
  no_step: "mgr_steps env s s"
| one_more: "mgr_steps env s t \<Longrightarrow> mgr_step env t u \<Longrightarrow> mgr_steps env s u"

section \<open>Invariants of the record\<close>

text \<open>\<open>manager_updates\<close>: a property that the updates of a registered unit's entry, of the wake flags
  and of the readers keep. Every operation on a unit but registering and unregistering keeps it.\<close>

locale manager_updates =
  fixes P :: "manager \<Rightarrow> bool"
  assumes P_wg: "P m \<Longrightarrow> P (m\<lparr>wg := n\<rparr>)"
    and P_wakes: "P m \<Longrightarrow> P (m\<lparr>wakes := (wakes m)[w := full]\<rparr>)"
    and P_touch: "P m \<Longrightarrow> unitLocked u m = Some st \<Longrightarrow> wake st' = wake st \<Longrightarrow>
      cancelJournal st' = cancelJournal st \<Longrightarrow> P (m\<lparr>units := AList.update u st' (units m)\<rparr>)"
    and P_start: "P m \<Longrightarrow> \<not> stopping m \<Longrightarrow> unitLocked u m = Some st \<Longrightarrow>
      P (start_m u logCh journal st m)"
    and P_finish: "P m \<Longrightarrow> P (finish_m r m)"
begin

lemma wakeUnit_keeps [keeps_rules]: "keeps P (wakeUnit u)"
  unfolding wakeUnit_def by (intro keeps_rules keeps_upd P_wakes)

lemma recvWake_keeps [keeps_rules]: "keeps P (recvWake w)"
  unfolding recvWake_def by (intro keeps_rules keeps_upd P_wakes)

lemma StopUnit_keeps [keeps_rules]: "keeps P (StopUnit env ctx u)"
  unfolding StopUnit_def by (intro keeps_rules)

lemma KillUnit_keeps [keeps_rules]: "keeps P (KillUnit env ctx u)"
  unfolding KillUnit_def by (intro keeps_rules)

lemma cache_keeps [keeps_rules]: "keeps P (cacheUnitProperties env ctx u)"
  unfolding cacheUnitProperties_def
  by (intro keeps_rules keeps_upd) (auto split: option.split intro: P_touch)

lemma startJournalReader_keeps [keeps_rules]: "keeps P (startJournalReader u logCh journal)"
  by (rule keepsI) (auto simp: run_startJournalReader P_start split: option.split)

lemma StreamLogs_keeps [keeps_rules]: "keeps P (StreamLogs env u logCh)"
  unfolding StreamLogs_def by (intro keeps_rules)

lemma calculateCPUPercent_keeps [keeps_rules]: "keeps P (calculateCPUPercent env u v cs)"
proof (rule keepsI)
  fix s :: mstate assume "P (mgr s)"
  then show "P (mgr (exec (calculateCPUPercent env u v cs) s))"
    by (auto simp: calculateCPUPercent_def Let_def split: option.split intro!: P_touch)
qed

lemma cpuStatLine_io:
  "state_io_rel (\<lambda>s t. P (mgr (fst s)) \<longrightarrow> P (mgr (fst t))) (cpuStatLine env u k v)"
  using keepsD [OF calculateCPUPercent_keeps]
  by (auto simp: cpuStatLine_def state_io_rel_def split: prod.split)

lemma with_local_keeps [keeps_rules]:
  "keeps P (with_local x (scanCgroupKeyValue data (cpuStatLine env u)))"
  using io_scan [OF preorder_rel_imp, of "\<lambda>s. P (mgr (fst s))", OF cpuStatLine_io]
  by (auto simp: keeps_def state_io_rel_def)

lemma getCgroupV2Stats_keeps [keeps_rules]: "keeps P (getCgroupV2Stats env u path)"
  unfolding getCgroupV2Stats_def by (intro keeps_rules)

lemma ResourceStats_keeps [keeps_rules]: "keeps P (ResourceStats env ctx u)"
  unfolding ResourceStats_def by (intro keeps_rules)

lemma dispatch_keeps [keeps_rules]: "keeps P (propertiesDispatchLoop evs)"
  by (induction evs rule: propertiesDispatchLoop.induct) (auto intro!: keeps_rules)

lemma Manager_Start_keeps [keeps_rules]: "keeps P Manager_Start"
  unfolding Manager_Start_def by (intro keeps_upd P_wg)

lemma finishReader_keeps [keeps_rules]: "keeps P (finishReader r)"
  by (rule keepsI) (simp add: mgr_finishReader P_finish)

end

text \<open>\<open>manager_frame\<close>: a new connection keeps it as well, so every operation but registering,
  unregistering and \<open>Stop\<close> does.\<close>

locale manager_frame = manager_updates +
  assumes P_conn: "P m \<Longrightarrow> P (m\<lparr>conn := c\<rparr>)"
begin

lemma setConn_keeps [keeps_rules]: "keeps P (setConn k)"
  unfolding setConn_def by (intro keeps_rules keeps_upd P_conn)

lemma tryReconnect_keeps [keeps_rules]: "keeps P (tryReconnect env)"
  unfolding tryReconnect_def by (intro keeps_rules)

lemma reconnectTick_keeps [keeps_rules]: "keeps P (reconnectTick env b)"
  unfolding reconnectTick_def by (intro keeps_rules)

end

text \<open>\<open>manager_invariant\<close>: kept by the other three as well, so by every step.\<close>

locale manager_invariant = manager_frame +
  assumes P_register: "P m \<Longrightarrow> P (register_m u m)"
    and P_unregister: "P m \<Longrightarrow> P (unregister_m u m)"
    and P_stop: "P m \<Longrightarrow> P (stopped_m m)"
begin

lemma RegisterUnit_keeps [keeps_rules]: "keeps P (RegisterUnit env ctx u)"
  by (rule keepsI) (simp add: run_RegisterUnit keepsD [OF cache_keeps] P_register)

lemma UnregisterUnit_keeps [keeps_rules]: "keeps P (UnregisterUnit u)"
  by (rule keepsI) (simp add: run_UnregisterUnit P_unregister)

lemma Manager_Stop_keeps [keeps_rules]: "keeps P Manager_Stop"
  by (rule keepsI) (simp add: mgr_Manager_Stop P_stop)

lemma step_keeps: "mgr_step env s t \<Longrightarrow> P (mgr s) \<Longrightarrow> P (mgr t)"
  by (cases rule: mgr_step.cases) (auto intro: keepsD keeps_rules)

lemma steps_keep: "mgr_steps env s t \<Longrightarrow> P (mgr s) \<Longrightarrow> P (mgr t)"
  by (induction rule: mgr_steps.induct) (auto intro: step_keeps)

end

end
