(* ===== verification/ManagerProps.thy ===== *)
theory ManagerProps
  imports ManagerSteps
begin

text \<open>
  Two invariants of the Manager. \<open>wf_mgr\<close>: every registered unit has a wake channel of its own,
  the journal readers not cancelled are the registered ones of their units, and \<open>journalWg\<close> counts
  the readers that have not returned. \<open>closed_down\<close>: after \<open>Stop\<close> every reader has returned and
  none is added.
\<close>

section \<open>The table of units and the readers\<close>

definition live_reader :: "manager \<Rightarrow> nat \<Rightarrow> bool" where
  "live_reader m r \<longleftrightarrow> r < length (readers m) \<and> \<not> rd_canceled (readers m ! r)"

definition running_readers :: "manager \<Rightarrow> nat" where
  "running_readers m = count_list (map rd_done (readers m)) False"

definition wf_mgr :: "manager \<Rightarrow> bool" where
  "wf_mgr m \<longleftrightarrow>
     wf_gomap (units m) \<and>
     (\<forall>u w. wake_of m u = Some w \<longrightarrow> w < length (wakes m)) \<and>
     (\<forall>u v w. wake_of m u = Some w \<longrightarrow> wake_of m v = Some w \<longrightarrow> u = v) \<and>
     (\<forall>u r. reader_of m u = Some r \<longleftrightarrow> live_reader m r \<and> rd_unit (readers m ! r) = u) \<and>
     journalWg m = running_readers m"

lemma unitLocked_upd [simp]:
  "unitLocked u (m\<lparr>units := AList.update v st (units m)\<rparr>) = (if u = v then Some st else unitLocked u m)"
  "unitLocked u (m\<lparr>units := AList.delete v (units m)\<rparr>) = (if u = v then None else unitLocked u m)"
  "unitLocked u (m\<lparr>units := []\<rparr>) = None"
  by (simp_all add: unitLocked_def)

lemma unitLocked_frame [simp]:
  "unitLocked u (m\<lparr>conn := c\<rparr>) = unitLocked u m"
  "unitLocked u (m\<lparr>wakes := ws\<rparr>) = unitLocked u m"
  "unitLocked u (m\<lparr>readers := rs\<rparr>) = unitLocked u m"
  "unitLocked u (m\<lparr>journalWg := n\<rparr>) = unitLocked u m"
  "unitLocked u (m\<lparr>wg := n\<rparr>) = unitLocked u m"
  "unitLocked u (m\<lparr>ctxDone := b\<rparr>) = unitLocked u m"
  "unitLocked u (m\<lparr>stopping := b\<rparr>) = unitLocked u m"
  by (simp_all add: unitLocked_def)

lemma wf_mgr_cong:
  assumes "wf_mgr m" "wf_gomap (units n)" "wake_of n = wake_of m" "reader_of n = reader_of m"
    "length (wakes n) = length (wakes m)" "readers n = readers m" "journalWg n = journalWg m"
  shows "wf_mgr n"
  using assms by (simp add: wf_mgr_def live_reader_def running_readers_def)

lemma wf_mgr_gomap: "wf_mgr m \<Longrightarrow> wf_gomap (units m)"
  by (simp add: wf_mgr_def)

lemma wf_mgr_reader_iff:
  "wf_mgr m \<Longrightarrow> reader_of m u = Some r \<longleftrightarrow> live_reader m r \<and> rd_unit (readers m ! r) = u"
  by (simp add: wf_mgr_def)

lemma wf_mgr_wg: "wf_mgr m \<Longrightarrow> journalWg m = running_readers m"
  by (simp add: wf_mgr_def)

text \<open>Updates the invariant does not look at.\<close>

lemma wf_mgr_frame [simp]:
  "wf_mgr (m\<lparr>conn := c\<rparr>) = wf_mgr m"
  "wf_mgr (m\<lparr>wg := n\<rparr>) = wf_mgr m"
  "wf_mgr (m\<lparr>ctxDone := b\<rparr>) = wf_mgr m"
  "wf_mgr (m\<lparr>stopping := b\<rparr>) = wf_mgr m"
  "wf_mgr (m\<lparr>wakes := (wakes m)[i := full]\<rparr>) = wf_mgr m"
  by (auto simp: wf_mgr_def wake_of_def reader_of_def live_reader_def running_readers_def)

lemma wf_mgr_touch:
  assumes "wf_mgr m" "unitLocked u m = Some st" "wake st' = wake st" "cancelJournal st' = cancelJournal st"
  shows "wf_mgr (m\<lparr>units := AList.update u st' (units m)\<rparr>)"
  using assms
  by (intro wf_mgr_cong [OF assms(1)]) (auto simp: wake_of_def reader_of_def wf_mgr_gomap)

section \<open>Cancelling a reader\<close>

lemma cancel_reader_simps [simp]:
  "units (cancel_reader r m) = units m"
  "conn (cancel_reader r m) = conn m" "stopping (cancel_reader r m) = stopping m"
  "ctxDone (cancel_reader r m) = ctxDone m" "wg (cancel_reader r m) = wg m"
  "wakes (cancel_reader r m) = wakes m"
  "journalWg (cancel_reader r m) = journalWg m"
  "unitLocked u (cancel_reader r m) = unitLocked u m"
  "wake_of (cancel_reader r m) u = wake_of m u"
  "reader_of (cancel_reader r m) u = reader_of m u"
  "running_readers (cancel_reader r m) = running_readers m"
  "length (readers (cancel_reader r m)) = length (readers m)"
  "rd_unit (readers (cancel_reader r m) ! q) = rd_unit (readers m ! q)"
  by (cases r; auto simp: cancel_reader_def unitLocked_def wake_of_def reader_of_def running_readers_def
      nth_upd map_upd_same)+

lemma live_cancel_reader [simp]:
  "live_reader (cancel_reader r m) q \<longleftrightarrow> live_reader m q \<and> r \<noteq> Some q"
  by (cases r) (auto simp: cancel_reader_def live_reader_def nth_upd)

text \<open>
  The general step: unit \<open>u\<close> gets the table entry \<open>e\<close> (none when it is unregistered), and its
  previous reader is cancelled.
\<close>

lemma wf_mgr_replace:
  assumes wf: "wf_mgr m"
    and us: "wf_gomap (units n)" "\<And>v. v \<noteq> u \<Longrightarrow> unitLocked v n = unitLocked v m"
    and rd: "reader_of n u = None" "readers n = readers m" "journalWg n = journalWg m"
    and wk: "length (wakes m) \<le> length (wakes n)"
      "\<And>w. wake_of n u = Some w \<Longrightarrow> length (wakes m) \<le> w \<and> w < length (wakes n)"
  shows "wf_mgr (cancel_reader (reader_of m u) n)"
proof -
  have other: "wake_of n v = wake_of m v" "reader_of n v = reader_of m v" if "v \<noteq> u" for v
    using us(2) [OF that] by (simp_all add: wake_of_def reader_of_def)
  have live: "live_reader n r \<longleftrightarrow> live_reader m r" for r
    using rd by (simp add: live_reader_def)
  have "reader_of n v = Some r \<longleftrightarrow>
      live_reader m r \<and> reader_of m u \<noteq> Some r \<and> rd_unit (readers m ! r) = v" for v r
    using wf_mgr_reader_iff [OF wf] rd(1) other(2) by (cases "v = u") auto
  moreover have "w < length (wakes n)" if "wake_of n v = Some w" for v w
    using wf wk that other(1) [of v] by (cases "v = u") (auto simp: wf_mgr_def intro: less_le_trans)
  moreover have "v = v'" if "wake_of n v = Some w" "wake_of n v' = Some w" for v v' w
    using wf wk(2) that other(1) by (metis linorder_not_less wf_mgr_def)
  moreover have "running_readers n = running_readers m"
    using rd(2) by (simp add: running_readers_def)
  ultimately show ?thesis
    using us(1) rd(3) wf_mgr_wg [OF wf] by (auto simp: wf_mgr_def live rd(2))
qed

section \<open>The operations keep the invariant\<close>

lemma wf_register_m: "wf_mgr m \<Longrightarrow> wf_mgr (register_m u m)"
  unfolding register_m_def
  by (rule wf_mgr_replace) (auto simp: wake_of_def reader_of_def new_unitState_def wf_mgr_gomap unitLocked_def)

lemma wf_unregister_m: "wf_mgr m \<Longrightarrow> wf_mgr (unregister_m u m)"
  unfolding unregister_m_def
  by (rule wf_mgr_replace) (auto simp: wake_of_def reader_of_def wf_mgr_gomap)

lemma wf_start_m:
  assumes wf: "wf_mgr m" and st: "unitLocked u m = Some st"
  shows "wf_mgr (start_m u logCh journal st m)"
proof -
  let ?rd = "\<lparr>rd_unit = u, rd_logCh = logCh, rd_journal = journal, rd_canceled = False, rd_done = False\<rparr>"
  let ?n = "m\<lparr>units := AList.update u (st\<lparr>cancelJournal := Some (length (readers m))\<rparr>) (units m),
     readers := readers m @ [?rd], journalWg := journalWg m + 1\<rparr>"
  have prev: "cancelJournal st = reader_of m u"
    using st by (simp add: reader_of_def)
  have rd: "reader_of ?n v = (if v = u then Some (length (readers m)) else reader_of m v)" for v
    by (simp add: reader_of_def)
  have wk: "wake_of ?n = wake_of m"
    using st by (auto simp: wake_of_def)
  have live: "live_reader ?n r \<longleftrightarrow> live_reader m r \<or> r = length (readers m)" for r
    by (auto simp: live_reader_def nth_append)
  have un: "rd_unit (readers ?n ! r) = (if r = length (readers m) then u else rd_unit (readers m ! r))"
    if "live_reader ?n r" for r
    using that live by (auto simp: live_reader_def nth_append)
  have old: "reader_of m v \<noteq> Some (length (readers m))" for v
    using wf_mgr_reader_iff [OF wf] by (auto simp: live_reader_def)
  have fresh: "\<not> live_reader m (length (readers m))"
    by (simp add: live_reader_def)
  have "reader_of ?n v = Some r \<longleftrightarrow>
      live_reader ?n r \<and> reader_of m u \<noteq> Some r \<and> rd_unit (readers ?n ! r) = v" for v r
    using wf_mgr_reader_iff [OF wf] old fresh rd [of v] live [of r] un [of r] by (auto split: if_splits)
  moreover have "running_readers ?n = Suc (running_readers m)"
    by (simp add: running_readers_def)
  ultimately show ?thesis
    unfolding start_m_def prev using wf wk by (auto simp: wf_mgr_def)
qed

section \<open>Readers returning\<close>

lemma finish_m_simps [simp]:
  "units (finish_m r m) = units m" "unitLocked u (finish_m r m) = unitLocked u m"
  "wakes (finish_m r m) = wakes m" "conn (finish_m r m) = conn m"
  "stopping (finish_m r m) = stopping m" "ctxDone (finish_m r m) = ctxDone m"
  "length (readers (finish_m r m)) = length (readers m)"
  "rd_canceled (readers (finish_m r m) ! q) = rd_canceled (readers m ! q)"
  "rd_unit (readers (finish_m r m) ! q) = rd_unit (readers m ! q)"
  by (simp_all add: finish_m_def unitLocked_def nth_upd)

lemma ended_finish_m [simp]: "reader_ended (finish_m r m) q = reader_ended m q"
  by (simp add: reader_ended_def)

lemma done_finish_m:
  "q < length (readers m) \<Longrightarrow>
   rd_done (readers (finish_m r m) ! q) \<longleftrightarrow> rd_done (readers m ! q) \<or> q = r \<and> reader_ended m q"
  by (auto simp: finish_m_def reader_running_def nth_upd)

lemma running_finish_m:
  assumes "journalWg m = running_readers m"
  shows "journalWg (finish_m r m) = running_readers (finish_m r m)"
proof (cases "reader_running m r \<and> reader_ended m r")
  case True
  then have r: "r < length (readers m)" "map rd_done (readers m) ! r = False"
    by (auto simp: reader_running_def)
  then have "count_list ((map rd_done (readers m))[r := True]) False =
      count_list (map rd_done (readers m)) False - 1"
    by (intro count_list_update) auto
  with True assms show ?thesis
    by (simp add: finish_m_def running_readers_def map_update)
qed (auto simp: finish_m_def assms)

lemma wf_finish_m: "wf_mgr m \<Longrightarrow> wf_mgr (finish_m r m)"
  using running_finish_m [of m r]
  by (simp add: wf_mgr_def wake_of_def reader_of_def live_reader_def)

lemma fold_finish_simps [simp]:
  "units (fold finish_m rs m) = units m" "conn (fold finish_m rs m) = conn m"
  "stopping (fold finish_m rs m) = stopping m" "ctxDone (fold finish_m rs m) = ctxDone m"
  "length (readers (fold finish_m rs m)) = length (readers m)"
  "reader_ended (fold finish_m rs m) q = reader_ended m q"
  by (induction rs arbitrary: m) simp_all

lemma fold_finish_done:
  "q < length (readers m) \<Longrightarrow>
   rd_done (readers (fold finish_m rs m) ! q) \<longleftrightarrow>
     rd_done (readers m ! q) \<or> q \<in> set rs \<and> reader_ended m q"
  by (induction rs arbitrary: m) (auto simp: done_finish_m)

lemma running_zero: "running_readers m = 0 \<longleftrightarrow> (\<forall>r < length (readers m). rd_done (readers m ! r))"
  by (auto simp: running_readers_def count_list_0_iff in_set_conv_nth) (meson nth_mem)

section \<open>Stop\<close>

lemma cancels_simps [simp]:
  "units (fold (\<lambda>r. cancel_reader (Some r)) rs m) = units m"
  "conn (fold (\<lambda>r. cancel_reader (Some r)) rs m) = conn m"
  "stopping (fold (\<lambda>r. cancel_reader (Some r)) rs m) = stopping m"
  "ctxDone (fold (\<lambda>r. cancel_reader (Some r)) rs m) = ctxDone m"
  "wg (fold (\<lambda>r. cancel_reader (Some r)) rs m) = wg m"
  "unitLocked u (fold (\<lambda>r. cancel_reader (Some r)) rs m) = unitLocked u m"
  "journalWg (fold (\<lambda>r. cancel_reader (Some r)) rs m) = journalWg m"
  "running_readers (fold (\<lambda>r. cancel_reader (Some r)) rs m) = running_readers m"
  "length (readers (fold (\<lambda>r. cancel_reader (Some r)) rs m)) = length (readers m)"
  "live_reader (fold (\<lambda>r. cancel_reader (Some r)) rs m) q \<longleftrightarrow> live_reader m q \<and> q \<notin> set rs"
  by (induction rs arbitrary: m) auto

lemma fold_cancel_wakes [simp]:
  "reader_of (fold (\<lambda>r. cancel_reader (Some r)) rs m) u = reader_of m u"
  by (simp add: reader_of_def)

lemma cancels_of_units:
  assumes "wf_mgr m"
  shows "r \<in> set (List.map_filter (\<lambda>(_, st). cancelJournal st) (units m)) \<longleftrightarrow> live_reader m r"
proof -
  have "r \<in> set (List.map_filter (\<lambda>(_, st). cancelJournal st) (units m)) \<longleftrightarrow>
      (\<exists>u st. map_of (units m) u = Some st \<and> cancelJournal st = Some r)"
    using wf_mgr_gomap [OF assms]
    by (force simp: List.map_filter_def wf_gomap_in_set [symmetric] image_iff)
  also have "\<dots> \<longleftrightarrow> (\<exists>u. reader_of m u = Some r)"
    by (auto simp: reader_of_def unitLocked_def bind_eq_Some_conv)
  also have "\<dots> \<longleftrightarrow> live_reader m r"
    using wf_mgr_reader_iff [OF assms] by auto
  finally show ?thesis .
qed

text \<open>After \<open>Stop\<close> nothing of the Manager runs any more.\<close>

definition quiet :: "manager \<Rightarrow> bool" where
  "quiet m \<longleftrightarrow> stopping m \<and> ctxDone m \<and> units m = [] \<and> wg m = 0 \<and> journalWg m = 0 \<and>
     (\<forall>r < length (readers m). rd_canceled (readers m ! r) \<and> rd_done (readers m ! r))"

lemma fold_finish_frame [simp]:
  "rd_canceled (readers (fold finish_m rs m) ! q) = rd_canceled (readers m ! q)"
  "wg (fold finish_m rs m) = wg m" "wakes (fold finish_m rs m) = wakes m"
  "unitLocked u (fold finish_m rs m) = unitLocked u m"
  "live_reader (fold finish_m rs m) q = live_reader m q"
  by (induction rs arbitrary: m) (simp_all add: finish_m_def live_reader_def unitLocked_def nth_upd)

lemma wf_fold_finish: "wf_mgr m \<Longrightarrow> wf_mgr (fold finish_m rs m)"
  by (induction rs arbitrary: m) (simp_all add: wf_finish_m)

definition cleared_m :: "manager \<Rightarrow> manager" where
  "cleared_m m = fold (\<lambda>r. cancel_reader (Some r))
     (List.map_filter (\<lambda>(_, st). cancelJournal st) (units m))
     (m\<lparr>ctxDone := True, wg := 0, stopping := True, units := []\<rparr>)"

lemma readers_frame [simp]:
  "running_readers (m\<lparr>ctxDone := b, wg := n, stopping := b', units := us\<rparr>) = running_readers m"
  "live_reader (m\<lparr>ctxDone := b, wg := n, stopping := b', units := us\<rparr>) r = live_reader m r"
  by (simp_all add: running_readers_def live_reader_def)

lemma cleared_m_simps [simp]:
  "units (cleared_m m) = []" "stopping (cleared_m m)" "ctxDone (cleared_m m)" "wg (cleared_m m) = 0"
  "unitLocked u (cleared_m m) = None" "conn (cleared_m m) = conn m"
  "reader_of (cleared_m m) u = None" "wake_of (cleared_m m) u = None"
  "journalWg (cleared_m m) = journalWg m" "running_readers (cleared_m m) = running_readers m"
  "length (readers (cleared_m m)) = length (readers m)"
  by (simp_all add: cleared_m_def unitLocked_def reader_of_def wake_of_def)

lemma cleared_live: "wf_mgr m \<Longrightarrow> \<not> live_reader (cleared_m m) r"
  using cancels_of_units [of m r] by (simp add: cleared_m_def)

lemma wf_cleared_m: "wf_mgr m \<Longrightarrow> wf_mgr (cleared_m m)"
  using cleared_live [of m] by (simp add: wf_mgr_def)

lemma stopped_m_eq: "stopped_m m = fold finish_m [0..<length (readers m)] (cleared_m m)"
  by (simp add: stopped_m_def cleared_m_def Let_def)

lemma wf_stopped_m: "wf_mgr m \<Longrightarrow> wf_mgr (stopped_m m)"
  by (simp add: stopped_m_eq wf_fold_finish wf_cleared_m)

lemma quiet_stopped_m:
  assumes "wf_mgr m"
  shows "quiet (stopped_m m)"
proof -
  have "rd_canceled (readers (cleared_m m) ! r)" if "r < length (readers m)" for r
    using cleared_live [OF assms, of r] that by (simp add: live_reader_def)
  moreover have "rd_done (readers (stopped_m m) ! r)" if "r < length (readers m)" for r
    using that by (simp add: stopped_m_eq fold_finish_done reader_ended_def)
  moreover have "journalWg (stopped_m m) = 0"
    using calculation(2) wf_mgr_wg [OF wf_stopped_m [OF assms]]
    by (simp add: running_zero stopped_m_eq)
  ultimately show ?thesis
    by (simp add: quiet_def stopped_m_eq)
qed


interpretation wf: manager_invariant wf_mgr
proof unfold_locales
  show "wf_mgr (m\<lparr>units := AList.update u st' (units m)\<rparr>)"
    if "wf_mgr m" "unitLocked u m = Some st" "wake st' = wake st" "cancelJournal st' = cancelJournal st"
    for m u st st'
    using that by (rule wf_mgr_touch)
qed (simp_all add: wf_register_m wf_unregister_m wf_start_m wf_finish_m wf_stopped_m)

section \<open>A Manager that has been stopped\<close>

definition closed_down :: "nat \<Rightarrow> manager \<Rightarrow> bool" where
  "closed_down n m \<longleftrightarrow> stopping m \<and> ctxDone m \<and> length (readers m) = n \<and>
     (\<forall>r < n. rd_canceled (readers m ! r) \<and> rd_done (readers m ! r)) \<and> journalWg m = 0"

lemma closed_down_cancel [simp]: "closed_down n m \<Longrightarrow> closed_down n (cancel_reader r m)"
  by (cases r) (auto simp: closed_down_def cancel_reader_def nth_upd)

lemma closed_down_finish: "closed_down n m \<Longrightarrow> closed_down n (finish_m r m)"
  by (auto simp: finish_m_def closed_down_def reader_running_def)

lemma closed_down_fold:
  "closed_down n m \<Longrightarrow> closed_down n (fold (\<lambda>r. cancel_reader (Some r)) rs m)"
  "closed_down n m \<Longrightarrow> closed_down n (fold finish_m rs m)"
  by (induction rs arbitrary: m) (simp_all add: closed_down_finish)

lemma closed_down_frame:
  assumes "closed_down n m" "stopping m' = stopping m" "ctxDone m' = ctxDone m"
    "readers m' = readers m" "journalWg m' = journalWg m"
  shows "closed_down n m'"
  using assms by (simp add: closed_down_def)

interpretation down: manager_invariant "closed_down n" for n
proof unfold_locales
  fix m
  assume m: "closed_down n m"
  show "closed_down n (register_m u m)" "closed_down n (unregister_m u m)" for u
    unfolding register_m_def unregister_m_def
    by (intro closed_down_cancel closed_down_frame [OF m]; simp)+
  show "closed_down n (stopped_m m)"
    unfolding stopped_m_eq cleared_m_def
    by (intro closed_down_fold closed_down_frame [OF m]) (use m in \<open>simp_all add: closed_down_def\<close>)
qed (erule closed_down_finish | simp add: closed_down_def)+

lemma quiet_closed_down: "quiet m \<Longrightarrow> closed_down (length (readers m)) m"
  by (simp add: quiet_def closed_down_def)

section \<open>Reachable Managers\<close>

definition fresh_mgr :: "manager \<Rightarrow> bool" where
  "fresh_mgr m \<longleftrightarrow> units m = [] \<and> wakes m = [] \<and> readers m = [] \<and> journalWg m = 0"

lemma NewManager_fresh: "result (NewManager env ctx cpus) s = Inr m \<Longrightarrow> fresh_mgr m"
  by (auto simp: NewManager_def fresh_mgr_def split: sum.splits prod.splits)

lemma wf_fresh: "fresh_mgr m \<Longrightarrow> wf_mgr m"
  by (simp add: fresh_mgr_def wf_mgr_def wake_of_def reader_of_def unitLocked_def live_reader_def
      running_readers_def)

definition mgr_reachable :: "env \<Rightarrow> mstate \<Rightarrow> bool" where
  "mgr_reachable env t \<longleftrightarrow>
     (\<exists>(s0 :: world) ctx cpus m. result (NewManager env ctx cpus) s0 = Inr m \<and>
        mgr_steps env \<lparr>hist = hist (exec (NewManager env ctx cpus) s0), mgr = m\<rparr> t)"

lemma reachable_wf: "mgr_reachable env s \<Longrightarrow> wf_mgr (mgr s)"
  by (auto simp: mgr_reachable_def dest!: NewManager_fresh wf_fresh intro: wf.steps_keep)

section \<open>What stays of a registration\<close>

text \<open>Wake channels change hands only when a unit is registered or unregistered.\<close>

lemma wake_of_cong: "unitLocked u m = unitLocked u n \<Longrightarrow> wake_of m u = wake_of n u"
  by (simp add: wake_of_def)

lemma wake_of_touch:
  assumes "unitLocked u m = Some st" "wake st' = wake st"
  shows "wake_of (m\<lparr>units := AList.update u st' (units m)\<rparr>) = wake_of m"
  using assms by (auto simp: wake_of_def)

interpretation wakes: manager_frame "\<lambda>m. wake_of m = W" for W
proof unfold_locales
  fix m u st logCh journal
  assume "wake_of m = W" "unitLocked u m = Some st"
  then have "wake_of (start_m u logCh journal st m) v = W v" for v
    by (cases "v = u") (auto simp: start_m_def wake_of_def unitLocked_def)
  then show "wake_of (start_m u logCh journal st m) = W"
    by (simp add: fun_eq_iff)
next
  show "wake_of (m\<lparr>units := AList.update u st' (units m)\<rparr>) = W"
    if "wake_of m = W" "unitLocked u m = Some st" "wake st' = wake st" for m u st st'
    using that by (simp add: wake_of_touch)
qed (auto simp: wake_of_def fun_eq_iff)

text \<open>Only reconnecting changes the connection.\<close>

interpretation connected: manager_updates "\<lambda>m. conn m = C" for C
  by unfold_locales (simp_all add: start_m_def finish_m_def cancel_reader_def split: option.split)

lemma RegisterUnit_conn: "keeps (\<lambda>m. conn m = C) (RegisterUnit env ctx u)"
  by (rule keepsI) (simp add: run_RegisterUnit keepsD [OF connected.cache_keeps] register_m_def cancel_reader_def
      split: option.split)

end
