(* ===== verification/Handler.thy ===== *)
theory Handler
  imports Cgroup
begin

text \<open>
  \<open>task.Handler\<close> (\<open>pkg/task/task.go\<close> and \<open>pkg/task/state.go\<close>): the record of one task, the state
  machine that follows its unit, and the operations the driver calls. A handler reaches systemd
  through the Go interface \<open>unitController\<close>, which is a record of operations on a state \<open>'u\<close>
  here; the locale \<open>unit_controller\<close> (theory HandlerProps) is what a handler may assume of it, and its lemmas hold for
  every implementation. The theory DriverFrame interprets it on the Manager.
\<close>

section \<open>Nomad's data\<close>

text \<open>\<open>drivers.TaskConfig\<close> and \<open>drivers.TaskHandle\<close>, as far as the driver reads them.\<close>

record TaskConfig =
  ID :: string
  AllocID :: string
  Name :: string
  rawDriverConfig :: string
  StdoutPath :: string
  StderrPath :: string

record TaskHandle =
  Version :: nat
  Config :: TaskConfig
  DriverState :: string

record task_status =
  ts_ID :: string
  ts_Name :: string
  ts_State :: TaskState
  ts_StartedAt :: "time option"
  ts_CompletedAt :: "time option"
  ts_ExitResult :: "ExitResult option"
  ts_DriverAttributes :: "(string \<times> string) list"

section \<open>The interface to systemd\<close>

record 'u unitController =
  c_StopUnit :: "ctx \<Rightarrow> string \<Rightarrow> ('u, error option) state"
  c_KillUnit :: "ctx \<Rightarrow> string \<Rightarrow> ('u, error option) state"
  c_UnitState :: "ctx \<Rightarrow> string \<Rightarrow> ('u, error + UnitState) state"
  c_UnitExitStatus :: "ctx \<Rightarrow> string \<Rightarrow> ('u, error + ExitStatus) state"
  c_ResourceStats :: "ctx \<Rightarrow> string \<Rightarrow> ('u, error + resource_stats) state"
  c_StreamLogs :: "string \<Rightarrow> nat \<Rightarrow> ('u, error option) state"
  c_Now :: "('u, time) state"

section \<open>State\<close>

text \<open>
  \<open>th_units\<close> names the Manager behind the interface, \<open>th_id\<close> the handler's own context and log
  channel. \<open>th_closes\<close> counts the executions of \<open>close(th.waitCh)\<close>: the channel is closed when
  it is positive, and a second one would panic. \<open>th_wg\<close> counts the handler's goroutines.
\<close>

record handler =
  th_id :: nat
  th_taskID :: string
  th_Unit :: string
  th_units :: nat
  th_wakeCh :: "nat option"
  th_handle :: TaskHandle
  th_state :: TaskState
  th_startedAt :: "time option"
  th_completedAt :: "time option"
  th_exitResult :: "ExitResult option"
  th_exitOnce :: bool
  th_closes :: nat
  th_canceled :: bool
  th_wg :: nat

record 'u hstate =
  hnd :: handler
  ctrl :: 'u

definition upd_hnd :: "(handler \<Rightarrow> handler) \<Rightarrow> ('u hstate, unit) state" where
  "upd_hnd f = modify (\<lambda>s. s\<lparr>hnd := f (hnd s)\<rparr>)"

lemma run_upd_hnd [simp, run_simps]: "run_state (upd_hnd f) s = ((), s\<lparr>hnd := f (hnd s)\<rparr>)"
  by (simp add: upd_hnd_def)

text \<open>An operation of the interface, called by a handler.\<close>

definition via :: "('u, 'a) state \<Rightarrow> ('u hstate, 'a) state" where
  "via m = zoom ctrl (\<lambda>u s. s\<lparr>ctrl := u\<rparr>) m"

lemma run_via [simp, run_simps]:
  "run_state (via m) s = (result m (ctrl s), s\<lparr>ctrl := exec m (ctrl s)\<rparr>)"
  by (simp add: via_def)

section \<open>Construction, accessors\<close>

text \<open>\<open>exitOnce.Do(func() { close(th.waitCh) })\<close>.\<close>

definition close_wait :: "handler \<Rightarrow> handler" where
  "close_wait h = (if th_exitOnce h then h else h\<lparr>th_exitOnce := True, th_closes := th_closes h + 1\<rparr>)"

definition NewHandler ::
    "'u unitController \<Rightarrow> nat \<Rightarrow> string \<Rightarrow> string \<Rightarrow> TaskHandle \<Rightarrow> nat \<Rightarrow> nat option \<Rightarrow> TaskState \<Rightarrow>
     ('u, handler) state" where
  "NewHandler uc hid taskID unit handle mid wakeCh initialState = do {
     t \<leftarrow> c_Now uc;
     let h = \<lparr>th_id = hid, th_taskID = taskID, th_Unit = unit, th_units = mid, th_wakeCh = wakeCh,
              th_handle = handle, th_state = initialState, th_startedAt = Some t,
              th_completedAt = None, th_exitResult = None, th_exitOnce = False, th_closes = 0,
              th_canceled = False, th_wg = 0\<rparr>;
     ret (if initialState = TaskStateExited then close_wait h else h)
   }"

definition SetExitResult :: "ExitResult \<Rightarrow> time \<Rightarrow> handler \<Rightarrow> handler" where
  "SetExitResult r t h = h\<lparr>th_exitResult := Some r, th_completedAt := Some t\<rparr>"

definition SetStartedAt :: "time \<Rightarrow> handler \<Rightarrow> handler" where
  "SetStartedAt t h = h\<lparr>th_startedAt := Some t\<rparr>"

definition TaskStatus :: "handler \<Rightarrow> task_status" where
  "TaskStatus h =
     \<lparr>ts_ID = th_taskID h, ts_Name = th_Unit h, ts_State = th_state h,
      ts_StartedAt = th_startedAt h, ts_CompletedAt = th_completedAt h,
      ts_ExitResult = th_exitResult h, ts_DriverAttributes = [(''unit'', th_Unit h)]\<rparr>"

definition IsRunning :: "handler \<Rightarrow> bool" where
  "IsRunning h \<longleftrightarrow> th_state h = TaskStateRunning"

definition HasExited :: "handler \<Rightarrow> bool" where
  "HasExited h \<longleftrightarrow> th_state h = TaskStateExited"

text \<open>Whether a receive from \<open>WaitCh()\<close> returns.\<close>

definition waitCh_closed :: "handler \<Rightarrow> bool" where
  "waitCh_closed h \<longleftrightarrow> 0 < th_closes h"

section \<open>Unit operations\<close>

definition Handler_StopUnit :: "'u unitController \<Rightarrow> ('u hstate, error option) state" where
  "Handler_StopUnit uc = do {
     h \<leftarrow> gets hnd;
     via (c_StopUnit uc (HandlerCtx (th_id h)) (th_Unit h))
   }"

definition Handler_KillUnit :: "'u unitController \<Rightarrow> ('u hstate, error option) state" where
  "Handler_KillUnit uc = do {
     h \<leftarrow> gets hnd;
     via (c_KillUnit uc (HandlerCtx (th_id h)) (th_Unit h))
   }"

definition Handler_UnitState :: "'u unitController \<Rightarrow> ('u hstate, error + UnitState) state" where
  "Handler_UnitState uc = do {
     h \<leftarrow> gets hnd;
     via (c_UnitState uc (HandlerCtx (th_id h)) (th_Unit h))
   }"

definition Handler_ResourceStats :: "'u unitController \<Rightarrow> ctx \<Rightarrow> ('u hstate, error + resource_stats) state" where
  "Handler_ResourceStats uc ctx = do {
     h \<leftarrow> gets hnd;
     via (c_ResourceStats uc ctx (th_Unit h))
   }"

section \<open>The task state machine\<close>

definition buildExitResult :: "'u unitController \<Rightarrow> UnitState \<Rightarrow> ('u hstate, ExitResult) state" where
  "buildExitResult uc activeState = do {
     h \<leftarrow> gets hnd;
     st \<leftarrow> via (c_UnitExitStatus uc (HandlerCtx (th_id h)) (th_Unit h));
     ret (case (case st of Inr status \<Rightarrow> ExitResultFromStatus status | Inl _ \<Rightarrow> None) of
         Some res \<Rightarrow> res
       | None \<Rightarrow>
           (if IsFailed activeState
            then \<lparr>ExitCode = 1, Signal = 0, Err = Some (NewError ''systemd unit failed'')\<rparr>
            else \<lparr>ExitCode = 0, Signal = 0, Err = None\<rparr>))
   }"

text \<open>
  \<open>handleStateChange\<close> holds the lock twice. The first critical section decides: it returns false
  when nothing is left to do, true when the exit has to be resolved and published. The second one
  publishes, unless another call has published in between.
\<close>

definition begin_change :: "UnitState \<Rightarrow> handler \<Rightarrow> bool \<times> handler" where
  "begin_change activeState h =
     (let cst = ToTaskState activeState in
      if th_state h = TaskStateExited then (False, h)
      else if cst \<noteq> TaskStateExited
      then (False, if th_state h \<noteq> cst then h\<lparr>th_state := cst\<rparr> else h)
      else (True, h))"

definition publish_exit :: "ExitResult \<Rightarrow> time \<Rightarrow> handler \<Rightarrow> handler" where
  "publish_exit exitResult t h =
     (if th_state h = TaskStateExited then h
      else close_wait (h\<lparr>th_state := TaskStateExited, th_completedAt := Some t,
                         th_exitResult := Some exitResult\<rparr>))"

definition handleStateChange :: "'u unitController \<Rightarrow> UnitState \<Rightarrow> ('u hstate, unit) state" where
  "handleStateChange uc activeState = do {
     resolve \<leftarrow> gets (\<lambda>s. fst (begin_change activeState (hnd s)));
     upd_hnd (\<lambda>h. snd (begin_change activeState h));
     if resolve then do {
       exitResult \<leftarrow> buildExitResult uc activeState;
       exited \<leftarrow> gets (\<lambda>s. HasExited (hnd s));
       if exited then ret ()
       else do {
         t \<leftarrow> via (c_Now uc);
         upd_hnd (publish_exit exitResult t)
       }
     } else ret ()
   }"

definition checkTaskState :: "'u unitController \<Rightarrow> ('u hstate, bool) state" where
  "checkTaskState uc = do {
     exited \<leftarrow> gets (\<lambda>s. HasExited (hnd s));
     if exited then ret True
     else do {
       r \<leftarrow> Handler_UnitState uc;
       case r of
         Inl _ \<Rightarrow> ret False
       | Inr state \<Rightarrow> do {
           handleStateChange uc state;
           gets (\<lambda>s. HasExited (hnd s))
         }
     }
   }"

text \<open>
  The loop of \<open>pollTaskState\<close> over what its \<open>select\<close> receives. The result is whether the
  goroutine has returned.
\<close>

fun pollLoop :: "'u unitController \<Rightarrow> poll_event list \<Rightarrow> ('u hstate, bool) state" where
  "pollLoop uc [] = ret False"
| "pollLoop uc (PollCtxDone # evs) = ret True"
| "pollLoop uc (PollWake # evs) = do {
     exited \<leftarrow> checkTaskState uc;
     if exited then ret True else pollLoop uc evs
   }"
| "pollLoop uc (PollTick # evs) = do {
     exited \<leftarrow> checkTaskState uc;
     if exited then ret True else pollLoop uc evs
   }"

definition pollTaskState :: "'u unitController \<Rightarrow> poll_event list \<Rightarrow> ('u hstate, bool) state" where
  "pollTaskState uc evs = do {
     exited \<leftarrow> checkTaskState uc;
     if exited then ret True else pollLoop uc evs
   }"

section \<open>Start and Stop\<close>

text \<open>
  \<open>Start\<close> starts journal streaming inline (its error is only logged) and launches two goroutines,
  \<open>streamLogs\<close> and \<open>pollTaskState\<close>; \<open>Stop\<close> cancels the handler's context and waits for them.
\<close>

definition Handler_Start :: "'u unitController \<Rightarrow> ('u hstate, unit) state" where
  "Handler_Start uc = do {
     h \<leftarrow> gets hnd;
     via (c_StreamLogs uc (th_Unit h) (th_id h));
     upd_hnd (\<lambda>h. h\<lparr>th_wg := th_wg h + 2\<rparr>)
   }"

definition Handler_Stop :: "handler \<Rightarrow> handler" where
  "Handler_Stop h = h\<lparr>th_canceled := True, th_wg := 0\<rparr>"

end
