(* ===== verification/Regex.thy ===== *)
theory Regex
  imports World
begin

text \<open>
  Go's \<open>regexp\<close> as far as \<open>plugin/config.go\<close> uses it: a pattern anchored at both ends, built
  from byte classes, concatenation, alternation and repetition. \<open>in_lang\<close> says which strings a
  pattern denotes; \<open>full_match\<close> decides it by derivatives; they agree.
\<close>

text \<open>A class is a list of byte ranges.\<close>

datatype re =
    REmpty
  | REps
  | RClass "(nat \<times> nat) list"
  | RSeq re re
  | RAlt re re
  | RStar re

definition in_class :: "(nat \<times> nat) list \<Rightarrow> char \<Rightarrow> bool" where
  "in_class cls c = list_ex (\<lambda>(lo, hi). lo \<le> of_char c \<and> of_char c \<le> hi) cls"

inductive in_lang :: "re \<Rightarrow> string \<Rightarrow> bool" where
  eps: "in_lang REps []"
| cls: "in_class cl c \<Longrightarrow> in_lang (RClass cl) [c]"
| seq: "in_lang r s \<Longrightarrow> in_lang q t \<Longrightarrow> in_lang (RSeq r q) (s @ t)"
| alt1: "in_lang r s \<Longrightarrow> in_lang (RAlt r q) s"
| alt2: "in_lang q s \<Longrightarrow> in_lang (RAlt r q) s"
| star0: "in_lang (RStar r) []"
| star1: "in_lang r s \<Longrightarrow> in_lang (RStar r) t \<Longrightarrow> in_lang (RStar r) (s @ t)"

inductive_simps in_lang_empty [simp]: "in_lang REmpty s"
inductive_simps in_lang_eps [simp]: "in_lang REps s"
inductive_simps in_lang_cls: "in_lang (RClass cl) s"
inductive_simps in_lang_seq: "in_lang (RSeq r q) s"
inductive_simps in_lang_alt: "in_lang (RAlt r q) s"
inductive_cases in_lang_starE: "in_lang (RStar r) s"

section \<open>The matcher\<close>

fun nullable :: "re \<Rightarrow> bool" where
  "nullable REmpty = False"
| "nullable REps = True"
| "nullable (RClass _) = False"
| "nullable (RSeq r q) = (nullable r \<and> nullable q)"
| "nullable (RAlt r q) = (nullable r \<or> nullable q)"
| "nullable (RStar _) = True"

fun deriv :: "char \<Rightarrow> re \<Rightarrow> re" where
  "deriv c REmpty = REmpty"
| "deriv c REps = REmpty"
| "deriv c (RClass cl) = (if in_class cl c then REps else REmpty)"
| "deriv c (RSeq r q) =
     (if nullable r then RAlt (RSeq (deriv c r) q) (deriv c q) else RSeq (deriv c r) q)"
| "deriv c (RAlt r q) = RAlt (deriv c r) (deriv c q)"
| "deriv c (RStar r) = RSeq (deriv c r) (RStar r)"

fun full_match :: "re \<Rightarrow> string \<Rightarrow> bool" where
  "full_match r [] = nullable r"
| "full_match r (c # cs) = full_match (deriv c r) cs"

lemma nullable_iff: "nullable r \<longleftrightarrow> in_lang r []"
  by (induction r)
     (auto simp: in_lang_cls in_lang_seq in_lang_alt intro: in_lang.star0)

lemma star_cons:
  "in_lang (RStar r) s \<Longrightarrow> s = c # cs \<Longrightarrow>
   \<exists>u v. cs = u @ v \<and> in_lang r (c # u) \<and> in_lang (RStar r) v"
proof (induction "RStar r" s arbitrary: cs rule: in_lang.induct)
  case (star1 s t)
  show ?case
  proof (cases s)
    case Nil
    with star1 show ?thesis by simp
  next
    case (Cons d u)
    with star1 show ?thesis by auto
  qed
qed simp

lemma star_cons_iff:
  "in_lang (RStar r) (c # cs) \<longleftrightarrow> (\<exists>u v. cs = u @ v \<and> in_lang r (c # u) \<and> in_lang (RStar r) v)"
proof
  assume "in_lang (RStar r) (c # cs)"
  then show "\<exists>u v. cs = u @ v \<and> in_lang r (c # u) \<and> in_lang (RStar r) v"
    by (rule star_cons) simp
next
  assume "\<exists>u v. cs = u @ v \<and> in_lang r (c # u) \<and> in_lang (RStar r) v"
  then obtain u v where "cs = u @ v" "in_lang r (c # u)" "in_lang (RStar r) v" by blast
  then show "in_lang (RStar r) (c # cs)"
    using in_lang.star1 [of r "c # u" v] by simp
qed

lemma seq_cons_iff:
  "in_lang (RSeq r q) (c # cs) \<longleftrightarrow>
     (\<exists>u v. cs = u @ v \<and> in_lang r (c # u) \<and> in_lang q v) \<or> in_lang r [] \<and> in_lang q (c # cs)"
  by (auto simp: in_lang_seq Cons_eq_append_conv)

lemma deriv_iff: "in_lang (deriv c r) s \<longleftrightarrow> in_lang r (c # s)"
proof (induction r arbitrary: s)
  case (RSeq r q)
  then show ?case
    by (auto simp: seq_cons_iff nullable_iff in_lang_alt in_lang_seq [of "deriv c r"])
next
  case (RStar r)
  then show ?case
    by (auto simp: star_cons_iff in_lang_seq [of "deriv c r"])
qed (auto simp: in_lang_cls in_lang_alt)

lemma full_match_iff: "full_match r s \<longleftrightarrow> in_lang r s"
  by (induction s arbitrary: r) (simp_all add: nullable_iff deriv_iff)

section \<open>Derived forms\<close>

definition RPlus :: "re \<Rightarrow> re" where
  "RPlus r = RSeq r (RStar r)"

fun RLit :: "string \<Rightarrow> re" where
  "RLit [] = REps"
| "RLit (c # cs) = RSeq (RClass [(of_char c, of_char c)]) (RLit cs)"

fun RAlts :: "re list \<Rightarrow> re" where
  "RAlts [] = REmpty"
| "RAlts (r # rs) = RAlt r (RAlts rs)"

lemma in_class_single [simp]: "in_class [(of_char c, of_char c)] d \<longleftrightarrow> d = c"
  by (auto simp: in_class_def)

lemma in_lang_lit: "in_lang (RLit w) s \<longleftrightarrow> s = w"
  by (induction w arbitrary: s) (auto simp: in_lang_seq in_lang_cls)

lemma in_lang_alts: "in_lang (RAlts rs) s \<longleftrightarrow> (\<exists>r \<in> set rs. in_lang r s)"
  by (induction rs) (auto simp: in_lang_alt)

lemma star_class: "in_lang (RStar (RClass cl)) s \<longleftrightarrow> list_all (in_class cl) s"
proof (induction s)
  case Nil
  then show ?case by (simp add: in_lang.star0)
next
  case (Cons c s)
  then show ?case by (auto simp: star_cons_iff in_lang_cls)
qed

lemma plus_class:
  "in_lang (RPlus (RClass cl)) s \<longleftrightarrow> s \<noteq> [] \<and> list_all (in_class cl) s"
proof (cases s)
  case Nil
  then show ?thesis by (simp add: RPlus_def in_lang_seq in_lang_cls)
next
  case (Cons c cs)
  then show ?thesis by (auto simp: RPlus_def seq_cons_iff in_lang_cls star_class)
qed

lemma in_lang_lit_seq: "in_lang (RSeq (RLit w) q) s \<longleftrightarrow> (\<exists>t. s = w @ t \<and> in_lang q t)"
  by (simp only: in_lang_seq in_lang_lit) auto

end
