(* ===== verification/UnitConfig.thy ===== *)
theory UnitConfig
  imports Regex
begin

text \<open>
  \<open>plugin/config.go\<close>: the driver's and a task's configuration, and the validation of a task's unit
  name.
\<close>

section \<open>Configuration records\<close>

record DriverConfig =
  AllowedUnits :: "string list"
  DeniedUnits :: "string list"
  PprofAddr :: string

text \<open>The plugin's \<open>TaskConfig\<close> (Nomad has a type of the same name).\<close>

record UnitTaskConfig =
  Unit :: string

section \<open>Unit names\<close>

text \<open>\<open>[a-zA-Z0-9:_.\\@-]\<close> and the unit types.\<close>

definition unit_name_class :: "(nat \<times> nat) list" where
  "unit_name_class =
     [(97, 122), (65, 90), (48, 57), (58, 58), (95, 95), (46, 46), (92, 92), (64, 64), (45, 45)]"

definition unit_types :: "string list" where
  "unit_types =
     [''service'', ''socket'', ''timer'', ''mount'', ''automount'', ''swap'', ''target'', ''path'',
      ''slice'', ''scope'', ''device'']"

definition unitNamePattern :: re where
  "unitNamePattern =
     RSeq (RPlus (RClass unit_name_class)) (RSeq (RLit ''.'') (RAlts (map RLit unit_types)))"

text \<open>The first problem found, or \<open>None\<close>. A Go string's length counts bytes.\<close>

definition Validate :: "UnitTaskConfig \<Rightarrow> error option" where
  "Validate tc =
     (if Unit tc = '''' then Some (NewError ''unit name is required'')
      else if length (Unit tc) > 255
      then Some (Errorf ''unit name %q exceeds 255 characters'' [AStr (Unit tc)])
      else if \<not> full_match unitNamePattern (Unit tc)
      then Some (Errorf ''unit name %q is not a valid systemd unit name (expected a name ending in .service, .socket, .timer, .mount, .automount, .swap, .target, .path, .slice, .scope, or .device)''
                   [AStr (Unit tc)])
      else None)"

text \<open>What a valid unit name is, without the pattern.\<close>

definition valid_unit_name :: "string \<Rightarrow> bool" where
  "valid_unit_name u \<longleftrightarrow>
     length u \<le> 255 \<and>
     (\<exists>name suffix. u = name @ ''.'' @ suffix \<and> name \<noteq> [] \<and> list_all (in_class unit_name_class) name
        \<and> suffix \<in> set unit_types)"

lemma unitNamePattern_iff:
  "full_match unitNamePattern u \<longleftrightarrow>
     (\<exists>name suffix. u = name @ ''.'' @ suffix \<and> name \<noteq> [] \<and> list_all (in_class unit_name_class) name
        \<and> suffix \<in> set unit_types)"
proof -
  have types: "in_lang (RAlts (map RLit unit_types)) t \<longleftrightarrow> t \<in> set unit_types" for t
    by (auto simp: in_lang_alts in_lang_lit)
  show ?thesis
    unfolding full_match_iff unitNamePattern_def in_lang_seq [of "RPlus _"] plus_class
      in_lang_lit_seq types
    by blast
qed

end
