(* ===== verification/Store.thy ===== *)
theory Store
  imports Prelude
begin

text \<open>
  \<open>task.Store\<close> (\<open>pkg/task/store.go\<close>): task IDs to handlers, a handler being a reference (a
  number). The locale \<open>handler_store\<close> is the contract the driver relies on, with the lemmas it
  needs; it is interpreted on the code's operations.
\<close>

type_synonym store = "(string, nat) gomap"

definition NewStore :: store where
  "NewStore = []"

definition Store_Set :: "string \<Rightarrow> nat \<Rightarrow> store \<Rightarrow> store" where
  "Store_Set i handler st = AList.update i handler st"

definition Store_Get :: "string \<Rightarrow> store \<Rightarrow> nat option" where
  "Store_Get i st = map_of st i"

definition Store_Delete :: "string \<Rightarrow> store \<Rightarrow> store" where
  "Store_Delete i st = AList.delete i st"

text \<open>The first part of \<open>Stop\<close>, under the lock: the handlers held, and an empty store.\<close>

definition Store_Drain :: "store \<Rightarrow> nat list \<times> store" where
  "Store_Drain st = (map snd st, [])"

section \<open>The contract\<close>

locale handler_store =
  fixes none :: 's
    and put :: "'i \<Rightarrow> 'h \<Rightarrow> 's \<Rightarrow> 's"
    and get :: "'i \<Rightarrow> 's \<Rightarrow> 'h option"
    and del :: "'i \<Rightarrow> 's \<Rightarrow> 's"
    and drain :: "'s \<Rightarrow> 'h list \<times> 's"
    and ok :: "'s \<Rightarrow> bool"
  assumes get_none: "get i none = None"
    and get_put: "get j (put i h s) = (if j = i then Some h else get j s)"
    and get_del: "get j (del i s) = (if j = i then None else get j s)"
    and drain_none: "snd (drain s) = none"
    and drain_all: "ok s \<Longrightarrow> h \<in> set (fst (drain s)) \<longleftrightarrow> (\<exists>i. get i s = Some h)"
    and ok_none: "ok none"
    and ok_put: "ok s \<Longrightarrow> ok (put i h s)"
    and ok_del: "ok s \<Longrightarrow> ok (del i s)"
begin

lemma drained_get: "get i (snd (drain s)) = None"
  by (simp add: drain_none get_none)

lemma drain_twice: "fst (drain (snd (drain s))) = []"
proof -
  have "h \<notin> set (fst (drain none))" for h
    using drain_all [OF ok_none] by (simp add: get_none)
  then show ?thesis
    by (metis drain_none last_in_set)
qed

text \<open>
  What is kept for every entry: a property of the stored handlers survives a store of a handler
  that has it, and every deletion.
\<close>

lemma put_all: "(\<And>j h. get j s = Some h \<Longrightarrow> P j h) \<Longrightarrow> P i g \<Longrightarrow> get j (put i g s) = Some h \<Longrightarrow> P j h"
  by (auto simp: get_put split: if_splits)

lemma del_all: "(\<And>j h. get j s = Some h \<Longrightarrow> P j h) \<Longrightarrow> get j (del i s) = Some h \<Longrightarrow> P j h"
  by (auto simp: get_del split: if_splits)

lemma put_del_fresh: "get i s = None \<Longrightarrow> get j (del i (put i h s)) = get j s"
  by (simp add: get_del get_put)

end

interpretation ts: handler_store NewStore Store_Set Store_Get Store_Delete Store_Drain wf_gomap
proof unfold_locales
  fix s :: store and h
  assume "wf_gomap s"
  then show "h \<in> set (fst (Store_Drain s)) \<longleftrightarrow> (\<exists>i. Store_Get i s = Some h)"
    by (force simp: Store_Drain_def Store_Get_def wf_gomap_def dest: map_of_SomeD
        intro: map_of_is_SomeI)
qed (auto simp: NewStore_def Store_Set_def Store_Get_def Store_Delete_def Store_Drain_def)

end
