(* ===== verification/Ownership.thy ===== *)
theory Ownership
  imports World
begin

text \<open>
  \<open>plugin/unit.go\<close>: the policy that decides which units tasks may manage, and the table that says
  which task manages a unit. The locale \<open>unit_ownership\<close> is the contract of the table.
\<close>

section \<open>Unit policy\<close>

record unitPolicy =
  allowed :: "regexp list"
  denied :: "regexp list"

fun regexp_String :: "regexp \<Rightarrow> string" where
  "regexp_String (Regexp src) = src"

text \<open>One of the two loops; \<open>name\<close> is the list the error names.\<close>

fun compile_patterns :: "env \<Rightarrow> string \<Rightarrow> string list \<Rightarrow> error + regexp list" where
  "compile_patterns env name [] = Inr []"
| "compile_patterns env name (pattern # ps) =
     (case e_regexp_compile env pattern of
        Inl err \<Rightarrow> Inl (Wrapf (''compile '' @ name @ '' pattern %q: %w'') [AStr pattern] err)
      | Inr re \<Rightarrow>
          (case compile_patterns env name ps of
             Inl err \<Rightarrow> Inl err
           | Inr res \<Rightarrow> Inr (re # res)))"

definition compileUnitPolicy :: "env \<Rightarrow> string list \<Rightarrow> string list \<Rightarrow> error + unitPolicy" where
  "compileUnitPolicy env allow deny =
     (case compile_patterns env ''allowed_units'' allow of
        Inl err \<Rightarrow> Inl err
      | Inr as \<Rightarrow>
          (case compile_patterns env ''denied_units'' deny of
             Inl err \<Rightarrow> Inl err
           | Inr ds \<Rightarrow> Inr \<lparr>allowed = as, denied = ds\<rparr>))"

definition check :: "env \<Rightarrow> unitPolicy \<Rightarrow> string \<Rightarrow> error option" where
  "check env p unit =
     (case find (\<lambda>re. e_match_string env re unit) (denied p) of
        Some re \<Rightarrow> Some (Errorf ''unit %q matches denied_units pattern %q''
                          [AStr unit, AStr (regexp_String re)])
      | None \<Rightarrow>
          (if allowed p = [] then None
           else if list_ex (\<lambda>re. e_match_string env re unit) (allowed p) then None
           else Some (Errorf ''unit %q does not match any allowed_units pattern'' [AStr unit])))"

text \<open>What the policy permits.\<close>

definition permits :: "env \<Rightarrow> unitPolicy \<Rightarrow> string \<Rightarrow> bool" where
  "permits env p unit \<longleftrightarrow>
     (\<forall>re \<in> set (denied p). \<not> e_match_string env re unit) \<and>
     (allowed p = [] \<or> (\<exists>re \<in> set (allowed p). e_match_string env re unit))"

lemma check_None: "check env p unit = None \<longleftrightarrow> permits env p unit"
  by (auto simp: check_def permits_def list_ex_iff split: option.split dest: find_SomeD find_NoneD)

lemma compile_patterns_Inr:
  "compile_patterns env name ps = Inr res \<longleftrightarrow> map (e_regexp_compile env) ps = map Inr res"
proof (induction ps arbitrary: res)
  case (Cons p ps)
  show ?case
  proof (cases res)
    case Nil
    then show ?thesis by (auto split: sum.splits)
  next
    case (Cons re res')
    then show ?thesis
      using Cons.IH [of res'] by (auto split: sum.splits)
  qed
qed auto

text \<open>The error names the first pattern that does not compile.\<close>

lemma compile_patterns_Inl:
  "compile_patterns env name ps = Inl e \<Longrightarrow>
     \<exists>good bad rest err. ps = good @ bad # rest \<and> (\<forall>p \<in> set good. \<not> isl (e_regexp_compile env p)) \<and>
        e_regexp_compile env bad = Inl err \<and>
        e = Wrapf (''compile '' @ name @ '' pattern %q: %w'') [AStr bad] err"
proof (induction ps)
  case (Cons p ps)
  show ?case
  proof (cases "e_regexp_compile env p")
    case (Inl err)
    with Cons.prems show ?thesis
      by (intro exI [of _ "[]"] exI [of _ p] exI [of _ ps]) simp
  next
    case (Inr re)
    with Cons.prems have "compile_patterns env name ps = Inl e"
      by (simp split: sum.splits)
    then obtain good bad rest err where ih: "ps = good @ bad # rest"
      "\<forall>p \<in> set good. \<not> isl (e_regexp_compile env p)" "e_regexp_compile env bad = Inl err"
      "e = Wrapf (''compile '' @ name @ '' pattern %q: %w'') [AStr bad] err"
      using Cons.IH by blast
    with Inr show ?thesis
      by (intro exI [of _ "p # good"] exI [of _ bad] exI [of _ rest]) simp
  qed
qed simp

section \<open>Unit ownership\<close>

type_synonym owners = "(string, string) gomap"

definition owner :: "owners \<Rightarrow> string \<Rightarrow> string option" where
  "owner os unit = map_of os unit"

definition claimUnit :: "string \<Rightarrow> string \<Rightarrow> owners \<Rightarrow> error option \<times> owners" where
  "claimUnit unit taskID os =
     (case map_of os unit of
        Some own \<Rightarrow>
          (if own \<noteq> taskID
           then (Some (Errorf ''unit %q is already managed by task %q'' [AStr unit, AStr own]), os)
           else (None, AList.update unit taskID os))
      | None \<Rightarrow> (None, AList.update unit taskID os))"

definition releaseUnit :: "string \<Rightarrow> owners \<Rightarrow> owners" where
  "releaseUnit unit os = AList.delete unit os"

locale unit_ownership =
  fixes holder :: "'o \<Rightarrow> 'u \<Rightarrow> 't option"
    and claim :: "'u \<Rightarrow> 't \<Rightarrow> 'o \<Rightarrow> error option \<times> 'o"
    and release :: "'u \<Rightarrow> 'o \<Rightarrow> 'o"
  assumes claim_granted:
      "holder s u = None \<or> holder s u = Some t \<Longrightarrow>
       fst (claim u t s) = None \<and> holder (snd (claim u t s)) = (holder s)(u \<mapsto> t)"
    and claim_refused:
      "holder s u = Some t' \<Longrightarrow> t' \<noteq> t \<Longrightarrow> fst (claim u t s) \<noteq> None \<and> snd (claim u t s) = s"
    and holder_release: "holder (release u s) = (holder s)(u := None)"
begin

lemma claim_iff: "fst (claim u t s) = None \<longleftrightarrow> holder s u = None \<or> holder s u = Some t"
  using claim_granted claim_refused by (metis not_Some_eq)

lemma claim_holder: "fst (claim u t s) = None \<Longrightarrow> holder (snd (claim u t s)) = (holder s)(u \<mapsto> t)"
  using claim_granted claim_iff by blast

lemma claim_error: "fst (claim u t s) \<noteq> None \<Longrightarrow> snd (claim u t s) = s"
  by (metis claim_iff claim_refused not_Some_eq)

text \<open>A granted claim excludes every other task, until it is released.\<close>

lemma claim_exclusive:
  "fst (claim u t s) = None \<Longrightarrow> t' \<noteq> t \<Longrightarrow> fst (claim u t' (snd (claim u t s))) \<noteq> None"
  by (simp add: claim_iff claim_holder)

lemma claim_release: "fst (claim u t s) = None \<Longrightarrow> holder s u = None \<Longrightarrow>
  holder (release u (snd (claim u t s))) = holder s"
  by (auto simp: holder_release claim_holder fun_upd_idem)

lemma release_reclaim: "fst (claim u t (release u s)) = None"
  by (simp add: claim_iff holder_release)

text \<open>Two units with different holders: neither claim touches the other.\<close>

lemma claim_frame: "v \<noteq> u \<Longrightarrow> holder (snd (claim u t s)) v = holder s v"
  by (metis claim_error claim_holder fun_upd_other)

end

interpretation own: unit_ownership owner claimUnit releaseUnit
  by unfold_locales
     (auto simp: owner_def claimUnit_def releaseUnit_def fun_eq_iff split: option.splits)

end
