(* ===== verification/Pprof.thy ===== *)
theory Pprof
  imports World
begin

text \<open>
  \<open>plugin/pprof.go\<close>: the pprof server's lifetime as the driver's configuration changes. Serving
  requests is Go's \<open>net/http\<close>; what is kept is the listener and the order in which addresses are
  released and bound.
\<close>

text \<open>A server, with whether \<open>stopOnce\<close> has run. Servers are pointers: \<open>pstate\<close> holds those made so
  far, since each keeps a goroutine that stops it when the driver's context ends, and which of them
  is the driver's, if any.\<close>

record pprofServer =
  addr :: string
  ln :: nat
  stopped :: bool

record pstate = world +
  servers :: "pprofServer list"
  pprof :: "nat option"

definition startPprof :: "env \<Rightarrow> string \<Rightarrow> (pstate, error + nat) state" where
  "startPprof env a = do {
     l \<leftarrow> outcall (Listen a) (\<lambda>h. e_listen env h a);
     case l of
       Inl err \<Rightarrow> ret (Inl (Wrapf ''listen on %s: %w'' [AStr a] err))
     | Inr k \<Rightarrow> do {
         p \<leftarrow> gets (\<lambda>s. length (servers s));
         modify (\<lambda>s. s\<lparr>servers := servers s @ [\<lparr>addr = a, ln = k, stopped = False\<rparr>]\<rparr>);
         ret (Inr p)
       }
   }"

text \<open>\<open>pprofServer.stop\<close>; \<open>stopOnce\<close> makes a second call do nothing.\<close>

definition stop :: "nat \<Rightarrow> (pstate, unit) state" where
  "stop p = do {
     q \<leftarrow> gets (\<lambda>s. servers s ! p);
     if stopped q then ret ()
     else do {
       outcall (ShutdownServer (ln q)) (\<lambda>_. ());
       outcall (CloseListener (ln q)) (\<lambda>_. ());
       modify (\<lambda>s. s\<lparr>servers := (servers s)[p := q\<lparr>stopped := True\<rparr>]\<rparr>)
     }
   }"

text \<open>The goroutine \<open>startPprof\<close> leaves behind: it waits for the end of its context, then stops the
  server.\<close>

definition watchPprof :: "bool \<Rightarrow> nat \<Rightarrow> (pstate, unit) state" where
  "watchPprof ctxDone p = (if ctxDone then stop p else ret ())"

definition set_pprof :: "nat option \<Rightarrow> (pstate, unit) state" where
  "set_pprof p = modify (\<lambda>s. s\<lparr>pprof := p\<rparr>)"

lemma run_set_pprof [simp, run_simps]: "run_state (set_pprof p) s = ((), s\<lparr>pprof := p\<rparr>)"
  by (simp add: set_pprof_def)

text \<open>\<open>d.pprof.stop(); d.pprof = nil\<close>, if there is a server.\<close>

definition dropPprof :: "(pstate, unit) state" where
  "dropPprof = do {
     cur \<leftarrow> gets pprof;
     case cur of
       None \<Rightarrow> ret ()
     | Some p \<Rightarrow> do { stop p; set_pprof None }
   }"

definition configurePprof :: "env \<Rightarrow> string \<Rightarrow> (pstate, error option) state" where
  "configurePprof env a = do {
     cur \<leftarrow> gets (\<lambda>s. map_option (\<lambda>p. addr (servers s ! p)) (pprof s));
     if cur = Some a then ret None
     else do {
       dropPprof;
       if a = '''' then ret None
       else do {
         r \<leftarrow> startPprof env a;
         case r of
           Inl err \<Rightarrow> ret (Some err)
         | Inr p \<Rightarrow> do { set_pprof (Some p); ret None }
       }
     }
   }"

end
