(* ===== verification/Driver.thy ===== *)
theory Driver
  imports Cgroup Journal Handler UnitConfig Store Ownership Pprof
begin

text \<open>
  \<open>plugin.Driver\<close> (\<open>plugin/driver.go\<close>, \<open>plugin/task.go\<close>, \<open>plugin/fingerprint.go\<close>): the state of the
  plugin process and the RPCs Nomad calls. Pointers to Managers and handlers are numbers into two
  heaps, so that a handler keeps the Manager it was created with when \<open>SetConfig\<close> replaces the
  driver's.
\<close>

section \<open>State\<close>

text \<open>Nomad's codecs: the task's HCL configuration, the driver state in a task handle, and the
  plugin configuration.\<close>

record nomad =
  DecodeDriverConfig :: "TaskConfig \<Rightarrow> error + UnitTaskConfig"
  SetDriverState :: "UnitTaskConfig \<Rightarrow> error + string"
  GetDriverState :: "string \<Rightarrow> error + UnitTaskConfig"
  MsgPackDecode :: "string \<Rightarrow> error + DriverConfig"

text \<open>\<open>base.Config\<close>; the agent's configuration stands for the CPU capacity computed from it.\<close>

record base_Config =
  PluginConfig :: string
  AgentConfig :: "nat option"

record sys = world +
  mgrs :: "nat \<Rightarrow> manager"
  next_mgr :: nat
  hnds :: "nat \<Rightarrow> handler"
  next_hnd :: nat
  tasks :: store
  systemdMgr :: "nat option"
  unit_policy :: "unitPolicy option"
  unitOwners :: owners
  d_servers :: "pprofServer list"
  d_pprof :: "nat option"
  d_compute :: nat
  d_done :: bool

definition taskHandleVersion :: nat where "taskHandleVersion = 1"
definition pluginVersion :: string where "pluginVersion = ''v0.1.0''"

text \<open>\<open>destroyStopGracePeriod\<close>, in nanoseconds.\<close>

definition destroyStopGracePeriod :: time where
  "destroyStopGracePeriod = 5000000000"

text \<open>Unused entries of the heaps.\<close>

definition no_manager :: manager where
  "no_manager = \<lparr>conn = None, units = [], stopping = False, journalWg = 0, compute = 0,
     cgroupRoot = '''', ctxDone = True, wg = 0, wakes = [], readers = []\<rparr>"

definition no_handler :: handler where
  "no_handler = \<lparr>th_id = 0, th_taskID = '''', th_Unit = '''', th_units = 0, th_wakeCh = None,
     th_handle = \<lparr>Version = 0, Config = \<lparr>ID = '''', AllocID = '''', Name = '''', rawDriverConfig = '''',
       StdoutPath = '''', StderrPath = ''''\<rparr>, DriverState = ''''\<rparr>,
     th_state = TaskStateUnknown, th_startedAt = None, th_completedAt = None, th_exitResult = None,
     th_exitOnce = False, th_closes = 0, th_canceled = True, th_wg = 0\<rparr>"

definition New :: sys where
  "New = \<lparr>hist = [], mgrs = (\<lambda>_. no_manager), next_mgr = 0, hnds = (\<lambda>_. no_handler), next_hnd = 0,
     tasks = NewStore, systemdMgr = None, unit_policy = None, unitOwners = [], d_servers = [],
     d_pprof = None, d_compute = 0, d_done = False\<rparr>"

section \<open>Running a component's operation\<close>

definition get_mgr :: "nat \<Rightarrow> sys \<Rightarrow> mstate" where
  "get_mgr mid s = \<lparr>hist = hist s, mgr = mgrs s mid\<rparr>"

definition put_mgr :: "nat \<Rightarrow> mstate \<Rightarrow> sys \<Rightarrow> sys" where
  "put_mgr mid t s = s\<lparr>hist := hist t, mgrs := (mgrs s)(mid := mgr t)\<rparr>"

definition with_mgr :: "nat \<Rightarrow> (mstate, 'a) state \<Rightarrow> (sys, 'a) state" where
  "with_mgr mid m = zoom (get_mgr mid) (put_mgr mid) m"

definition get_hnd :: "nat \<Rightarrow> sys \<Rightarrow> mstate hstate" where
  "get_hnd hid s = \<lparr>hnd = hnds s hid, ctrl = get_mgr (th_units (hnds s hid)) s\<rparr>"

definition put_hnd :: "nat \<Rightarrow> mstate hstate \<Rightarrow> sys \<Rightarrow> sys" where
  "put_hnd hid t s =
     (put_mgr (th_units (hnds s hid)) (ctrl t) s)\<lparr>hnds := (hnds s)(hid := hnd t)\<rparr>"

definition with_hnd :: "nat \<Rightarrow> (mstate hstate, 'a) state \<Rightarrow> (sys, 'a) state" where
  "with_hnd hid m = zoom (get_hnd hid) (put_hnd hid) m"

definition upd_handler :: "nat \<Rightarrow> (handler \<Rightarrow> handler) \<Rightarrow> (sys, unit) state" where
  "upd_handler hid f = modify (\<lambda>s. s\<lparr>hnds := (hnds s)(hid := f (hnds s hid))\<rparr>)"

text \<open>\<open>*systemd.Manager\<close> as a handler's \<open>unitController\<close>.\<close>

definition mgr_ctl :: "env \<Rightarrow> mstate unitController" where
  "mgr_ctl env =
     \<lparr>c_StopUnit = StopUnit env, c_KillUnit = KillUnit env, c_UnitState = UnitState env,
      c_UnitExitStatus = UnitExitStatus env, c_ResourceStats = ResourceStats env,
      c_StreamLogs = StreamLogs env, c_Now = now env\<rparr>"

definition getManager :: "(sys, error + nat) state" where
  "getManager = gets (\<lambda>s. case systemdMgr s of
     None \<Rightarrow> Inl (NewError ''systemd manager is not initialized; SetConfig has not run'')
   | Some mid \<Rightarrow> Inr mid)"

definition claim :: "string \<Rightarrow> string \<Rightarrow> (sys, error option) state" where
  "claim unit taskID = do {
     r \<leftarrow> gets (\<lambda>s. fst (claimUnit unit taskID (unitOwners s)));
     modify (\<lambda>s. s\<lparr>unitOwners := snd (claimUnit unit taskID (unitOwners s))\<rparr>);
     ret r
   }"

definition release :: "string \<Rightarrow> (sys, unit) state" where
  "release unit = modify (\<lambda>s. s\<lparr>unitOwners := releaseUnit unit (unitOwners s)\<rparr>)"

definition lookupTask :: "string \<Rightarrow> (sys, nat option) state" where
  "lookupTask taskID = gets (\<lambda>s. Store_Get taskID (tasks s))"

definition set_task :: "string \<Rightarrow> nat \<Rightarrow> (sys, unit) state" where
  "set_task taskID hid = modify (\<lambda>s. s\<lparr>tasks := Store_Set taskID hid (tasks s)\<rparr>)"

text \<open>\<open>task.NewHandler(id, unit, handle, mgr, mgr.WakeChannel(unit), state, logger)\<close>.\<close>

definition newTaskHandler ::
    "env \<Rightarrow> string \<Rightarrow> string \<Rightarrow> TaskHandle \<Rightarrow> nat \<Rightarrow> TaskState \<Rightarrow> (sys, nat) state" where
  "newTaskHandler env taskID unit handle mid initialState = do {
     w \<leftarrow> with_mgr mid (WakeChannel unit);
     hid \<leftarrow> gets next_hnd;
     h \<leftarrow> with_mgr mid (NewHandler (mgr_ctl env) hid taskID unit handle mid w initialState);
     modify (\<lambda>s. s\<lparr>hnds := (hnds s)(hid := h), next_hnd := hid + 1\<rparr>);
     ret hid
   }"

section \<open>StartTask\<close>

definition rollBackFailedStart :: "env \<Rightarrow> nat \<Rightarrow> string \<Rightarrow> (sys, unit) state" where
  "rollBackFailedStart env mid unit = do {
     with_mgr mid (StopUnit env DriverCtx unit);
     ret ()
   }"

text \<open>
  The part of \<open>StartTask\<close> after the claim and the encoding of the driver state: read the unit's
  state, start it unless it is running (\<open>ensureRunning\<close>), and put the task under management.
\<close>

definition ensureRunning :: "env \<Rightarrow> nat \<Rightarrow> string \<Rightarrow> (sys, error + UnitState) state" where
  "ensureRunning env mid unit = do {
     st \<leftarrow> with_mgr mid (UnitState env DriverCtx unit);
     case st of
       Inl err \<Rightarrow> do { release unit; ret (Inl (Wrapf ''get unit status: %w'' [] err)) }
     | Inr activeState \<Rightarrow>
         (if ToTaskState activeState \<noteq> TaskStateRunning then do {
            e \<leftarrow> with_mgr mid (StartUnit env DriverCtx unit);
            case e of
              Some err \<Rightarrow> do {
                rollBackFailedStart env mid unit;
                release unit;
                ret (Inl (Wrapf ''start unit: %w'' [] err))
              }
            | None \<Rightarrow> ret (Inr UnitStateActive)
          } else ret (Inr activeState))
   }"

definition attachTask ::
    "env \<Rightarrow> nat \<Rightarrow> TaskConfig \<Rightarrow> string \<Rightarrow> TaskHandle \<Rightarrow> UnitState \<Rightarrow> (sys, unit) state" where
  "attachTask env mid cfg unit handle activeState = do {
     hid \<leftarrow> newTaskHandler env (ID cfg) unit handle mid TaskStateRunning;
     with_hnd hid (Handler_Start (mgr_ctl env));
     set_task (ID cfg) hid;
     t \<leftarrow> now env;
     outcall (EmitEvent (ID cfg) (AllocID cfg) (Name cfg) t (''Task started: systemd unit '' @ unit)
                [(''unit'', unit), (''state'', activeState)])
       (\<lambda>h. e_emit_event env h (ID cfg));
     ret ()
   }"

definition manageTask ::
    "env \<Rightarrow> nat \<Rightarrow> TaskConfig \<Rightarrow> string \<Rightarrow> TaskHandle \<Rightarrow> UnitState \<Rightarrow> (sys, unit) state" where
  "manageTask env mid cfg unit handle activeState = do {
     with_mgr mid (RegisterUnit env DriverCtx unit);
     attachTask env mid cfg unit handle activeState
   }"

text \<open>After the claim.\<close>

definition startClaimed ::
    "env \<Rightarrow> nomad \<Rightarrow> nat \<Rightarrow> TaskConfig \<Rightarrow> UnitTaskConfig \<Rightarrow> (sys, error + TaskHandle) state" where
  "startClaimed env nom mid cfg taskConfig =
     (case SetDriverState nom taskConfig of
        Inl err \<Rightarrow> do {
          release (Unit taskConfig);
          ret (Inl (Wrapf ''encode task state: %w'' [] err))
        }
      | Inr blob \<Rightarrow> do {
          let handle = \<lparr>Version = taskHandleVersion, Config = cfg, DriverState = blob\<rparr>;
          r \<leftarrow> ensureRunning env mid (Unit taskConfig);
          case r of
            Inl err \<Rightarrow> ret (Inl err)
          | Inr activeState \<Rightarrow> do {
              manageTask env mid cfg (Unit taskConfig) handle activeState;
              ret (Inr handle)
            }
        })"

text \<open>Up to the claim nothing is changed: the Manager and the task's configuration, or an error.\<close>

definition startChecks :: "env \<Rightarrow> nomad \<Rightarrow> TaskConfig \<Rightarrow> (sys, error + nat \<times> UnitTaskConfig) state" where
  "startChecks env nom cfg = do {
     known \<leftarrow> lookupTask (ID cfg);
     if known \<noteq> None then ret (Inl (Errorf ''task with ID %q already started'' [AStr (ID cfg)]))
     else case DecodeDriverConfig nom cfg of
       Inl err \<Rightarrow> ret (Inl (Wrapf ''decode task config: %w'' [] err))
     | Inr taskConfig \<Rightarrow>
         (case Validate taskConfig of
            Some err \<Rightarrow> ret (Inl (Wrapf ''invalid task config: %w'' [] err))
          | None \<Rightarrow> do {
              policy \<leftarrow> gets unit_policy;
              case Option.bind policy (\<lambda>p. check env p (Unit taskConfig)) of
                Some err \<Rightarrow> ret (Inl (Wrapf ''unit not permitted: %w'' [] err))
              | None \<Rightarrow> do {
                  m \<leftarrow> getManager;
                  ret (case m of Inl err \<Rightarrow> Inl err | Inr mid \<Rightarrow> Inr (mid, taskConfig))
                }
            })
   }"

definition startFrom ::
    "env \<Rightarrow> nomad \<Rightarrow> nat \<Rightarrow> TaskConfig \<Rightarrow> UnitTaskConfig \<Rightarrow> (sys, error + TaskHandle) state" where
  "startFrom env nom mid cfg taskConfig = do {
     c \<leftarrow> claim (Unit taskConfig) (ID cfg);
     case c of
       Some err \<Rightarrow> ret (Inl err)
     | None \<Rightarrow> startClaimed env nom mid cfg taskConfig
   }"

definition StartTask :: "env \<Rightarrow> nomad \<Rightarrow> TaskConfig \<Rightarrow> (sys, error + TaskHandle) state" where
  "StartTask env nom cfg = do {
     r \<leftarrow> startChecks env nom cfg;
     case r of
       Inl err \<Rightarrow> ret (Inl err)
     | Inr p \<Rightarrow> startFrom env nom (fst p) cfg (snd p)
   }"

section \<open>RecoverTask\<close>

text \<open>
  The exit result of a recovered task that has exited: systemd's, or the fallback on the unit's
  state.
\<close>

definition recoveredExitResult ::
    "env \<Rightarrow> nat \<Rightarrow> string \<Rightarrow> UnitState \<Rightarrow> (sys, ExitResult) state" where
  "recoveredExitResult env mid unit activeState = do {
     st \<leftarrow> with_mgr mid (UnitExitStatus env DriverCtx unit);
     ret (case (case st of Inr status \<Rightarrow> ExitResultFromStatus status | Inl _ \<Rightarrow> None) of
         Some res \<Rightarrow> res
       | None \<Rightarrow>
           (if IsFailed activeState
            then \<lparr>ExitCode = 1, Signal = 0, Err = Some (NewError ''systemd unit failed'')\<rparr>
            else \<lparr>ExitCode = 0, Signal = 0, Err = None\<rparr>))
   }"

text \<open>Between making the handler and starting it: the task's start time and, if it has exited, its
  exit result.\<close>

definition prepareRecovered :: "env \<Rightarrow> nat \<Rightarrow> nat \<Rightarrow> string \<Rightarrow> TaskState \<Rightarrow> UnitState \<Rightarrow> (sys, unit) state" where
  "prepareRecovered env hid mid unit taskState activeState = do {
     startedAt \<leftarrow> with_mgr mid (UnitStartTime env DriverCtx unit);
     (case startedAt of Inr t \<Rightarrow> upd_handler hid (SetStartedAt t) | Inl _ \<Rightarrow> ret ());
     (if taskState = TaskStateExited then do {
        exitResult \<leftarrow> recoveredExitResult env mid unit activeState;
        t \<leftarrow> now env;
        upd_handler hid (SetExitResult exitResult t)
      } else ret ())
   }"

text \<open>A state that is neither running nor exited counts as running.\<close>

definition recoveredState :: "UnitState \<Rightarrow> TaskState" where
  "recoveredState activeState =
     (if ToTaskState activeState = TaskStateUnknown then TaskStateRunning else ToTaskState activeState)"

definition attachRecovered ::
    "env \<Rightarrow> nat \<Rightarrow> string \<Rightarrow> string \<Rightarrow> TaskHandle \<Rightarrow> UnitState \<Rightarrow> (sys, unit) state" where
  "attachRecovered env mid taskID unit handle activeState = do {
     hid \<leftarrow> newTaskHandler env taskID unit handle mid (recoveredState activeState);
     prepareRecovered env hid mid unit (recoveredState activeState) activeState;
     with_hnd hid (Handler_Start (mgr_ctl env));
     set_task taskID hid
   }"

definition manageRecovered ::
    "env \<Rightarrow> nat \<Rightarrow> string \<Rightarrow> string \<Rightarrow> TaskHandle \<Rightarrow> UnitState \<Rightarrow> (sys, unit) state" where
  "manageRecovered env mid taskID unit handle activeState = do {
     with_mgr mid (RegisterUnit env DriverCtx unit);
     attachRecovered env mid taskID unit handle activeState
   }"

definition recoverClaimed :: "env \<Rightarrow> nat \<Rightarrow> string \<Rightarrow> string \<Rightarrow> TaskHandle \<Rightarrow> (sys, error option) state" where
  "recoverClaimed env mid taskID unit handle = do {
     st \<leftarrow> with_mgr mid (UnitState env DriverCtx unit);
     case st of
       Inl err \<Rightarrow> do { release unit; ret (Some (Wrapf ''get unit status: %w'' [] err)) }
     | Inr activeState \<Rightarrow> do {
         manageRecovered env mid taskID unit handle activeState;
         ret None
       }
   }"

text \<open>Up to the claim: what is returned at once, or the Manager and the task's configuration.\<close>

definition recoverChecks :: "nomad \<Rightarrow> TaskHandle \<Rightarrow> (sys, error option + nat \<times> UnitTaskConfig) state" where
  "recoverChecks nom handle = do {
     known \<leftarrow> lookupTask (ID (Config handle));
     if known \<noteq> None then ret (Inl None)
     else case GetDriverState nom (DriverState handle) of
       Inl err \<Rightarrow> ret (Inl (Some (Wrapf ''decode task config: %w'' [] err)))
     | Inr taskConfig \<Rightarrow> do {
         m \<leftarrow> getManager;
         ret (case m of Inl err \<Rightarrow> Inl (Some err) | Inr mid \<Rightarrow> Inr (mid, taskConfig))
       }
   }"

definition recoverFrom :: "env \<Rightarrow> nat \<Rightarrow> string \<Rightarrow> string \<Rightarrow> TaskHandle \<Rightarrow> (sys, error option) state" where
  "recoverFrom env mid taskID unit handle = do {
     c \<leftarrow> claim unit taskID;
     case c of
       Some err \<Rightarrow> ret (Some err)
     | None \<Rightarrow> recoverClaimed env mid taskID unit handle
   }"

definition RecoverTask :: "env \<Rightarrow> nomad \<Rightarrow> TaskHandle \<Rightarrow> (sys, error option) state" where
  "RecoverTask env nom handle = do {
     r \<leftarrow> recoverChecks nom handle;
     case r of
       Inl res \<Rightarrow> ret res
     | Inr p \<Rightarrow> recoverFrom env (fst p) (ID (Config handle)) (Unit (snd p)) handle
   }"

section \<open>StopTask and DestroyTask\<close>

text \<open>The progress a handler's poll goroutine makes while the driver waits.\<close>

definition pollGoroutine :: "env \<Rightarrow> nat \<Rightarrow> (sys, unit) state" where
  "pollGoroutine env hid = do {
     evs \<leftarrow> gets (\<lambda>s. e_poll_events env (hist s) hid);
     alive \<leftarrow> gets (\<lambda>s. 0 < th_wg (hnds s hid) \<and> \<not> th_canceled (hnds s hid));
     if alive then do { with_hnd hid (pollLoop (mgr_ctl env) evs); ret () } else ret ()
   }"

definition forceKillTask :: "env \<Rightarrow> nat \<Rightarrow> (sys, error option) state" where
  "forceKillTask env hid = do {
     killErr \<leftarrow> with_hnd hid (Handler_KillUnit (mgr_ctl env));
     case killErr of
       None \<Rightarrow> ret None
     | Some err \<Rightarrow> do {
         st \<leftarrow> with_hnd hid (Handler_UnitState (mgr_ctl env));
         ret (case st of
             Inr state \<Rightarrow> if IsTerminal state then None else Some (Wrapf ''kill unit: %w'' [] err)
           | Inl _ \<Rightarrow> Some (Wrapf ''kill unit: %w'' [] err))
       }
   }"

text \<open>
  The \<open>select\<close> between the exit of the task, the end of the stop job and the timer. \<open>stopDone\<close> is
  what the stop job has sent, if it has ended. A closed \<open>WaitCh\<close> can only be received from when it
  is closed.
\<close>

datatype stop_outcome = Exited | Stopped | StopFailed error | TimedOut

definition awaitStop ::
    "env \<Rightarrow> nat \<Rightarrow> time \<Rightarrow> error option option \<Rightarrow> (sys, stop_outcome) state" where
  "awaitStop env hid timeout stopDone = do {
     pollGoroutine env hid;
     closed \<leftarrow> gets (\<lambda>s. waitCh_closed (hnds s hid));
     sel \<leftarrow> outcall (SelectExit hid timeout) (\<lambda>h. e_select_exit env h hid);
     ret (if sel = WaitChClosed \<and> closed then Exited
          else if sel = TimerFired then TimedOut
          else case stopDone of
              None \<Rightarrow> if closed then Exited else TimedOut
            | Some None \<Rightarrow> Stopped
            | Some (Some err) \<Rightarrow> StopFailed err)
   }"

text \<open>
  \<open>beside_stop env hid k\<close> is \<open>k\<close> with the handler's \<open>StopUnit\<close> in a goroutine of its own
  (\<open>go func() { stopDone <- taskHandler.StopUnit() }()\<close>): it has ended when \<open>k\<close> looks at
  \<open>stopDone\<close>, or it ends after \<open>k\<close>.
\<close>

definition beside_stop ::
    "env \<Rightarrow> nat \<Rightarrow> (error option option \<Rightarrow> (sys, 'a) state) \<Rightarrow> (sys, 'a) state" where
  "beside_stop env hid k = do {
     late \<leftarrow> gets (\<lambda>s. e_stop_late env (hist s));
     if late then do {
       r \<leftarrow> k None;
       with_hnd hid (Handler_StopUnit (mgr_ctl env));
       ret r
     } else do {
       stopErr \<leftarrow> with_hnd hid (Handler_StopUnit (mgr_ctl env));
       k (Some stopErr)
     }
   }"

definition StopTask :: "env \<Rightarrow> string \<Rightarrow> time \<Rightarrow> (sys, error option) state" where
  "StopTask env taskID timeout = do {
     t \<leftarrow> lookupTask taskID;
     case t of
       None \<Rightarrow> ret (Some ErrTaskNotFound)
     | Some hid \<Rightarrow> beside_stop env hid (\<lambda>stopDone.
         if timeout \<le> 0 then forceKillTask env hid
         else do {
           out \<leftarrow> awaitStop env hid timeout stopDone;
           case out of
             Exited \<Rightarrow> ret None
           | Stopped \<Rightarrow> ret None
           | StopFailed _ \<Rightarrow> forceKillTask env hid
           | TimedOut \<Rightarrow> forceKillTask env hid
         })
   }"

text \<open>The stop a destroy makes when the task has not exited; errors are only logged.\<close>

definition stopForDestroy :: "env \<Rightarrow> nat \<Rightarrow> (sys, unit) state" where
  "stopForDestroy env hid = beside_stop env hid (\<lambda>stopDone. do {
     out \<leftarrow> awaitStop env hid destroyStopGracePeriod stopDone;
     case out of
       Exited \<Rightarrow> ret ()
     | Stopped \<Rightarrow> ret ()
     | StopFailed _ \<Rightarrow> do { forceKillTask env hid; ret () }
     | TimedOut \<Rightarrow> do { forceKillTask env hid; ret () }
   })"

definition taskState_string :: "TaskState \<Rightarrow> string" where
  "taskState_string st = (case st of
     TaskStateUnknown \<Rightarrow> ''unknown'' | TaskStateRunning \<Rightarrow> ''running'' | TaskStateExited \<Rightarrow> ''exited'')"

text \<open>The end of \<open>DestroyTask\<close>, from stopping the handler on.\<close>

definition forgetTask :: "string \<Rightarrow> string \<Rightarrow> (sys, error option) state" where
  "forgetTask taskID unit = do {
     m \<leftarrow> getManager;
     (case m of
        Inl _ \<Rightarrow> ret ()
      | Inr mid \<Rightarrow> with_mgr mid (UnregisterUnit unit));
     modify (\<lambda>s. s\<lparr>tasks := Store_Delete taskID (tasks s)\<rparr>);
     release unit;
     ret None
   }"

definition teardownTask :: "string \<Rightarrow> nat \<Rightarrow> string \<Rightarrow> (sys, error option) state" where
  "teardownTask taskID hid unit = do {
     upd_handler hid Handler_Stop;
     forgetTask taskID unit
   }"

definition DestroyTask :: "env \<Rightarrow> string \<Rightarrow> bool \<Rightarrow> (sys, error option) state" where
  "DestroyTask env taskID force = do {
     t \<leftarrow> lookupTask taskID;
     case t of
       None \<Rightarrow> ret (Some ErrTaskNotFound)
     | Some hid \<Rightarrow> do {
         unit \<leftarrow> gets (\<lambda>s. th_Unit (hnds s hid));
         exited \<leftarrow> gets (\<lambda>s. HasExited (hnds s hid));
         if \<not> exited \<and> \<not> force then do {
           st \<leftarrow> gets (\<lambda>s. ts_State (TaskStatus (hnds s hid)));
           ret (Some (Errorf ''cannot destroy task in state %q'' [AStr (taskState_string st)]))
         } else do {
           (if \<not> exited then stopForDestroy env hid else ret ());
           teardownTask taskID hid unit
         }
       }
   }"

section \<open>Reading a task\<close>

definition InspectTask :: "string \<Rightarrow> (sys, error + task_status) state" where
  "InspectTask taskID = gets (\<lambda>s. case Store_Get taskID (tasks s) of
     None \<Rightarrow> Inl ErrTaskNotFound
   | Some hid \<Rightarrow> Inr (TaskStatus (hnds s hid)))"

text \<open>
  \<open>WaitTask\<close> and the goroutine it starts. The goroutine's \<open>select\<close> is given whether it takes the
  case of the caller's context, and the handler as it is then; \<open>WaitBlocked\<close> when no case is
  ready.
\<close>

datatype wait_event = WaitBlocked | WaitSent ExitResult | WaitChannelClosed

definition WaitTask :: "string \<Rightarrow> (sys, error + nat) state" where
  "WaitTask taskID = gets (\<lambda>s. case Store_Get taskID (tasks s) of
     None \<Rightarrow> Inl ErrTaskNotFound
   | Some hid \<Rightarrow> Inr hid)"

definition waitGoroutine :: "bool \<Rightarrow> handler \<Rightarrow> wait_event" where
  "waitGoroutine ctxSelected h =
     (if ctxSelected then WaitChannelClosed
      else if waitCh_closed h then
        (case ts_ExitResult (TaskStatus h) of
           Some r \<Rightarrow> WaitSent r
         | None \<Rightarrow> WaitSent \<lparr>ExitCode = 0, Signal = 0, Err = None\<rparr>)
      else WaitBlocked)"

record TaskResourceUsage =
  us_Timestamp :: time
  us_CpuStats :: CpuStats
  us_MemoryStats :: MemoryStats

text \<open>
  \<open>sendTaskStats\<close>: whether the stream continues, and the sample put on the channel (the send is
  given up when the caller's context ends first: \<open>delivered\<close> is false).
\<close>

definition sendTaskStats ::
    "env \<Rightarrow> nat \<Rightarrow> bool \<Rightarrow> (sys, bool \<times> TaskResourceUsage list) state" where
  "sendTaskStats env hid delivered = do {
     r \<leftarrow> with_hnd hid (Handler_ResourceStats (mgr_ctl env) CallerCtx);
     case (case r of
             Inl err \<Rightarrow> if error_is err ErrUnitNotRegistered then None else Some EmptyResourceStats
           | Inr stats \<Rightarrow> Some stats) of
       None \<Rightarrow> ret (False, [])
     | Some stats \<Rightarrow> do {
         t \<leftarrow> now env;
         ret (True, if delivered
                    then [\<lparr>us_Timestamp = t, us_CpuStats = CPUStats stats, us_MemoryStats = MemStats stats\<rparr>]
                    else [])
       }
   }"

text \<open>The goroutine of \<open>TaskStats\<close> over what its \<open>select\<close> receives; a tick says whether the sample
  is delivered. The result is the samples sent and whether the goroutine has returned.\<close>

datatype stats_event = StatsCtxDone | StatsExited | StatsTick bool

fun statsLoop :: "env \<Rightarrow> nat \<Rightarrow> stats_event list \<Rightarrow> (sys, TaskResourceUsage list \<times> bool) state" where
  "statsLoop env hid [] = ret ([], False)"
| "statsLoop env hid (StatsCtxDone # evs) = ret ([], True)"
| "statsLoop env hid (StatsExited # evs) = ret ([], True)"
| "statsLoop env hid (StatsTick delivered # evs) = do {
     (more, sent) \<leftarrow> sendTaskStats env hid delivered;
     if more then do {
       (rest, done) \<leftarrow> statsLoop env hid evs;
       ret (sent @ rest, done)
     } else ret (sent, True)
   }"

definition TaskStats :: "string \<Rightarrow> (sys, error + nat) state" where
  "TaskStats taskID = gets (\<lambda>s. case Store_Get taskID (tasks s) of
     None \<Rightarrow> Inl ErrTaskNotFound
   | Some hid \<Rightarrow> Inr hid)"

section \<open>Configuration, shutdown, fingerprint\<close>

definition with_pprof :: "(pstate, 'a) state \<Rightarrow> (sys, 'a) state" where
  "with_pprof m = zoom (\<lambda>s. \<lparr>hist = hist s, servers = d_servers s, pprof = d_pprof s\<rparr>)
     (\<lambda>t s. s\<lparr>hist := hist t, d_servers := servers t, d_pprof := pprof t\<rparr>) m"

text \<open>The goroutine that watches the driver's context for a server.\<close>

definition pprofGoroutine :: "nat \<Rightarrow> (sys, unit) state" where
  "pprofGoroutine p = do {
     done \<leftarrow> gets d_done;
     with_pprof (watchPprof done p)
   }"

text \<open>\<open>systemd.NewManager\<close>, allocated in the heap. Its context is derived from the driver's, so it has
  ended if that has.\<close>

definition newManager :: "env \<Rightarrow> (sys, error + nat) state" where
  "newManager env = do {
     cpus \<leftarrow> gets d_compute;
     r \<leftarrow> NewManager env DriverCtx cpus;
     case r of
       Inl err \<Rightarrow> ret (Inl err)
     | Inr m \<Rightarrow> do {
         mid \<leftarrow> gets next_mgr;
         modify (\<lambda>s. s\<lparr>mgrs := (mgrs s)(mid := m\<lparr>ctxDone := d_done s\<rparr>), next_mgr := mid + 1\<rparr>);
         ret (Inr mid)
       }
   }"

text \<open>\<open>var config Config\<close>, decoded from the plugin configuration unless that is empty.\<close>

definition decodeConfig :: "nomad \<Rightarrow> base_Config \<Rightarrow> error + DriverConfig" where
  "decodeConfig nom cfg =
     (if length (PluginConfig cfg) \<noteq> 0 then MsgPackDecode nom (PluginConfig cfg)
      else Inr \<lparr>AllowedUnits = [], DeniedUnits = [], PprofAddr = ''''\<rparr>)"

text \<open>The new Manager is started and takes the place of the previous one, which is stopped.\<close>

definition installManager :: "nat \<Rightarrow> (sys, unit) state" where
  "installManager mid = do {
     with_mgr mid Manager_Start;
     old \<leftarrow> gets systemdMgr;
     modify (\<lambda>s. s\<lparr>systemdMgr := Some mid\<rparr>);
     case old of
       None \<Rightarrow> ret ()
     | Some o' \<Rightarrow> with_mgr o' Manager_Stop
   }"

definition replaceManager :: "env \<Rightarrow> (sys, error option) state" where
  "replaceManager env = do {
     r \<leftarrow> newManager env;
     case r of
       Inl err \<Rightarrow> ret (Some (Wrapf ''create systemd manager: %w'' [] err))
     | Inr mid \<Rightarrow> do {
         installManager mid;
         ret None
       }
   }"

text \<open>The part of \<open>SetConfig\<close> after the policy has compiled.\<close>

definition applyConfig :: "env \<Rightarrow> DriverConfig \<Rightarrow> unitPolicy \<Rightarrow> (sys, error option) state" where
  "applyConfig env config policy = do {
     modify (\<lambda>s. s\<lparr>unit_policy := Some policy\<rparr>);
     e \<leftarrow> with_pprof (configurePprof env (PprofAddr config));
     case e of
       Some err \<Rightarrow> ret (Some (Wrapf ''configure pprof: %w'' [] err))
     | None \<Rightarrow> replaceManager env
   }"

definition SetConfig :: "env \<Rightarrow> nomad \<Rightarrow> base_Config \<Rightarrow> (sys, error option) state" where
  "SetConfig env nom cfg =
     (case decodeConfig nom cfg of
        Inl err \<Rightarrow> ret (Some (Wrapf ''decode driver config: %w'' [] err))
      | Inr config \<Rightarrow>
          (case AgentConfig cfg of
             None \<Rightarrow> ret (Some (NewError ''nomad agent config is required''))
           | Some cpus \<Rightarrow> do {
               modify (\<lambda>s. s\<lparr>d_compute := cpus\<rparr>);
               case compileUnitPolicy env (AllowedUnits config) (DeniedUnits config) of
                 Inl err \<Rightarrow> ret (Some (Wrapf ''invalid unit policy configuration: %w'' [] err))
               | Inr policy \<Rightarrow> applyConfig env config policy
             }))"

text \<open>\<open>Store.Stop\<close>: the store is emptied first, then the handlers it held are stopped.\<close>

definition stopHandlers :: "(sys, unit) state" where
  "stopHandlers = do {
     hs \<leftarrow> gets (\<lambda>s. fst (Store_Drain (tasks s)));
     modify (\<lambda>s. s\<lparr>tasks := snd (Store_Drain (tasks s))\<rparr>);
     for_each (\<lambda>hid. upd_handler hid Handler_Stop) hs
   }"

definition stopManager :: "(sys, unit) state" where
  "stopManager = do {
     m \<leftarrow> gets systemdMgr;
     case m of
       None \<Rightarrow> ret ()
     | Some mid \<Rightarrow> with_mgr mid Manager_Stop
   }"

definition stopPprof :: "(sys, unit) state" where
  "stopPprof = with_pprof dropPprof"

text \<open>Cancelling the driver's context ends that of every Manager.\<close>

definition signalShutdown :: "sys \<Rightarrow> sys" where
  "signalShutdown s = s\<lparr>d_done := True, mgrs := (\<lambda>mid. (mgrs s mid)\<lparr>ctxDone := True\<rparr>)\<rparr>"

text \<open>
  The teardown runs in a goroutine; \<open>stages\<close> is how much of it is finished when the \<open>select\<close>
  ends, all of it unless \<open>shutdownTimeout\<close> came first. \<open>signalShutdown\<close> cancels the driver's
  context last.
\<close>

definition Shutdown :: "nat \<Rightarrow> (sys, unit) state" where
  "Shutdown stages = do {
     for_each (\<lambda>m. m) (take stages [stopHandlers, stopManager, stopPprof]);
     modify signalShutdown
   }"

datatype Health = HealthStateHealthy | HealthStateUndetected | HealthStateUnhealthy
datatype attribute = BoolAttribute bool | StringAttribute string

record Fingerprint =
  Attributes :: "(string \<times> attribute) list"
  fp_Health :: Health
  HealthDescription :: string

definition buildFingerprint :: "env \<Rightarrow> (sys, Fingerprint) state" where
  "buildFingerprint env = do {
     m \<leftarrow> getManager;
     case m of
       Inl _ \<Rightarrow> ret \<lparr>Attributes = [], fp_Health = HealthStateUndetected,
                     HealthDescription = ''waiting for driver initialization''\<rparr>
     | Inr mid \<Rightarrow> do {
         ok \<leftarrow> with_mgr mid (Healthy env);
         if \<not> ok then
           ret \<lparr>Attributes = [], fp_Health = HealthStateUnhealthy,
                HealthDescription = ''systemd is not available''\<rparr>
         else do {
           v2 \<leftarrow> with_mgr mid (CgroupV2Available env);
           ret \<lparr>Attributes =
                  [(''driver.systemd'', BoolAttribute True),
                   (''driver.systemd.version'', StringAttribute pluginVersion),
                   (''driver.systemd.logs'', BoolAttribute True),
                   (''driver.systemd.signals'', BoolAttribute False),
                   (''driver.systemd.stats'', BoolAttribute v2)],
                fp_Health = HealthStateHealthy, HealthDescription = ''Healthy''\<rparr>
         }
       }
   }"

text \<open>
  \<open>handleFingerprint\<close> over what its \<open>select\<close> receives: the end of a context (the caller's or the
  driver's), or a tick of the timer, with whether the fingerprint is then received; if it is not,
  a context has ended first. The result is the fingerprints sent and whether the goroutine has
  returned, closing the channel.
\<close>

datatype fingerprint_event = FingerprintCtxDone | FingerprintTick bool

fun handleFingerprint :: "env \<Rightarrow> fingerprint_event list \<Rightarrow> (sys, Fingerprint list \<times> bool) state" where
  "handleFingerprint env [] = ret ([], False)"
| "handleFingerprint env (FingerprintCtxDone # evs) = ret ([], True)"
| "handleFingerprint env (FingerprintTick delivered # evs) = do {
     fp \<leftarrow> buildFingerprint env;
     if delivered then do {
       (rest, done) \<leftarrow> handleFingerprint env evs;
       ret (fp # rest, done)
     } else ret ([], True)
   }"

end
