(* ===== verification/Sample.thy ===== *)
theory Sample
  imports Driver ManagerProps
begin

text \<open>
  A concrete outside world in which systemd works and the unit \<open>a.service\<close> is active, and Nomad
  codecs that decode every task to that unit. The witnesses of the properties run the model in it,
  or in variants of it.
\<close>

definition sample_env :: env where
  "sample_env = \<lparr>
     e_now = (\<lambda>h. int (length h)),
     e_dial = (\<lambda>h. Inr (length h)),
     e_connected = (\<lambda>h k. CloseConn k \<notin> set h),
     e_subscribe = (\<lambda>_ _. None),
     e_start_unit = (\<lambda>_ _ _. None),
     e_stop_unit = (\<lambda>_ _ _. None),
     e_wait_job = (\<lambda>_ _ _. JobResult ''done''),
     e_kill_unit = (\<lambda>_ _ _. None),
     e_get_property = (\<lambda>_ _ _ p. Inr (if p = ''ActiveState'' then VString ''active'' else VUint64 1000)),
     e_get_properties = (\<lambda>_ _ _. Inr [(''ControlGroup'', VString ''/a'')]),
     e_get_type_properties = (\<lambda>_ _ _ _. Inr [(''ExecMainCode'', VInt32 1), (''ExecMainStatus'', VInt32 3)]),
     e_map_order = (\<lambda>_ us. us),
     e_stat = (\<lambda>_ _. None),
     e_read_file = (\<lambda>_ _. Inr ''42''),
     e_new_journal = (\<lambda>h. Inr (length h)),
     e_add_match = (\<lambda>_ _ _. None),
     e_seek_realtime = (\<lambda>_ _. None),
     e_seek_tail = (\<lambda>_ _. None),
     e_cpu_percent = (\<lambda>_ _ _ _. 0),
     e_cpu_ticks = (\<lambda>_ _. 0),
     e_listen = (\<lambda>h _. Inr (length h)),
     e_emit_event = (\<lambda>_ _. None),
     e_select_exit = (\<lambda>_ _. StopDone),
     e_stop_late = (\<lambda>_. False),
     e_poll_events = (\<lambda>_ _. []),
     e_regexp_compile = (\<lambda>p. Inr (Regexp p)),
     e_match_string = (\<lambda>r u. r = Regexp u)\<rparr>"

definition sample_nomad :: nomad where
  "sample_nomad = \<lparr>
     DecodeDriverConfig = (\<lambda>_. Inr \<lparr>Unit = ''a.service''\<rparr>),
     SetDriverState = (\<lambda>c. Inr (Unit c)),
     GetDriverState = (\<lambda>str. Inr \<lparr>Unit = str\<rparr>),
     MsgPackDecode = (\<lambda>_. Inr \<lparr>AllowedUnits = [], DeniedUnits = [], PprofAddr = ''''\<rparr>)\<rparr>"

definition sample_task :: "string \<Rightarrow> TaskConfig" where
  "sample_task i = \<lparr>ID = i, AllocID = ''alloc'', Name = ''web'', rawDriverConfig = '''',
     StdoutPath = ''out'', StderrPath = ''err''\<rparr>"

definition sample_config :: base_Config where
  "sample_config = \<lparr>PluginConfig = '''', AgentConfig = Some 4000\<rparr>"

lemma sample_env_simps [simp]:
  "e_now sample_env h = int (length h)"
  "e_dial sample_env h = Inr (length h)"
  "e_connected sample_env h k = (CloseConn k \<notin> set h)"
  "e_subscribe sample_env h k = None"
  "e_start_unit sample_env h k u = None"
  "e_stop_unit sample_env h k u = None"
  "e_wait_job sample_env h u act = JobResult ''done''"
  "e_kill_unit sample_env h k u = None"
  "e_get_property sample_env h k u p =
     Inr (if p = ''ActiveState'' then VString ''active'' else VUint64 1000)"
  "e_get_properties sample_env h k u = Inr [(''ControlGroup'', VString ''/a'')]"
  "e_get_type_properties sample_env h k u t =
     Inr [(''ExecMainCode'', VInt32 1), (''ExecMainStatus'', VInt32 3)]"
  "e_map_order sample_env h us = us"
  "e_stat sample_env h path = None"
  "e_read_file sample_env h path = Inr ''42''"
  "e_new_journal sample_env h = Inr (length h)"
  "e_add_match sample_env h j str = None"
  "e_seek_realtime sample_env h j = None"
  "e_seek_tail sample_env h j = None"
  "e_listen sample_env h a = Inr (length h)"
  "e_emit_event sample_env h i = None"
  "e_select_exit sample_env h hid = StopDone"
  "e_stop_late sample_env h = False"
  "e_poll_events sample_env h hid = []"
  "e_regexp_compile sample_env p = Inr (Regexp p)"
  "e_match_string sample_env r u = (r = Regexp u)"
  by (simp_all add: sample_env_def)

lemma sample_nomad_simps [simp]:
  "DecodeDriverConfig sample_nomad c = Inr \<lparr>Unit = ''a.service''\<rparr>"
  "SetDriverState sample_nomad uc = Inr (Unit uc)"
  "GetDriverState sample_nomad str = Inr \<lparr>Unit = str\<rparr>"
  "MsgPackDecode sample_nomad str = Inr \<lparr>AllowedUnits = [], DeniedUnits = [], PprofAddr = ''''\<rparr>"
  by (simp_all add: sample_nomad_def)

lemma sample_task_simps [simp]:
  "ID (sample_task i) = i" "AllocID (sample_task i) = ''alloc''" "Name (sample_task i) = ''web''"
  by (simp_all add: sample_task_def)

section \<open>A Manager\<close>

text \<open>What \<open>NewManager\<close> makes in this world, and the Manager with one unit and its journal reader.\<close>

definition sample_mgr :: manager where
  "sample_mgr = \<lparr>conn = Some 0, units = [], stopping = False, journalWg = 0, compute = 4000,
     cgroupRoot = cgroupV2Root, ctxDone = False, wg = 0, wakes = [], readers = []\<rparr>"

definition sample_unit :: unitState where
  "sample_unit = \<lparr>wake = 0, cancelJournal = Some 0, controlGroup = ''/a'', cachedAt = Some 5, cpu = None\<rparr>"

definition sample_reader :: reader where
  "sample_reader = \<lparr>rd_unit = ''a.service'', rd_logCh = 0, rd_journal = 6, rd_canceled = False, rd_done = False\<rparr>"

definition sample_mgr1 :: manager where
  "sample_mgr1 = sample_mgr\<lparr>units := [(''a.service'', sample_unit)], journalWg := 1,
     wakes := [False], readers := [sample_reader]\<rparr>"

lemma sample_mgr_simps [simp]:
  "conn sample_mgr = Some 0" "units sample_mgr = []" "stopping sample_mgr = False"
  "journalWg sample_mgr = 0" "compute sample_mgr = 4000" "cgroupRoot sample_mgr = cgroupV2Root"
  "ctxDone sample_mgr = False" "wg sample_mgr = 0" "wakes sample_mgr = []" "readers sample_mgr = []"
  by (simp_all add: sample_mgr_def)

lemma sample_unit_simps [simp]:
  "wake sample_unit = 0" "cancelJournal sample_unit = Some 0" "controlGroup sample_unit = ''/a''"
  "cachedAt sample_unit = Some 5" "cpu sample_unit = None"
  by (simp_all add: sample_unit_def)

lemma sample_reader_simps [simp]:
  "rd_unit sample_reader = ''a.service''" "rd_logCh sample_reader = 0" "rd_journal sample_reader = 6"
  "\<not> rd_canceled sample_reader" "\<not> rd_done sample_reader"
  by (simp_all add: sample_reader_def)

lemma sample_mgr1_simps [simp]:
  "conn sample_mgr1 = Some 0" "units sample_mgr1 = [(''a.service'', sample_unit)]"
  "stopping sample_mgr1 = False" "journalWg sample_mgr1 = 1" "compute sample_mgr1 = 4000"
  "cgroupRoot sample_mgr1 = cgroupV2Root" "ctxDone sample_mgr1 = False" "wg sample_mgr1 = 0"
  "wakes sample_mgr1 = [False]" "readers sample_mgr1 = [sample_reader]"
  by (simp_all add: sample_mgr1_def)

definition sample_hist0 :: "call list" where
  "sample_hist0 = [Dial DriverCtx, Subscribe 0, SetPropertiesSubscriber 0]"

definition sample_hist1 :: "call list" where
  "sample_hist1 = sample_hist0 @ [Connected 0,
     GetUnitProperties 0 (opContext DriverCtx propertyTimeout) ''a.service'', Now, NewJournal,
     AddMatch 6 ''_SYSTEMD_UNIT=a.service'', Now, SeekRealtimeUsec 6 0]"

lemma sample_hist_open [simp]: "CloseConn k \<notin> set sample_hist0" "CloseConn k \<notin> set sample_hist1"
  by (simp_all add: sample_hist0_def sample_hist1_def)

abbreviation sample_s0 :: mstate where
  "sample_s0 \<equiv> \<lparr>hist = sample_hist0, mgr = sample_mgr\<rparr>"

abbreviation sample_s1 :: mstate where
  "sample_s1 \<equiv> \<lparr>hist = sample_hist1, mgr = sample_mgr1\<rparr>"

lemma sample_NewManager:
  "run_state (NewManager sample_env DriverCtx 4000) (\<lparr>hist = []\<rparr> :: world) =
     (Inr sample_mgr, \<lparr>hist = sample_hist0\<rparr>)"
  by (simp add: NewManager_def subscribeToPropertyChanges_def sample_mgr_def sample_hist0_def)

lemma sample_reachable0: "mgr_reachable sample_env sample_s0"
  unfolding mgr_reachable_def
  by (rule exI [of _ "\<lparr>hist = []\<rparr>"], rule exI [of _ DriverCtx], rule exI [of _ 4000])
     (simp add: sample_NewManager no_step)

lemma sample_stream:
  "exec (StreamLogs sample_env ''a.service'' 0)
     (exec (RegisterUnit sample_env DriverCtx ''a.service'') sample_s0) = sample_s1"
  by (simp add: RegisterUnit_def cacheUnitProperties_def getConn_def now_def unitLocked_def
      new_unitState_def StreamLogs_def registered_def startJournalReader_def sample_hist0_def
      sample_hist1_def sample_mgr_def sample_mgr1_def sample_unit_def sample_reader_def)

lemma mgr_reachable_step: "mgr_reachable env s \<Longrightarrow> mgr_step env s t \<Longrightarrow> mgr_reachable env t"
  unfolding mgr_reachable_def by (blast intro: one_more)

lemma sample_reachable1: "mgr_reachable sample_env sample_s1"
  using mgr_reachable_step [OF mgr_reachable_step [OF sample_reachable0 step_register] step_stream]
  by (metis sample_stream)

end
