(* ===== verification/ManagerSafety.thy ===== *)
theory ManagerSafety
  imports ManagerProps Sample
begin

text \<open>
  What the Manager guarantees: one live journal reader per unit, nothing left running after
  \<open>Stop\<close>, what registering and unregistering a unit does to the readers and wake channels, what the
  job operations report, and how the background loops behave.
\<close>

section \<open>Readers and registrations\<close>

lemma live_reader_frame [simp]:
  "live_reader (m\<lparr>units := us\<rparr>) q = live_reader m q"
  "live_reader (m\<lparr>wakes := ws\<rparr>) q = live_reader m q"
  by (simp_all add: live_reader_def)

text \<open>C16: In every state a Manager reaches, a journal reader whose context has not been cancelled is
  the one its unit's registration names, so no unit ever has two of them; every registered unit has
  a wake channel that exists and that no other unit shares; and \<open>journalWg\<close> counts the readers that
  have not returned.\<close>

theorem one_live_reader_per_unit:
  assumes "mgr_reachable env s" "m = mgr s"
  shows "(\<forall>r. live_reader m r \<longrightarrow> reader_of m (rd_unit (readers m ! r)) = Some r) \<and>
    (\<forall>u r. reader_of m u = Some r \<longrightarrow> live_reader m r) \<and>
    (\<forall>u w. wake_of m u = Some w \<longrightarrow> w < length (wakes m) \<and> (\<forall>v. wake_of m v = Some w \<longrightarrow> v = u)) \<and>
    journalWg m = card {r. r < length (readers m) \<and> \<not> rd_done (readers m ! r)}"
proof -
  have "wf_mgr m"
    using assms by (simp add: reachable_wf)
  moreover have "count_list xs False = card {i. i < length xs \<and> \<not> xs ! i}" for xs
    by (simp add: count_list_eq_length_filter length_filter_conv_card)
  ultimately show ?thesis
    by (auto simp: wf_mgr_def running_readers_def cong: conj_cong)
qed

theorem one_live_reader_per_unit_witness:
  "reader_of sample_mgr1 ''a.service'' = Some 0 \<and> live_reader sample_mgr1 0 \<and> journalWg sample_mgr1 = 1"
proof -
  have "live_reader sample_mgr1 0"
    by (simp add: live_reader_def)
  then show ?thesis
    using one_live_reader_per_unit [OF sample_reachable1 refl] by auto
qed

text \<open>C17: \<open>RegisterUnit\<close> gives the unit a new, empty wake channel and no journal reader, cancels
  the reader its previous registration had and no other, and changes the registration of no other
  unit; \<open>UnregisterUnit\<close> removes the registration and does the same to the reader.\<close>

theorem registration_replaces:
  assumes "mgr_reachable env s" "m = mgr s"
    and "r = mgr (exec (RegisterUnit env ctx u) s)" "d = mgr (exec (UnregisterUnit u) s)"
  shows "(wake_of r u = Some (length (wakes m)) \<and> wakes r = wakes m @ [False] \<and> reader_of r u = None \<and>
      (\<forall>v. v \<noteq> u \<longrightarrow> unitLocked v r = unitLocked v m) \<and>
      (\<forall>q. live_reader r q \<longleftrightarrow> live_reader m q \<and> rd_unit (readers m ! q) \<noteq> u)) \<and>
    (unitLocked u d = None \<and> wakes d = wakes m \<and> (\<forall>v. v \<noteq> u \<longrightarrow> unitLocked v d = unitLocked v m) \<and>
      (\<forall>q. live_reader d q \<longleftrightarrow> live_reader m q \<and> rd_unit (readers m ! q) \<noteq> u))"
proof -
  have wf: "wf_mgr m"
    using assms by (simp add: reachable_wf)
  then have gone: "reader_of m u \<noteq> Some q \<longleftrightarrow> rd_unit (readers m ! q) \<noteq> u" if "live_reader m q" for q
    using wf_mgr_reader_iff that by blast
  obtain st where st: "r = register_m u m \<or>
      r = (register_m u m)\<lparr>units := AList.update u st (units (register_m u m))\<rparr> \<and>
      wake st = length (wakes m) \<and> cancelJournal st = None"
    using cache_registered [of env ctx u "s\<lparr>mgr := register_m u m\<rparr>"] assms
    by (auto simp: run_RegisterUnit register_m_def new_unitState_def)
  have "wake_of r u = Some (length (wakes m)) \<and> wakes r = wakes m @ [False] \<and> reader_of r u = None \<and>
      (\<forall>v. v \<noteq> u \<longrightarrow> unitLocked v r = unitLocked v m) \<and>
      (\<forall>q. live_reader r q \<longleftrightarrow> live_reader m q \<and> rd_unit (readers m ! q) \<noteq> u)"
    using st gone
    by (auto simp: register_m_def wake_of_def reader_of_def new_unitState_def unitLocked_def)
  moreover have "unitLocked u d = None \<and> wakes d = wakes m \<and>
      (\<forall>v. v \<noteq> u \<longrightarrow> unitLocked v d = unitLocked v m) \<and>
      (\<forall>q. live_reader d q \<longleftrightarrow> live_reader m q \<and> rd_unit (readers m ! q) \<noteq> u)"
    using gone assms by (auto simp: run_UnregisterUnit unregister_m_def)
  ultimately show ?thesis ..
qed

theorem registration_replaces_witness:
  "\<not> live_reader (mgr (exec (UnregisterUnit ''a.service'') sample_s1)) 0"
  using registration_replaces [OF sample_reachable1 refl refl refl, where u = "''a.service''"]
  by simp

section \<open>Stop\<close>

lemma Manager_Stop_closes:
  "conn (mgr s) = Some k \<Longrightarrow> \<exists>cs. hist (exec Manager_Stop s) = cs @ [CloseConn k]"
  by (simp add: Manager_Stop_def waitLoops_def waitJournal_def exec_bind result_bind cancels_mgr
      mgr_finish_all del: run_state_bind)

lemma stopping_no_stream:
  assumes "stopping (mgr s)"
  shows "result (StreamLogs env u logCh) s \<noteq> None"
  using assms
  by (auto simp: StreamLogs_def registered_def now_def startJournalReader_def
      split: option.split sum.split)

text \<open>C18: \<open>Stop\<close> returns only when everything the Manager started has returned: both background
  loops, and every journal reader; it clears the table of units and closes the connection. It is
  final: however the Manager is used afterwards, \<open>StreamLogs\<close> fails and no reader exists that has
  not returned.\<close>

theorem Stop_is_final:
  assumes "mgr_reachable env s" "mgr_steps env (exec Manager_Stop s) t"
  shows "quiet (mgr (exec Manager_Stop s)) \<and>
    (\<forall>k. conn (mgr s) = Some k \<longrightarrow> last (hist (exec Manager_Stop s)) = CloseConn k) \<and>
    length (readers (mgr t)) = length (readers (mgr s)) \<and> journalWg (mgr t) = 0 \<and>
    (\<forall>r < length (readers (mgr t)). rd_done (readers (mgr t) ! r)) \<and>
    (\<forall>u logCh. result (StreamLogs env u logCh) t \<noteq> None)"
proof -
  let ?m = "mgr (exec Manager_Stop s)"
  have q: "quiet ?m"
    using assms(1) by (simp add: mgr_Manager_Stop quiet_stopped_m reachable_wf)
  have "length (readers ?m) = length (readers (mgr s))"
    by (simp add: mgr_Manager_Stop stopped_m_eq)
  then have "closed_down (length (readers (mgr s))) (mgr t)"
    using quiet_closed_down [OF q] down.steps_keep [OF assms(2)] by simp
  then show ?thesis
    using q Manager_Stop_closes [of s] stopping_no_stream [of t env]
    by (auto simp: closed_down_def)
qed

theorem Stop_is_final_witness:
  "quiet (mgr (exec Manager_Stop sample_s1)) \<and>
   result (StreamLogs sample_env ''a.service'' 0)
     (exec (RegisterUnit sample_env DriverCtx ''a.service'') (exec Manager_Stop sample_s1)) \<noteq> None"
  using Stop_is_final [OF sample_reachable1 one_more [OF no_step step_register]] by blast

section \<open>Job operations\<close>

definition up :: "env \<Rightarrow> mstate \<Rightarrow> nat \<Rightarrow> bool" where
  "up env s k \<longleftrightarrow> conn (mgr s) = Some k \<and> e_connected env (hist s) k"

definition wake_m :: "string \<Rightarrow> manager \<Rightarrow> manager" where
  "wake_m u m = (case unitLocked u m of None \<Rightarrow> m | Some st \<Rightarrow> m\<lparr>wakes := (wakes m)[wake st := True]\<rparr>)"

lemma run_wakeUnit: "run_state (wakeUnit u) s = ((), s\<lparr>mgr := wake_m u (mgr s)\<rparr>)"
  by (simp add: wakeUnit_def wake_m_def split: option.split)

lemma run_waitJobResult:
  "run_state (waitJobResult env ctx u act) s =
     (case e_wait_job env (hist s) u act of
        JobResult res \<Rightarrow>
          (if res = ''done'' then None
           else Some (Errorf ''%s unit %s: job result %q'' [AStr act, AStr u, AStr res]))
      | CtxDone err \<Rightarrow> Some (Wrapf ''%s unit %s: waiting for job result: %w'' [AStr act, AStr u] err),
      s\<lparr>hist := hist s @ [WaitJob ctx u act]\<rparr>)"
  by (simp add: waitJobResult_def split: job_wait.split)

lemma mgr_StopUnit: "mgr (exec (StopUnit env ctx u) s) = wake_m u (mgr s)"
  and mgr_KillUnit: "mgr (exec (KillUnit env ctx u) s) = wake_m u (mgr s)"
  by (simp_all add: StopUnit_def KillUnit_def run_getConn run_waitJobResult run_wakeUnit opContext_def Let_def
      split: option.split)

text \<open>C19: \<open>StartUnit\<close> and \<open>StopUnit\<close> report success exactly when the connection is up, systemd has
  accepted the job, and the job's result is \<open>done\<close>; any other result of the job (\<open>failed\<close>,
  \<open>timeout\<close>, \<open>canceled\<close>, ...) and the end of the context are errors. Every wait is bounded by the
  job timeout, in a context derived from the caller's.\<close>

theorem job_succeeds_iff_done:
  "(result (StartUnit env ctx u) s = None \<longleftrightarrow>
      (\<exists>k. up env s k \<and> e_start_unit env (hist s @ [Connected k]) k u = None \<and>
         e_wait_job env (hist s @ [Connected k, StartUnitContext k (OpCtx ctx jobTimeout) u ''replace''])
           u ''start'' = JobResult ''done'')) \<and>
   (result (StopUnit env ctx u) s = None \<longleftrightarrow>
      (\<exists>k. up env s k \<and> e_stop_unit env (hist s @ [Connected k]) k u = None \<and>
         e_wait_job env (hist s @ [Connected k, StopUnitContext k (OpCtx ctx jobTimeout) u ''replace''])
           u ''stop'' = JobResult ''done''))"
  by (simp add: StartUnit_def StopUnit_def run_getConn run_waitJobResult run_wakeUnit up_def
      opContext_def Let_def split: option.split job_wait.split)

text \<open>\<open>StopUnit\<close> and \<open>KillUnit\<close> leave a wake-up pending for the handler of a registered unit
  whatever they return, so an error never leaves the handler unaware of a unit that went down;
  they change nothing else of the Manager.\<close>

lemma stop_and_kill_wake:
  assumes "mgr_reachable env s" "wake_of (mgr s) u = Some w"
  shows "mgr (exec (StopUnit env ctx u) s) = (mgr s)\<lparr>wakes := (wakes (mgr s))[w := True]\<rparr> \<and>
    mgr (exec (KillUnit env ctx u) s) = (mgr s)\<lparr>wakes := (wakes (mgr s))[w := True]\<rparr> \<and>
    result (recvWake w) (exec (StopUnit env ctx u) s) \<and>
    result (recvWake w) (exec (KillUnit env ctx u) s)"
proof -
  have "w < length (wakes (mgr s))"
    using reachable_wf [OF assms(1)] assms(2) by (auto simp: wf_mgr_def)
  moreover have "mgr (exec (StopUnit env ctx u) s) = (mgr s)\<lparr>wakes := (wakes (mgr s))[w := True]\<rparr>"
    "mgr (exec (KillUnit env ctx u) s) = (mgr s)\<lparr>wakes := (wakes (mgr s))[w := True]\<rparr>"
    using assms(2) by (auto simp: mgr_StopUnit mgr_KillUnit wake_m_def wake_of_def)
  ultimately show ?thesis
    by (simp add: recvWake_def)
qed

section \<open>Reading a unit's properties\<close>

text \<open>\<open>UnitState\<close>, \<open>UnitStartTime\<close> and \<open>UnitExitStatus\<close> return a value exactly when the
  connection is up and the property has the type systemd documents for it: a string, a non-zero
  count of microseconds, two 32-bit integers. Everything else, a missing property included, is an
  error and never a default.\<close>

lemma property_reads:
  "(result (UnitState env ctx u) s = Inr st \<longleftrightarrow>
      (\<exists>k. up env s k \<and> e_get_property env (hist s @ [Connected k]) k u ''ActiveState'' =
         Inr (VString st))) \<and>
   (result (UnitStartTime env ctx u) s = Inr t \<longleftrightarrow>
      (\<exists>k v usec. up env s k \<and>
         e_get_property env (hist s @ [Connected k]) k u ''ActiveEnterTimestamp'' = Inr v \<and>
         parseTimestampUsec v = Some usec \<and> usec \<noteq> 0 \<and> t = UnixMicro usec)) \<and>
   (result (UnitExitStatus env ctx u) s = Inr x \<longleftrightarrow>
      (\<exists>k props. up env s k \<and>
         e_get_type_properties env (hist s @ [Connected k]) k u ''Service'' = Inr props \<and>
         map_of props ''ExecMainCode'' = Some (VInt32 (Code x)) \<and>
         map_of props ''ExecMainStatus'' = Some (VInt32 (Status x))))"
proof (intro conjI)
  show "result (UnitState env ctx u) s = Inr st \<longleftrightarrow>
      (\<exists>k. up env s k \<and> e_get_property env (hist s @ [Connected k]) k u ''ActiveState'' =
         Inr (VString st))"
    by (auto simp: UnitState_def run_getConn up_def ParseUnitState_def
        split: option.split sum.split variant.split)
  show "result (UnitStartTime env ctx u) s = Inr t \<longleftrightarrow>
      (\<exists>k v usec. up env s k \<and>
         e_get_property env (hist s @ [Connected k]) k u ''ActiveEnterTimestamp'' = Inr v \<and>
         parseTimestampUsec v = Some usec \<and> usec \<noteq> 0 \<and> t = UnixMicro usec)"
    by (auto simp: UnitStartTime_def run_getConn up_def split: option.split sum.split)
  show "result (UnitExitStatus env ctx u) s = Inr x \<longleftrightarrow>
      (\<exists>k props. up env s k \<and>
         e_get_type_properties env (hist s @ [Connected k]) k u ''Service'' = Inr props \<and>
         map_of props ''ExecMainCode'' = Some (VInt32 (Code x)) \<and>
         map_of props ''ExecMainStatus'' = Some (VInt32 (Status x)))"
    by (auto simp: UnitExitStatus_def run_getConn up_def split: option.split sum.split variant.split)
qed

section \<open>Background loops\<close>

fun updates :: "dispatch_event list \<Rightarrow> string set" where
  "updates (PropUpdate u # evs) = insert u (updates evs)"
| "updates (PropErr _ # evs) = updates evs"
| "updates _ = {}"

text \<open>The dispatch loop wakes exactly the units systemd reported a change of: after any sequence
  of updates and subscription errors, up to the end of the context, a wake-up is pending for a
  registered unit if and only if one was pending before or an update named the unit. Bursts of
  updates collapse into one pending wake-up and an update of a unit that is not registered does
  nothing.\<close>

lemma dispatch_wakes_updated:
  assumes "mgr_reachable env s" "wake_of (mgr s) u = Some w"
  shows "wakes (mgr (exec (propertiesDispatchLoop evs) s)) ! w \<longleftrightarrow>
    wakes (mgr s) ! w \<or> u \<in> updates evs"
proof -
  have inv: "wf_mgr (mgr s)"
    using assms by (simp add: reachable_wf)
  then show ?thesis
    using assms(2)
  proof (induction evs arbitrary: s rule: propertiesDispatchLoop.induct)
    case (3 v evs)
    let ?s = "s\<lparr>mgr := wake_m v (mgr s)\<rparr>"
    have "wf_mgr (mgr ?s)"
      using keepsD [OF wf.wakeUnit_keeps 3(2)] by (simp add: run_wakeUnit)
    moreover have "wake_of (mgr ?s) = wake_of (mgr s)"
      by (auto simp: wake_m_def wake_of_def split: option.split)
    moreover have "wakes (mgr ?s) ! w \<longleftrightarrow> wakes (mgr s) ! w \<or> u = v"
      using 3(2,3) by (auto simp: wake_m_def wf_mgr_def wake_of_def nth_upd split: option.split)
    ultimately show ?case
      using 3(1) [of ?s] 3(3) by (auto simp: run_wakeUnit)
  qed simp_all
qed

section \<open>Reconnecting\<close>

lemma run_Healthy:
  "run_state (Healthy env) s =
     (case conn (mgr s) of
        None \<Rightarrow> (False, s)
      | Some k \<Rightarrow> (e_connected env (hist s) k, s\<lparr>hist := hist s @ [Connected k]\<rparr>))"
  by (simp add: Healthy_def split: option.split)

lemma backoff_const: "reconnectInterval \<le> reconnectBackoffMax" "0 < reconnectInterval"
  by (simp_all add: reconnectInterval_def reconnectBackoffMax_def)

lemma tick_bounds:
  "reconnectInterval \<le> b \<Longrightarrow> b \<le> reconnectBackoffMax \<Longrightarrow>
   reconnectInterval \<le> result (reconnectTick env b) s \<and>
   result (reconnectTick env b) s \<le> reconnectBackoffMax"
  using backoff_const by (auto simp: reconnectTick_def result_bind simp del: run_state_bind)

lemma loop_bounds:
  "reconnectInterval \<le> b \<Longrightarrow> b \<le> reconnectBackoffMax \<Longrightarrow>
   d \<in> set (result (reconnectLoop env b n) s) \<Longrightarrow> reconnectInterval \<le> d \<and> d \<le> reconnectBackoffMax"
proof (induction n arbitrary: b s)
  case (Suc n)
  then show ?case
    using tick_bounds [of b env s] by (auto simp: result_bind simp del: run_state_bind)
qed simp

text \<open>systemd is unreachable: every dial fails and every connection is down.\<close>

definition unreachable :: "env \<Rightarrow> bool" where
  "unreachable env \<longleftrightarrow> (\<forall>h k. \<not> e_connected env h k) \<and> (\<forall>h. isl (e_dial env h))"

lemma tick_unreachable:
  assumes "unreachable env"
  shows "result (reconnectTick env b) s = min (b * 2) reconnectBackoffMax \<and>
    mgr (exec (reconnectTick env b) s) = mgr s"
proof -
  have "\<exists>err. e_dial env = (\<lambda>h. Inl (err h))"
    using assms by (intro exI [of _ "\<lambda>h. projl (e_dial env h)"]) (simp add: unreachable_def)
  then obtain err where "e_dial env = (\<lambda>h. Inl (err h))" ..
  then show ?thesis
    using assms
    by (simp add: unreachable_def reconnectTick_def run_Healthy tryReconnect_def split: option.split)
qed

lemma min_double: "min (min (a * 2 ^ i) m * 2) m = min (a * 2 ^ Suc i) (m :: nat)"
  by (auto simp: min_def)

lemma loop_unreachable:
  assumes "unreachable env"
  shows "result (reconnectLoop env (min (a * 2 ^ i) reconnectBackoffMax) n) s =
    map (\<lambda>j. min (a * 2 ^ j) reconnectBackoffMax) [i..<i + Suc n]"
proof (induction n arbitrary: i s)
  case (Suc n)
  then show ?case
    using tick_unreachable [OF assms] min_double [of a i reconnectBackoffMax]
    by (simp add: result_bind upt_conv_Cons del: run_state_bind upt_Suc power_Suc)
qed simp

text \<open>C29: The delay between two reconnect attempts always lies between 10 seconds and 5 minutes. While
  systemd stays unreachable it doubles from one attempt to the next up to that maximum (the
  \<open>i\<close>-th is the smaller of \<open>10 s * 2^i\<close> and \<open>5 min\<close>), and nothing of the Manager changes.\<close>

theorem reconnect_backoff:
  "set (result (reconnectLoop env reconnectInterval n) s) \<subseteq> {10000..300000} \<and>
   (unreachable env \<longrightarrow>
      result (reconnectLoop env reconnectInterval n) s =
        map (\<lambda>i. min (10000 * 2 ^ i) 300000) [0..<Suc n] \<and>
      mgr (exec (reconnectTick env b) s) = mgr s)"
proof -
  have "reconnectInterval = min (reconnectInterval * 2 ^ 0) reconnectBackoffMax"
    using backoff_const by simp
  then have "result (reconnectLoop env reconnectInterval n) s =
      map (\<lambda>j. min (reconnectInterval * 2 ^ j) reconnectBackoffMax) [0..<Suc n]" if "unreachable env"
    using loop_unreachable [OF that, of reconnectInterval 0 n s] by simp
  moreover have "set (result (reconnectLoop env reconnectInterval n) s) \<subseteq>
      {reconnectInterval..reconnectBackoffMax}"
    using loop_bounds [OF order_refl backoff_const(1), of _ env n s] by auto
  ultimately show ?thesis
    using tick_unreachable [of env b s]
    unfolding reconnectInterval_def reconnectBackoffMax_def by blast
qed

theorem reconnect_backoff_witness:
  "result (reconnectLoop (sample_env\<lparr>e_connected := \<lambda>_ _. False, e_dial := \<lambda>_. Inl (External ''x'')\<rparr>)
     reconnectInterval 6) sample_s1 = [10000, 20000, 40000, 80000, 160000, 300000, 300000]"
proof -
  have "[0..<7] = [0, 1, 2, 3, 4, 5, 6 :: nat]"
    by code_simp
  then show ?thesis
    using reconnect_backoff [where n = 6 and env = "sample_env\<lparr>e_connected := \<lambda>_ _. False, e_dial := \<lambda>_. Inl (External ''x'')\<rparr>"]
    by (simp add: unreachable_def del: reconnectLoop.simps upt_Suc)
qed

text \<open>What refreshing the cached properties of units leaves alone.\<close>

definition same_handles :: "manager \<Rightarrow> manager \<Rightarrow> bool" where
  "same_handles m n \<longleftrightarrow> wake_of n = wake_of m \<and> reader_of n = reader_of m \<and> wakes n = wakes m \<and>
     readers n = readers m \<and> journalWg n = journalWg m \<and> stopping n = stopping m"

lemma touch_same_handles:
  assumes "unitLocked u n = Some old" "wake st = wake old" "cancelJournal st = cancelJournal old"
  shows "same_handles m (n\<lparr>units := AList.update u st (units n)\<rparr>) = same_handles m n"
proof -
  have "wake_of (n\<lparr>units := AList.update u st (units n)\<rparr>) = wake_of n"
    "reader_of (n\<lparr>units := AList.update u st (units n)\<rparr>) = reader_of n"
    using assms by (auto simp: wake_of_def reader_of_def)
  then show ?thesis by (simp add: same_handles_def)
qed

lemma cache_same_handles:
  "keeps (\<lambda>n. same_handles m n \<and> conn n = c) (cacheUnitProperties env ctx u)"
proof (rule keepsI)
  fix s :: mstate
  assume "same_handles m (mgr s) \<and> conn (mgr s) = c"
  then show "same_handles m (mgr (exec (cacheUnitProperties env ctx u) s)) \<and>
      conn (mgr (exec (cacheUnitProperties env ctx u) s)) = c"
    using cache_registered [of env ctx u s]
    by (auto simp: touch_same_handles)
qed

lemma mgr_subscribe: "mgr (exec (subscribeToPropertyChanges env k) s) = mgr s"
  by (simp add: subscribeToPropertyChanges_def split: option.split)

lemma mgr_setConn: "mgr (exec (setConn k) s) = (mgr s)\<lparr>conn := Some k\<rparr>"
  by (simp add: setConn_def split: option.split)

text \<open>An attempt to reconnect succeeds exactly when the dial does. A failed attempt leaves the
  Manager as it is. A successful one installs the new connection and refreshes cached unit
  properties, and keeps every registration with its wake channel and journal reader, so the
  handlers that hold them go on working.\<close>

lemma reconnect_keeps_registrations:
  "(case e_dial env (hist s) of
      Inl _ \<Rightarrow> \<not> result (tryReconnect env) s \<and> mgr (exec (tryReconnect env) s) = mgr s
    | Inr k \<Rightarrow> result (tryReconnect env) s \<and> conn (mgr (exec (tryReconnect env) s)) = Some k \<and>
        same_handles (mgr s) (mgr (exec (tryReconnect env) s)))"
proof (cases "e_dial env (hist s)")
  case (Inr k)
  let ?s1 = "exec (setConn k) (exec (subscribeToPropertyChanges env k) (s\<lparr>hist := hist s @ [Dial ManagerCtx]\<rparr>))"
  have m: "mgr ?s1 = (mgr s)\<lparr>conn := Some k\<rparr>"
    by (simp add: mgr_setConn mgr_subscribe)
  have "same_handles (mgr s) (mgr ?s1) \<and> conn (mgr ?s1) = Some k"
    unfolding m by (simp add: same_handles_def wake_of_def reader_of_def fun_eq_iff)
  then have "same_handles (mgr s) (mgr (exec (for_each (cacheUnitProperties env ManagerCtx) us) ?s1)) \<and>
      conn (mgr (exec (for_each (cacheUnitProperties env ManagerCtx) us) ?s1)) = Some k" for us
    by (rule keepsD [OF keeps_for_each [OF cache_same_handles]])
  with Inr show ?thesis
    by (simp add: tryReconnect_def exec_bind result_bind del: run_state_bind)
qed (simp add: tryReconnect_def)

end
