(* ===== verification/CgroupProps.thy ===== *)
theory CgroupProps
  imports Sample
begin

text \<open>
  The resource statistics: the in-place scanner of cgroup files is a visit of their parsed lines
  (so what it reads back from a file the kernel prints is what was printed), what a memory sample
  contains, and when \<open>ResourceStats\<close> fails.
\<close>

section \<open>The scanner is a fold over the lines\<close>

text \<open>A reference: cut the file into lines, parse each, visit them until the callback says stop.\<close>

function file_lines :: "string \<Rightarrow> string list" where
  "file_lines data = (if data = [] then [] else fst (next_line data) # file_lines (snd (next_line data)))"
  by pat_completeness auto
termination
  by (relation "measure length") (auto dest: next_line_less)

declare file_lines.simps [simp del]

definition kv_lines :: "string \<Rightarrow> (string \<times> 64 word) list" where
  "kv_lines data = List.map_filter parse_line (file_lines data)"

fun visit :: "(string \<Rightarrow> 64 word \<Rightarrow> ('s, bool) state) \<Rightarrow> (string \<times> 64 word) list \<Rightarrow> ('s, unit) state" where
  "visit fn [] = ret ()"
| "visit fn ((k, v) # kvs) = do { more \<leftarrow> fn k v; if more then visit fn kvs else ret () }"

lemma kv_lines_step:
  "data \<noteq> [] \<Longrightarrow> kv_lines data =
     (case parse_line (fst (next_line data)) of
        None \<Rightarrow> kv_lines (snd (next_line data))
      | Some kv \<Rightarrow> kv # kv_lines (snd (next_line data)))"
  by (simp add: kv_lines_def file_lines.simps [of data] List.map_filter_simps split: option.split)

lemma scan_visit: "scanCgroupKeyValue data fn = visit fn (kv_lines data)"
proof (induction data fn rule: scanCgroupKeyValue.induct)
  case (1 data fn)
  show ?case
  proof (cases "data = []")
    case True
    then show ?thesis
      by (simp add: scanCgroupKeyValue.simps kv_lines_def file_lines.simps List.map_filter_simps)
  next
    case False
    then show ?thesis
      using 1
      by (subst scanCgroupKeyValue.simps)
         (auto simp: kv_lines_step parse_line_def split: prod.split option.split sum.split
            intro!: arg_cong2 [of _ _ _ _ State_Monad.bind] ext)
  qed
qed

text \<open>A file as the kernel prints it.\<close>

fun render :: "(string \<times> 64 word) list \<Rightarrow> string" where
  "render [] = []"
| "render ((k, v) # kvs) = k @ CHR '' '' # show_nat (unat v) @ CHR 0x0A # render kvs"

definition plain_key :: "string \<Rightarrow> bool" where
  "plain_key k \<longleftrightarrow> CHR '' '' \<notin> set k \<and> CHR 0x0A \<notin> set k"

lemma digit_not_space: "is_digit c \<Longrightarrow> c \<noteq> CHR 0x0A"
  by (auto simp: is_digit_def digit_val_def Let_def split: if_splits)

lemma trim_digits:
  assumes "list_all is_digit s"
  shows "TrimSpace s = s"
proof -
  have digit: "c \<notin> hd ` set space_encodings \<and> c \<notin> last ` set space_encodings" if "is_digit c" for c
    using that by (auto simp: is_digit_def digit_val_def Let_def space_encodings_def split: if_splits)
  have "hd w \<noteq> hd s" if "w \<in> set space_encodings" "s \<noteq> []" for w
    using that digit [of "hd s"] assms by (metis hd_in_set imageI list_all_iff)
  then have left: "trim_left space_encodings s = s"
    by (intro trim_left_no_space) auto
  have "hd w \<noteq> hd (rev s)" if "w \<in> set (map rev space_encodings)" "s \<noteq> []" for w
    using that digit [of "last s"] assms by (auto simp: list_all_iff hd_rev)
      (metis imageI)
  then have "trim_left (map rev space_encodings) (rev s) = rev s"
    by (intro trim_left_no_space) auto
  with left show ?thesis
    by (simp add: TrimSpace_def)
qed

lemma parse_rendered:
  "plain_key k \<Longrightarrow> parse_line (k @ CHR '' '' # show_nat (unat v)) = Some (k, v)"
proof -
  assume k: "plain_key k"
  have "unat v < 2 ^ LENGTH(64)"
    by (rule unsigned_less)
  then show ?thesis
    using k show_nat_digits [of "unat v"]
    by (simp add: parse_line_def plain_key_def Cut_append trim_digits ParseUint_show)
qed

lemma kv_lines_render:
  "list_all (\<lambda>(k, v). plain_key k) kvs \<Longrightarrow> kv_lines (render kvs) = kvs"
proof (induction kvs rule: render.induct)
  case 1
  then show ?case by (simp add: kv_lines_def file_lines.simps List.map_filter_simps)
next
  case (2 k v kvs)
  let ?line = "k @ CHR '' '' # show_nat (unat v)"
  have "CHR 0x0A \<notin> set ?line"
    using 2(2) show_nat_digits [of "unat v"] digit_not_space
    by (auto simp: plain_key_def list_all_iff)
  then have "next_line (?line @ CHR 0x0A # render kvs) = (?line, render kvs)"
    using IndexByte_append [of "CHR 0x0A" ?line "render kvs"] by (simp add: next_line_def)
  then have nl: "next_line (render ((k, v) # kvs)) = (?line, render kvs)"
    by simp
  have "render ((k, v) # kvs) \<noteq> []"
    by simp
  from kv_lines_step [OF this] show ?case
    using 2 unfolding nl by (simp add: parse_rendered)
qed

text \<open>C33: \<open>scanCgroupKeyValue\<close>, whose loop cuts lines off a byte slice in place, calls its callback
  exactly on the lines that have a key, a space and an unsigned 64-bit decimal value, in order,
  and stops as soon as the callback says so; malformed lines cost nothing but themselves. On a file
  the kernel prints it visits the printed pairs.\<close>

theorem scan_visits_lines:
  "scanCgroupKeyValue data fn = visit fn (kv_lines data) \<and>
   (list_all (\<lambda>(k, v). plain_key k) kvs \<longrightarrow> scanCgroupKeyValue (render kvs) fn = visit fn kvs)"
  by (simp add: scan_visit kv_lines_render)

theorem scan_visits_lines_witness:
  "exec (scanCgroupKeyValue (render [(''anon'', 42), (''kernel'', 1), (''file'', 7)]) memStatLine)
     (zero_MemoryStats, False, False) =
   exec (visit memStatLine [(''anon'', 42), (''kernel'', 1), (''file'', 7)]) (zero_MemoryStats, False, False)"
  using scan_visits_lines [of "[]" memStatLine "[(''anon'', 42), (''kernel'', 1), (''file'', 7)]"]
  by (simp add: plain_key_def)

section \<open>A memory sample\<close>

definition key_or :: "64 word \<Rightarrow> string \<Rightarrow> (string \<times> 64 word) list \<Rightarrow> 64 word" where
  "key_or d k kvs = (case map_of kvs k of Some v \<Rightarrow> v | None \<Rightarrow> d)"

lemma key_or_simps [simp]:
  "key_or d k [] = d"
  "key_or d k ((k', v) # kvs) = (if k' = k then v else key_or d k kvs)"
  "k \<notin> fst ` set kvs \<Longrightarrow> key_or d k kvs = d"
  by (simp_all add: key_or_def map_of_eq_None_iff [THEN iffD2])

lemma run_memStatLine:
  "run_state (memStatLine k v) (ms, ha, hf) =
     (if k = ''anon'' then (\<not> hf, ms\<lparr>RSS := v, mem_Measured := mem_Measured ms @ [''RSS'']\<rparr>, True, hf)
      else if k = ''file'' then (\<not> ha, ms\<lparr>Cache := v, mem_Measured := mem_Measured ms @ [''Cache'']\<rparr>, ha, True)
      else (\<not> ha \<or> \<not> hf, ms, ha, hf))"
  by (simp add: memStatLine_def)

lemma visit_memStat:
  assumes "distinct (map fst kvs)" "ha \<longrightarrow> ''anon'' \<notin> fst ` set kvs" "hf \<longrightarrow> ''file'' \<notin> fst ` set kvs"
    "\<not> (ha \<and> hf)"
  shows "\<exists>ms' ha' hf'. exec (visit memStatLine kvs) (ms, ha, hf) = (ms', ha', hf') \<and>
    RSS ms' = key_or (RSS ms) ''anon'' kvs \<and> Cache ms' = key_or (Cache ms) ''file'' kvs \<and>
    Usage ms' = Usage ms \<and>
    set (mem_Measured ms') = set (mem_Measured ms) \<union>
      (if ''anon'' \<in> fst ` set kvs then {''RSS''} else {}) \<union>
      (if ''file'' \<in> fst ` set kvs then {''Cache''} else {})"
  using assms
proof (induction kvs arbitrary: ms ha hf)
  case Nil
  then show ?case by simp
next
  case (Cons kv kvs)
  obtain k v where kv: "kv = (k, v)" by force
  consider "k = ''anon''" | "k = ''file''" | "k \<noteq> ''anon''" "k \<noteq> ''file''" by blast
  then show ?case
  proof cases
    case 1
    then show ?thesis
      using Cons.prems Cons.IH [of True hf "ms\<lparr>RSS := v, mem_Measured := mem_Measured ms @ [''RSS'']\<rparr>"]
      by (cases hf) (auto simp: kv run_memStatLine)
  next
    case 2
    then show ?thesis
      using Cons.prems Cons.IH [of ha True "ms\<lparr>Cache := v, mem_Measured := mem_Measured ms @ [''Cache'']\<rparr>"]
      by (cases ha) (auto simp: kv run_memStatLine)
  next
    case 3
    then show ?thesis
      using Cons.prems Cons.IH [of ha hf ms] by (auto simp: kv run_memStatLine)
  qed
qed

text \<open>What the three accounting files say, whether or not they could be read.\<close>

definition file_kvs :: "error + string \<Rightarrow> (string \<times> 64 word) list" where
  "file_kvs r = (case r of Inr d \<Rightarrow> kv_lines d | Inl _ \<Rightarrow> [])"

definition file_value :: "error + string \<Rightarrow> 64 word option" where
  "file_value r = (case r of
     Inr d \<Rightarrow> (case ParseUint (TrimSpace d) of Inr v \<Rightarrow> Some v | Inl _ \<Rightarrow> None)
   | Inl _ \<Rightarrow> None)"

definition cgroup_file :: "manager \<Rightarrow> string \<Rightarrow> string \<Rightarrow> string" where
  "cgroup_file m path f = Join [Join [cgroupRoot m, path], f]"

text \<open>Only the first \<open>usage_usec\<close> line reaches the tracker.\<close>

lemma visit_cpuStat:
  "exec (visit (cpuStatLine env u) kvs) (s, cs) =
     (case map_of kvs ''usage_usec'' of
        None \<Rightarrow> (s, cs)
      | Some v \<Rightarrow> (exec (calculateCPUPercent env u (v * 1000) cs) s,
                  result (calculateCPUPercent env u (v * 1000) cs) s))"
  by (induction kvs) (auto simp: cpuStatLine_def)

lemma result_calculateCPUPercent:
  "result (calculateCPUPercent env u v cs) s =
     (case unitLocked u (mgr s) of
        None \<Rightarrow> cs
      | Some st \<Rightarrow>
          (let p = e_cpu_percent env (hist s) (compute (mgr s)) (case cpu st of None \<Rightarrow> [] | Some xs \<Rightarrow> xs) v
           in cs\<lparr>Percent := p, TotalTicks := e_cpu_ticks env (compute (mgr s)) p,
                  cpu_Measured := [''Percent'', ''Total Ticks'']\<rparr>))"
  by (simp add: calculateCPUPercent_def Let_def split: option.split)

lemma run_readCgroupV2File:
  "run_state (readCgroupV2File env path) s =
     (case e_read_file env (hist s) path of
        Inl err \<Rightarrow> Inl err
      | Inr data \<Rightarrow>
          (case ParseUint (TrimSpace data) of
             Inl err \<Rightarrow> Inl (Wrapf ''parse %s: %w'' [AStr path] err)
           | Inr v \<Rightarrow> Inr v),
      s\<lparr>hist := hist s @ [ReadFile path]\<rparr>)"
  by (simp add: readCgroupV2File_def)

definition mem_sample :: "error + string \<Rightarrow> error + string \<Rightarrow> MemoryStats" where
  "mem_sample cur stat =
     (let ms0 = (case file_value cur of
           Some v \<Rightarrow> zero_MemoryStats\<lparr>Usage := v, mem_Measured := [''Usage'']\<rparr>
         | None \<Rightarrow> zero_MemoryStats)
      in fst (exec (visit memStatLine (file_kvs stat)) (ms0, False, False)))"

definition cpu_sample :: "env \<Rightarrow> string \<Rightarrow> mstate \<Rightarrow> error + string \<Rightarrow> CpuStats" where
  "cpu_sample env u s stat =
     (case map_of (file_kvs stat) ''usage_usec'' of
        None \<Rightarrow> zero_CpuStats
      | Some v \<Rightarrow> result (calculateCPUPercent env u (v * 1000) zero_CpuStats) s)"

lemma sample_result:
  assumes "f = cgroup_file (mgr s) path"
    and "s1 = s\<lparr>hist := hist s @ [ReadFile (f ''memory.current'')]\<rparr>"
    and "s2 = s1\<lparr>hist := hist s1 @ [ReadFile (f ''memory.stat'')]\<rparr>"
    and "s3 = s2\<lparr>hist := hist s2 @ [ReadFile (f ''cpu.stat'')]\<rparr>"
    and "ms = mem_sample (e_read_file env (hist s) (f ''memory.current''))
                (e_read_file env (hist s1) (f ''memory.stat''))"
    and "cs = cpu_sample env u s3 (e_read_file env (hist s2) (f ''cpu.stat''))"
  shows "result (getCgroupV2Stats env u path) s =
    (if mem_Measured ms \<noteq> [] \<or> cpu_Measured cs \<noteq> [] then Some \<lparr>CPUStats = cs, MemStats = ms\<rparr> else None)"
  unfolding assms getCgroupV2Stats_def
  by (simp add: run_readCgroupV2File scan_visit visit_cpuStat Let_def cgroup_file_def mem_sample_def
      file_value_def file_kvs_def cpu_sample_def result_bind exec_bind del: run_state_bind
      split: sum.split option.split)

lemma mem_sample_contents:
  assumes "distinct (map fst (file_kvs stat))"
  shows "RSS (mem_sample cur stat) = key_or 0 ''anon'' (file_kvs stat)"
    and "Cache (mem_sample cur stat) = key_or 0 ''file'' (file_kvs stat)"
    and "Usage (mem_sample cur stat) = (case file_value cur of Some v \<Rightarrow> v | None \<Rightarrow> 0)"
    and "set (mem_Measured (mem_sample cur stat)) =
      (if file_value cur \<noteq> None then {''Usage''} else {}) \<union>
      (if ''anon'' \<in> fst ` set (file_kvs stat) then {''RSS''} else {}) \<union>
      (if ''file'' \<in> fst ` set (file_kvs stat) then {''Cache''} else {})"
proof -
  let ?ms0 = "case file_value cur of
      Some v \<Rightarrow> zero_MemoryStats\<lparr>Usage := v, mem_Measured := [''Usage'']\<rparr> | None \<Rightarrow> zero_MemoryStats"
  have ms0: "RSS ?ms0 = 0" "Cache ?ms0 = 0" "Usage ?ms0 = (case file_value cur of Some v \<Rightarrow> v | None \<Rightarrow> 0)"
    "set (mem_Measured ?ms0) = (if file_value cur \<noteq> None then {''Usage''} else {})"
    by (simp_all add: zero_MemoryStats_def split: option.split)
  obtain ms' ha hf where "exec (visit memStatLine (file_kvs stat)) (?ms0, False, False) = (ms', ha, hf)"
    "RSS ms' = key_or (RSS ?ms0) ''anon'' (file_kvs stat)"
    "Cache ms' = key_or (Cache ?ms0) ''file'' (file_kvs stat)" "Usage ms' = Usage ?ms0"
    "set (mem_Measured ms') = set (mem_Measured ?ms0) \<union>
      (if ''anon'' \<in> fst ` set (file_kvs stat) then {''RSS''} else {}) \<union>
      (if ''file'' \<in> fst ` set (file_kvs stat) then {''Cache''} else {})"
    using visit_memStat [OF assms, of False False ?ms0] by blast
  moreover have "mem_sample cur stat = fst (exec (visit memStatLine (file_kvs stat)) (?ms0, False, False))"
    by (simp add: mem_sample_def Let_def)
  ultimately show "RSS (mem_sample cur stat) = key_or 0 ''anon'' (file_kvs stat)"
    "Cache (mem_sample cur stat) = key_or 0 ''file'' (file_kvs stat)"
    "Usage (mem_sample cur stat) = (case file_value cur of Some v \<Rightarrow> v | None \<Rightarrow> 0)"
    "set (mem_Measured (mem_sample cur stat)) =
      (if file_value cur \<noteq> None then {''Usage''} else {}) \<union>
      (if ''anon'' \<in> fst ` set (file_kvs stat) then {''RSS''} else {}) \<union>
      (if ''file'' \<in> fst ` set (file_kvs stat) then {''Cache''} else {})"
    by (simp_all only: ms0 fst_conv)
qed

lemma cpu_sample_measured:
  "cpu_Measured (cpu_sample env u s stat) =
     (if ''usage_usec'' \<in> fst ` set (file_kvs stat) \<and> unitLocked u (mgr s) \<noteq> None
      then [''Percent'', ''Total Ticks''] else [])"
  by (auto simp: cpu_sample_def result_calculateCPUPercent zero_CpuStats_def Let_def
      map_of_eq_None_iff [symmetric] split: option.split dest: sym)

lemma cpu_sample_value:
  assumes "unitLocked u (mgr s) = Some st" "map_of (file_kvs stat) ''usage_usec'' = Some v"
  shows "Percent (cpu_sample env u s stat) =
      e_cpu_percent env (hist s) (compute (mgr s)) (case cpu st of None \<Rightarrow> [] | Some xs \<Rightarrow> xs) (v * 1000)"
    and "TotalTicks (cpu_sample env u s stat) =
      e_cpu_ticks env (compute (mgr s)) (Percent (cpu_sample env u s stat))"
  using assms by (simp_all add: cpu_sample_def result_calculateCPUPercent Let_def)

text \<open>C34: A sample is exactly what the accounting files say: usage from \<open>memory.current\<close>, RSS and
  cache from the \<open>anon\<close> and \<open>file\<close> keys of \<open>memory.stat\<close> (whose keys are distinct), the CPU percentage
  and ticks that Nomad's tracker makes of the unit's earlier samples and of the first \<open>usage_usec\<close> of
  \<open>cpu.stat\<close> in nanoseconds, and the
  \<open>Measured\<close> lists name precisely the values that were read, so a zero that was read is told from a
  value that is missing. No sample is returned when nothing could be read.\<close>

theorem cgroup_sample_contents:
  assumes "f = cgroup_file (mgr s) path"
    and "h1 = hist s @ [ReadFile (f ''memory.current'')]" "h2 = h1 @ [ReadFile (f ''memory.stat'')]"
    and "used = file_value (e_read_file env (hist s) (f ''memory.current''))"
    and "kvs = file_kvs (e_read_file env h1 (f ''memory.stat''))" "distinct (map fst kvs)"
    and "cpu_read \<longleftrightarrow> ''usage_usec'' \<in> fst ` set (file_kvs (e_read_file env h2 (f ''cpu.stat''))) \<and>
           unitLocked u (mgr s) \<noteq> None"
    and "measured = (if used \<noteq> None then {''Usage''} else {}) \<union>
           (if ''anon'' \<in> fst ` set kvs then {''RSS''} else {}) \<union>
           (if ''file'' \<in> fst ` set kvs then {''Cache''} else {})"
  shows "case result (getCgroupV2Stats env u path) s of
      None \<Rightarrow> measured = {} \<and> \<not> cpu_read
    | Some rs \<Rightarrow>
        (measured \<noteq> {} \<or> cpu_read) \<and>
        RSS (MemStats rs) = key_or 0 ''anon'' kvs \<and> Cache (MemStats rs) = key_or 0 ''file'' kvs \<and>
        Usage (MemStats rs) = (case used of Some v \<Rightarrow> v | None \<Rightarrow> 0) \<and>
        set (mem_Measured (MemStats rs)) = measured \<and>
        cpu_Measured (CPUStats rs) = (if cpu_read then [''Percent'', ''Total Ticks''] else []) \<and>
        (\<forall>st v. unitLocked u (mgr s) = Some st \<and>
           map_of (file_kvs (e_read_file env h2 (f ''cpu.stat''))) ''usage_usec'' = Some v \<longrightarrow>
           Percent (CPUStats rs) = e_cpu_percent env (h2 @ [ReadFile (f ''cpu.stat'')]) (compute (mgr s))
             (case cpu st of None \<Rightarrow> [] | Some xs \<Rightarrow> xs) (v * 1000) \<and>
           TotalTicks (CPUStats rs) = e_cpu_ticks env (compute (mgr s)) (Percent (CPUStats rs)))"
proof -
  define ms where
    "ms = mem_sample (e_read_file env (hist s) (f ''memory.current'')) (e_read_file env h1 (f ''memory.stat''))"
  define cs where "cs = cpu_sample env u (s\<lparr>hist := h2 @ [ReadFile (f ''cpu.stat'')]\<rparr>)
    (e_read_file env h2 (f ''cpu.stat''))"
  have res: "result (getCgroupV2Stats env u path) s =
      (if mem_Measured ms \<noteq> [] \<or> cpu_Measured cs \<noteq> [] then Some \<lparr>CPUStats = cs, MemStats = ms\<rparr> else None)"
    using sample_result [OF assms(1) refl refl refl refl refl, of env u]
    by (simp add: ms_def cs_def assms(2,3))
  have cpu: "cpu_Measured cs = (if cpu_read then [''Percent'', ''Total Ticks''] else [])"
    by (simp add: cs_def cpu_sample_measured assms(7))
  have val: "Percent cs = e_cpu_percent env (h2 @ [ReadFile (f ''cpu.stat'')]) (compute (mgr s))
        (case cpu st of None \<Rightarrow> [] | Some xs \<Rightarrow> xs) (v * 1000)"
      "TotalTicks cs = e_cpu_ticks env (compute (mgr s)) (Percent cs)"
    if "unitLocked u (mgr s) = Some st" "map_of (file_kvs (e_read_file env h2 (f ''cpu.stat''))) ''usage_usec'' = Some v"
    for st v
    using cpu_sample_value [of u "s\<lparr>hist := h2 @ [ReadFile (f ''cpu.stat'')]\<rparr>"] that by (simp_all add: cs_def)
  have "distinct (map fst (file_kvs (e_read_file env h1 (f ''memory.stat''))))"
    using assms(5,6) by simp
  note mem = mem_sample_contents [OF this, of "e_read_file env (hist s) (f ''memory.current'')",
      folded ms_def assms(4,5), folded assms(8)]
  show ?thesis
    using mem cpu val unfolding res by (cases "mem_Measured ms = []"; cases cpu_read) auto
qed

theorem cgroup_sample_contents_witness:
  "case result (getCgroupV2Stats (sample_env\<lparr>e_read_file := \<lambda>_ p.
      Inr (if p = ''/sys/fs/cgroup/a/memory.stat'' then render [(''file'', 0)] else ''42'')\<rparr>) ''a.service'' ''/a'')
      sample_s1 of
     None \<Rightarrow> False
   | Some rs \<Rightarrow> Usage (MemStats rs) = 42 \<and> set (mem_Measured (MemStats rs)) = {''Cache'', ''Usage''}"
proof -
  let ?env = "sample_env\<lparr>e_read_file := \<lambda>_ p.
      Inr (if p = ''/sys/fs/cgroup/a/memory.stat'' then render [(''file'', 0)] else ''42'')\<rparr>"
  have paths: "cgroup_file sample_mgr1 ''/a'' ''memory.stat'' = ''/sys/fs/cgroup/a/memory.stat''"
    "cgroup_file sample_mgr1 ''/a'' ''memory.current'' = ''/sys/fs/cgroup/a/memory.current''"
    by (simp_all add: cgroup_file_def cgroupV2Root_def Join_def Clean_def)
  have "ParseUint ''42'' = Inr 42"
    by code_simp
  moreover have "TrimSpace ''42'' = ''42''"
    by (rule trim_digits) code_simp
  ultimately have v: "file_value (Inr ''42'') = Some 42"
    by (simp add: file_value_def)
  have k: "file_kvs (Inr (render [(''file'', 0)])) = [(''file'', 0)]"
    using kv_lines_render [of "[(''file'', 0)]"] by (simp add: file_kvs_def plain_key_def)
  have d: "distinct (map fst (file_kvs (e_read_file ?env
      (hist sample_s1 @ [ReadFile (cgroup_file (mgr sample_s1) ''/a'' ''memory.current'')])
      (cgroup_file (mgr sample_s1) ''/a'' ''memory.stat''))))"
    by (simp add: paths k del: render.simps)
  show ?thesis
    using cgroup_sample_contents [where u = "''a.service''", OF refl refl refl refl refl d refl refl]
    by (simp add: paths v k del: render.simps split: option.splits)
qed

section \<open>ResourceStats\<close>

lemma cache_registered_iff:
  "unitLocked u (mgr (exec (cacheUnitProperties env ctx u) s)) = None \<longleftrightarrow> unitLocked u (mgr s) = None"
  using cache_registered [of env ctx u s] by auto

lemma getStats_total: "result (do { r \<leftarrow> getCgroupV2Stats env u p;
    case r of None \<Rightarrow> ret (Inr EmptyResourceStats) | Some rs \<Rightarrow> ret (Inr rs) }) s \<noteq> Inl e"
  by (simp add: result_bind del: run_state_bind split: option.split)

lemma ResourceStats_result:
  "(case result (ResourceStats env ctx u) s of
      Inl e \<Rightarrow> unitLocked u (mgr s) = None \<and> e = notRegistered u \<and> error_is e ErrUnitNotRegistered \<and>
        exec (ResourceStats env ctx u) s = s
    | Inr _ \<Rightarrow> unitLocked u (mgr s) \<noteq> None)"
proof (cases "unitLocked u (mgr s)")
  case None
  then show ?thesis
    by (simp add: ResourceStats_def cachedControlGroup_def notRegistered_def)
next
  case (Some st)
  have "\<exists>st'. unitLocked u (mgr (exec (cacheUnitProperties env ctx u) t)) = Some st'"
    if "unitLocked u (mgr t) \<noteq> None" for t
    using that cache_registered_iff [of u env ctx t] by auto
  then obtain st1 st2 where
      "unitLocked u (mgr (exec (cacheUnitProperties env ctx u) s)) = Some st1"
      "unitLocked u (mgr (exec (cacheUnitProperties env ctx u) (s\<lparr>hist := hist s @ [Now]\<rparr>))) = Some st2"
    using Some by (metis (no_types) mstate.select_convs(1) mstate.surjective option.discI world.update_convs(1))
  then have "\<exists>rs. result (ResourceStats env ctx u) s = Inr rs"
    using Some
    by (auto simp: ResourceStats_def cachedControlGroup_def now_def result_bind exec_bind
        simp del: run_state_bind split: option.split)
  with Some show ?thesis by auto
qed

text \<open>\<open>ResourceStats\<close> fails only for a unit that is not registered, with an error that
  \<open>errors.Is\<close> recognises as \<open>ErrUnitNotRegistered\<close>, and then it has asked systemd nothing; for a
  registered unit it always returns a sample, whatever cannot be read.\<close>

lemma ResourceStats_errors:
  "(case result (ResourceStats env ctx u) s of
      Inl e \<Rightarrow> unitLocked u (mgr s) = None \<and> e = notRegistered u \<and> error_is e ErrUnitNotRegistered \<and>
        exec (ResourceStats env ctx u) s = s
    | Inr _ \<Rightarrow> unitLocked u (mgr s) \<noteq> None)"
  by (rule ResourceStats_result)

end
