(* ===== verification/JournalProps.thy ===== *)
theory JournalProps
  imports Journal
begin

text \<open>
  The journal reader's loop, for every sequence of replies from the journal: when it returns,
  what it delivers, and how long it backs off.
\<close>

section \<open>Delivery\<close>

definition message :: "iteration \<Rightarrow> LogEntry option" where
  "message it = (case it of
     IterEntry e _ \<Rightarrow> map_option (logEntry e) (map_of (Fields e) ''MESSAGE'')
   | _ \<Rightarrow> None)"

text \<open>The iterations in which the loop sees the end of its context.\<close>

definition last_iteration :: "iteration \<Rightarrow> bool" where
  "last_iteration it = (case it of
     IterDone \<Rightarrow> True
   | IterNextError _ ended \<Rightarrow> ended
   | IterEntry e ended \<Rightarrow> ended \<and> message it \<noteq> None
   | _ \<Rightarrow> False)"

fun sent :: "reader_action \<Rightarrow> LogEntry option" where
  "sent (Sent l) = Some l"
| "sent (Slept _) = None"

fun slept :: "reader_action \<Rightarrow> nat option" where
  "slept (Slept d) = Some d"
| "slept (Sent _) = None"

lemma reader_returns: "snd (readerLoop b its) \<longleftrightarrow> list_ex last_iteration its"
  by (induction b its rule: readerLoop.induct)
     (auto simp: last_iteration_def message_def split: prod.split option.split)

lemma reader_sends:
  "List.map_filter sent (fst (readerLoop b its)) =
     List.map_filter message (takeWhile (\<lambda>it. \<not> last_iteration it) its)"
  by (induction b its rule: readerLoop.induct)
     (auto simp: last_iteration_def message_def List.map_filter_simps split: prod.split option.split)

lemma reader_backoff:
  "journalErrorBackoffMinimum \<le> b \<Longrightarrow> b \<le> journalErrorBackoffMaximum \<Longrightarrow>
   set (List.map_filter slept (fst (readerLoop b its))) \<subseteq>
     {journalErrorBackoffMinimum..journalErrorBackoffMaximum}"
proof (induction b its rule: readerLoop.induct)
  case (3 b err ended its)
  then show ?case
    by (cases "readerLoop (min (b * 2) journalErrorBackoffMaximum) its")
       (simp add: List.map_filter_simps)
qed (simp_all add: split_beta List.map_filter_simps journalErrorBackoffMinimum_def journalErrorBackoffMaximum_def
    split: option.split)

lemma reader_doubles:
  "fst (readerLoop (min (a * 2 ^ i) journalErrorBackoffMaximum) (replicate n (IterNextError err False))) =
     map (\<lambda>j. Slept (min (a * 2 ^ j) journalErrorBackoffMaximum)) [i..<i + n]"
proof (induction n arbitrary: i)
  case (Suc n)
  have "min (min (a * 2 ^ i) journalErrorBackoffMaximum * 2) journalErrorBackoffMaximum =
      min (a * 2 ^ Suc i) journalErrorBackoffMaximum"
    by (auto simp: min_def)
  then show ?case
    using Suc [of "Suc i"]
    by (cases "readerLoop (min (a * 2 ^ Suc i) journalErrorBackoffMaximum)
          (replicate n (IterNextError err False))")
       (simp add: upt_conv_Cons del: upt_Suc power_Suc)
qed simp

text \<open>A journal reader delivers, in order and each once, exactly the entries with a message that
  it reads before its context ends, with their text, priority and identifier unchanged; journal
  errors and unreadable entries lose no other entry. It returns if and only if its context ends.
  Its backoff after a journal error stays between 0.5 s and 5 s, and doubles from the minimum while
  errors follow each other.\<close>

lemma reader_delivers_in_order:
  "List.map_filter sent (fst (journalReader its)) =
     List.map_filter message (takeWhile (\<lambda>it. \<not> last_iteration it) its) \<and>
   (snd (journalReader its) \<longleftrightarrow> list_ex last_iteration its) \<and>
   set (List.map_filter slept (fst (journalReader its))) \<subseteq> {500..5000} \<and>
   fst (journalReader (replicate n (IterNextError err False))) =
     map (\<lambda>i. Slept (min (500 * 2 ^ i) 5000)) [0..<n]"
  using reader_backoff [of journalErrorBackoffMinimum its] reader_doubles [of 500 0 n err]
  by (simp add: journalReader_def reader_sends reader_returns journalErrorBackoffMinimum_def
      journalErrorBackoffMaximum_def)

end
