(* ===== verification/Weakest.thy ===== *)
theory Weakest
  imports Prelude
begin

text \<open>
  Weakest preconditions of monadic definitions, for the theorems that follow an operation of the
  driver step by step: \<open>wp m Q s\<close> says that \<open>m\<close>, run in \<open>s\<close>, ends with a result and a state that
  satisfy \<open>Q\<close>. The collection \<open>wp\<close> reduces it along the definition; a component's operation whose
  exact effect does not matter is abstracted by a relation between its start and end state.
\<close>

named_theorems wp_simps "weakest preconditions of the monad's primitives"

definition wp :: "('s, 'a) state \<Rightarrow> ('a \<Rightarrow> 's \<Rightarrow> bool) \<Rightarrow> 's \<Rightarrow> bool" where
  "wp m Q s \<longleftrightarrow> Q (result m s) (exec m s)"

lemma wp_run: "run_state m s = (a, t) \<Longrightarrow> wp m Q s \<longleftrightarrow> Q a t"
  by (simp add: wp_def)

lemma wp_ret [wp_simps]: "wp (ret x) Q s = Q x s"
  and wp_gets [wp_simps]: "wp (gets f) Q s = Q (f s) s"
  and wp_modify [wp_simps]: "wp (modify g) R s = R () (g s)"
  and wp_bind [wp_simps]: "wp (m \<bind> k) Q s = wp m (\<lambda>a. wp (k a) Q) s"
  by (simp_all add: wp_def split: prod.split)

lemma wp_if [wp_simps]: "wp (if b then m else n) Q s = (if b then wp m Q s else wp n Q s)"
  by simp

lemma wp_let [wp_simps]: "wp (let x = y in f x) Q s = wp (f y) Q s"
  by simp

lemma wp_sum [wp_simps]:
  "wp (case r of Inl e \<Rightarrow> f e | Inr x \<Rightarrow> g x) Q s =
     (case r of Inl e \<Rightarrow> wp (f e) Q s | Inr x \<Rightarrow> wp (g x) Q s)"
  by (simp split: sum.split)

lemma wp_option [wp_simps]:
  "wp (case r of None \<Rightarrow> f | Some x \<Rightarrow> g x) Q s =
     (case r of None \<Rightarrow> wp f Q s | Some x \<Rightarrow> wp (g x) Q s)"
  by (simp split: option.split)

lemma wp_mono: "wp m P s \<Longrightarrow> (\<And>a t. P a t \<Longrightarrow> Q a t) \<Longrightarrow> wp m Q s"
  by (simp add: wp_def)

text \<open>An operation known only by a relation it satisfies.\<close>

lemma wp_rel: "state_io_rel R m \<Longrightarrow> (\<And>a t. R s t \<Longrightarrow> Q a t) \<Longrightarrow> wp m Q s"
  by (simp add: wp_def state_io_rel_def)

lemma wpD: "wp m Q s \<Longrightarrow> run_state m s = (a, t) \<Longrightarrow> Q a t"
  by (simp add: wp_def)

end
