(* ===== verification/PprofProps.thy ===== *)
theory PprofProps
  imports Pprof Weakest "HOL-Library.Sublist"
begin

text \<open>
  The pprof servers: as a transition system of configuration changes, shutdowns and the goroutines
  that watch the driver's context, never more than one listener is open.
\<close>

section \<open>The servers\<close>

text \<open>Only the driver's server may be open.\<close>

definition pprof_ok :: "pprofServer list \<Rightarrow> nat option \<Rightarrow> bool" where
  "pprof_ok ps cur \<longleftrightarrow> (\<forall>p. cur = Some p \<longrightarrow> Suc p = length ps) \<and>
     (\<forall>p < length ps. cur \<noteq> Some p \<longrightarrow> stopped (ps ! p))"

definition closing :: "pprofServer \<Rightarrow> call list" where
  "closing q = (if stopped q then [] else [ShutdownServer (ln q), CloseListener (ln q)])"

definition stopped_at :: "nat \<Rightarrow> pprofServer list \<Rightarrow> pprofServer list" where
  "stopped_at p ps = ps[p := (ps ! p)\<lparr>stopped := True\<rparr>]"

lemma stopped_same: "stopped q \<Longrightarrow> q\<lparr>stopped := True\<rparr> = q"
  by (cases q) simp

lemma run_stop:
  "run_state (stop p) s =
     ((), s\<lparr>hist := hist s @ closing (servers s ! p), servers := stopped_at p (servers s)\<rparr>)"
proof -
  have "stopped_at p (servers s) = servers s" if "stopped (servers s ! p)"
    using that by (simp add: stopped_at_def stopped_same)
  then show ?thesis
    by (simp add: stop_def closing_def stopped_at_def)
qed

lemma stopped_at_simps [simp]:
  "length (stopped_at p ps) = length ps"
  "q < length ps \<Longrightarrow> stopped (stopped_at p ps ! q) \<longleftrightarrow> q = p \<or> stopped (ps ! q)"
  "q < length ps \<Longrightarrow> ln (stopped_at p ps ! q) = ln (ps ! q)"
  "q < length ps \<Longrightarrow> addr (stopped_at p ps ! q) = addr (ps ! q)"
  by (cases "p = q"; simp add: stopped_at_def)+

lemma pprof_ok_stop: "pprof_ok ps cur \<Longrightarrow> pprof_ok (stopped_at p ps) cur"
  by (simp add: pprof_ok_def)

lemma pprof_ok_drop: "pprof_ok ps (Some p) \<Longrightarrow> pprof_ok (stopped_at p ps) None"
  by (auto simp: pprof_ok_def)

lemma pprof_ok_start: "pprof_ok ps None \<Longrightarrow> pprof_ok (ps @ [q]) (Some (length ps))"
  by (auto simp: pprof_ok_def nth_append)

lemma pprof_ok_None: "pprof_ok ps None \<longleftrightarrow> list_all stopped ps"
  by (auto simp: pprof_ok_def list_all_length)

lemma pprof_ok_Some: "pprof_ok ps (Some p) \<longleftrightarrow> (\<exists>qs q. ps = qs @ [q] \<and> p = length qs \<and> list_all stopped qs)"
proof
  assume ok: "pprof_ok ps (Some p)"
  then have "ps = take p ps @ [ps ! p]" "p = length (take p ps)"
    by (simp_all add: pprof_ok_def take_Suc_conv_app_nth [symmetric])
  moreover have "list_all stopped (take p ps)"
    using ok by (simp add: pprof_ok_def list_all_length)
  ultimately show "\<exists>qs q. ps = qs @ [q] \<and> p = length qs \<and> list_all stopped qs"
    by blast
qed (auto simp: pprof_ok_def list_all_length nth_append less_Suc_eq)

section \<open>Evaluation\<close>

definition dropped :: "pstate \<Rightarrow> pstate" where
  "dropped s = (case pprof s of
     None \<Rightarrow> s
   | Some p \<Rightarrow> s\<lparr>hist := hist s @ closing (servers s ! p), servers := stopped_at p (servers s), pprof := None\<rparr>)"

lemma run_dropPprof: "run_state dropPprof s = ((), dropped s)"
  by (simp add: dropPprof_def dropped_def run_stop split: option.split)

lemma run_watchPprof:
  "run_state (watchPprof c p) s = (if c then run_state (stop p) s else ((), s))"
  by (simp add: watchPprof_def)

definition started :: "string \<Rightarrow> nat \<Rightarrow> pstate \<Rightarrow> pstate" where
  "started a k s = s\<lparr>hist := hist s @ [Listen a],
     servers := servers s @ [\<lparr>addr = a, ln = k, stopped = False\<rparr>], pprof := Some (length (servers s))\<rparr>"

lemma run_configurePprof:
  "run_state (configurePprof env a) s =
     (if map_option (\<lambda>p. addr (servers s ! p)) (pprof s) = Some a then (None, s)
      else if a = [] then (None, dropped s)
      else case e_listen env (hist (dropped s)) a of
          Inl err \<Rightarrow> (Some (Wrapf ''listen on %s: %w'' [AStr a] err), (dropped s)\<lparr>hist := hist (dropped s) @ [Listen a]\<rparr>)
        | Inr k \<Rightarrow> (None, started a k (dropped s)))"
  by (cases "e_listen env (hist (dropped s)) a")
     (auto simp: configurePprof_def startPprof_def started_def run_dropPprof simp del: map_option_eq_Some)

lemma pprof_ok_dropped: "pprof_ok (servers s) (pprof s) \<Longrightarrow> pprof_ok (servers (dropped s)) None"
  by (auto simp: dropped_def pprof_ok_drop split: option.split)

lemma pprof_dropped [simp]: "pprof (dropped s) = None"
  by (simp add: dropped_def split: option.split)

text \<open>Every operation keeps \<open>pprof_ok\<close>.\<close>

definition servers_ok :: "pstate \<Rightarrow> bool" where
  "servers_ok s \<longleftrightarrow> pprof_ok (servers s) (pprof s)"

lemma servers_ok_steps:
  assumes "servers_ok s"
  shows "servers_ok (exec (stop p) s)" "servers_ok (exec dropPprof s)" "servers_ok (exec (watchPprof c p) s)"
    "servers_ok (exec (configurePprof env a) s)"
  using assms pprof_ok_dropped [of s]
  by (simp_all add: servers_ok_def run_stop run_dropPprof run_watchPprof run_configurePprof pprof_ok_stop started_def
      pprof_ok_start split: sum.split)

section \<open>The listeners a process holds\<close>

text \<open>Read off the calls alone, latest call first: the listeners bound and not yet closed.\<close>

fun listening_rev :: "env \<Rightarrow> call list \<Rightarrow> nat list" where
  "listening_rev env [] = []"
| "listening_rev env (Listen a # h) =
     (case e_listen env (rev h) a of Inl _ \<Rightarrow> listening_rev env h | Inr k \<Rightarrow> k # listening_rev env h)"
| "listening_rev env (CloseListener k # h) = remove1 k (listening_rev env h)"
| "listening_rev env (_ # h) = listening_rev env h"

definition listening :: "env \<Rightarrow> call list \<Rightarrow> nat list" where
  "listening env h = listening_rev env (rev h)"

lemma listening_simps [simp]:
  "listening env [] = []"
  "listening env (h @ [Listen a]) = (case e_listen env h a of Inl _ \<Rightarrow> listening env h | Inr k \<Rightarrow> k # listening env h)"
  "listening env (h @ [ShutdownServer k]) = listening env h"
  "listening env (h @ [ShutdownServer k, CloseListener k]) = remove1 k (listening env h)"
  by (simp_all add: listening_def split: sum.split)

text \<open>At no moment is more than one listener held.\<close>

definition one_listener :: "env \<Rightarrow> call list \<Rightarrow> bool" where
  "one_listener env h \<longleftrightarrow> (\<forall>g. prefix g h \<longrightarrow> length (listening env g) \<le> 1)"

lemma one_listener_Nil [simp]: "one_listener env []"
  by (simp add: one_listener_def)

lemma one_listener_snoc: "one_listener env (h @ [c]) \<longleftrightarrow> one_listener env h \<and> length (listening env (h @ [c])) \<le> 1"
  unfolding one_listener_def prefix_snoc by blast

lemma one_listener_close:
  assumes "one_listener env h"
  shows "one_listener env (h @ [ShutdownServer k, CloseListener k])"
proof -
  have "length (listening env h) \<le> 1"
    using assms by (simp add: one_listener_def)
  moreover from this have "length (remove1 k (listening env h)) \<le> 1"
    by (simp add: length_remove1)
  ultimately show ?thesis
    using assms one_listener_snoc [of env "h @ [ShutdownServer k]" "CloseListener k"]
    by (simp add: one_listener_snoc)
qed

definition closes :: "call list \<Rightarrow> nat list" where
  "closes h = concat (map (\<lambda>c. case c of CloseListener k \<Rightarrow> [k] | _ \<Rightarrow> []) h)"

lemma closes_simps [simp]: "closes [] = []" "closes (h @ [Listen a]) = closes h"
  "closes (h @ [ShutdownServer k, CloseListener k]) = closes h @ [k]"
  by (simp_all add: closes_def)

section \<open>The transition system\<close>

text \<open>Configuration changes and the shutdown, serialised by \<open>pprofLock\<close>, the end of the driver's
  context, and the goroutine of every server made so far, which \<open>stopOnce\<close> serialises with the
  rest.\<close>

inductive pprof_step :: "env \<Rightarrow> bool \<times> pstate \<Rightarrow> bool \<times> pstate \<Rightarrow> bool" for env where
  configure: "pprof_step env (c, s) (c, exec (configurePprof env a) s)"
| shutdown: "pprof_step env (c, s) (c, exec dropPprof s)"
| cancel: "pprof_step env (c, s) (True, s)"
| watch: "p < length (servers s) \<Longrightarrow> pprof_step env (c, s) (c, exec (watchPprof c p) s)"

definition no_servers :: pstate where
  "no_servers = \<lparr>hist = [], servers = [], pprof = None\<rparr>"

definition pprof_reachable :: "env \<Rightarrow> bool \<Rightarrow> pstate \<Rightarrow> bool" where
  "pprof_reachable env c s \<longleftrightarrow> (pprof_step env)\<^sup>*\<^sup>* (False, no_servers) (c, s)"

text \<open>The driver's server is open unless the context's end has stopped it, and the calls made agree
  with the servers.\<close>

definition open_now :: "pstate \<Rightarrow> nat list" where
  "open_now s = (case pprof s of None \<Rightarrow> [] | Some p \<Rightarrow> if stopped (servers s ! p) then [] else [ln (servers s ! p)])"

lemma open_now_hist [simp]: "open_now (s\<lparr>hist := h\<rparr>) = open_now s"
  by (auto simp: open_now_def split: option.split)

definition pprof_inv :: "env \<Rightarrow> bool \<Rightarrow> pstate \<Rightarrow> bool" where
  "pprof_inv env c s \<longleftrightarrow> servers_ok s \<and> one_listener env (hist s) \<and> listening env (hist s) = open_now s \<and>
     closes (hist s) = map ln (filter stopped (servers s)) \<and>
     list_all (\<lambda>q. addr q \<noteq> []) (servers s) \<and> (c \<or> (\<forall>p. pprof s = Some p \<longrightarrow> \<not> stopped (servers s ! p)))"

lemma stopped_at_last: "stopped_at (length qs) (qs @ [q]) = qs @ [q\<lparr>stopped := True\<rparr>]"
  by (simp add: stopped_at_def)

lemma servers_cases:
  assumes "servers_ok s"
  obtains "pprof s = None" "list_all stopped (servers s)"
  | qs q where "pprof s = Some (length qs)" "servers s = qs @ [q]" "list_all stopped qs"
  using assms by (cases "pprof s") (auto simp: servers_ok_def pprof_ok_None pprof_ok_Some)

lemma stop_inv:
  assumes "pprof_inv env c s" "p < length (servers s)" "c"
  shows "pprof_inv env c (exec (stop p) s)"
proof (cases "stopped (servers s ! p)")
  case True
  then have "stopped_at p (servers s) = servers s"
    by (simp add: stopped_at_def stopped_same)
  then show ?thesis
    using assms True by (simp add: run_stop closing_def)
next
  case False
  have ok: "servers_ok s"
    using assms by (simp add: pprof_inv_def)
  then have p: "pprof s = Some p"
    using False assms(2) by (auto simp: servers_ok_def pprof_ok_def)
  obtain qs q where s: "pprof s = Some (length qs)" "servers s = qs @ [q]" "list_all stopped qs"
    using ok p by (elim servers_cases) auto
  then show ?thesis
    using assms False p servers_ok_steps(1) [OF ok, of p]
    by (auto simp: pprof_inv_def run_stop closing_def one_listener_close open_now_def stopped_at_last)
qed

lemma dropped_inv:
  assumes "pprof_inv env c s"
  shows "pprof_inv env c (dropped s) \<and> listening env (hist (dropped s)) = []"
proof -
  have ok: "servers_ok s" "servers_ok (dropped s)"
    using assms servers_ok_steps(2) [of s] by (simp_all add: pprof_inv_def run_dropPprof)
  then show ?thesis
  proof (cases rule: servers_cases [OF ok(1)])
    case 1
    then show ?thesis
      using assms by (simp add: dropped_def pprof_inv_def open_now_def)
  next
    case (2 qs q)
    then show ?thesis
      using assms ok by (cases "stopped q")
        (auto simp: pprof_inv_def dropped_def stopped_at_last closing_def one_listener_close open_now_def stopped_same)
  qed
qed

lemma started_inv:
  assumes "pprof_inv env c s" "pprof s = None" "e_listen env (hist s) a = Inr k" "a \<noteq> []"
  shows "pprof_inv env c (started a k s)"
  using assms
  by (auto simp: pprof_inv_def started_def servers_ok_def pprof_ok_start one_listener_snoc open_now_def)

lemma listen_failed_inv:
  assumes "pprof_inv env c s" "e_listen env (hist s) a = Inl err" "listening env (hist s) = []"
  shows "pprof_inv env c (s\<lparr>hist := hist s @ [Listen a]\<rparr>)"
  using assms by (simp add: pprof_inv_def servers_ok_def one_listener_snoc)

lemma configure_inv:
  assumes "pprof_inv env c s"
  shows "pprof_inv env c (exec (configurePprof env a) s)"
  using assms dropped_inv [OF assms]
  by (auto simp: run_configurePprof started_inv listen_failed_inv split: sum.split)

lemma pprof_inv_reachable: "pprof_reachable env c s \<Longrightarrow> pprof_inv env c s"
  unfolding pprof_reachable_def
proof (induction "(c, s)" arbitrary: c s rule: rtranclp_induct)
  case base
  then show ?case
    by (simp add: no_servers_def pprof_inv_def servers_ok_def pprof_ok_def closes_def open_now_def)
next
  case (step y)
  obtain d t where y: "y = (d, t)"
    by fastforce
  from step(2) [unfolded y] step(3) [OF y] show ?case
  proof (cases rule: pprof_step.cases)
    case (configure a)
    then show ?thesis
      using step(3) [OF y] by (simp add: configure_inv)
  next
    case shutdown
    then show ?thesis
      using step(3) [OF y] by (simp add: run_dropPprof dropped_inv)
  next
    case cancel
    then show ?thesis
      using step(3) [OF y] by (simp add: pprof_inv_def)
  next
    case (watch p)
    then show ?thesis
      using step(3) [OF y] stop_inv by (cases c) (simp_all add: run_watchPprof)
  qed
qed

end
