(* ===== verification/HandlerProps.thy ===== *)
theory HandlerProps
  imports Handler
begin

text \<open>
  The task state machine: the invariant of a handler, the order in which its state only ever
  moves, and the locale \<open>unit_controller\<close>, whose lemmas carry both through every operation of a
  handler for any implementation of the interface to systemd.
\<close>

section \<open>Invariant and order\<close>

text \<open>The exit is published completely or not at all, and \<open>waitCh\<close> is closed exactly then.\<close>

definition sound_handler :: "handler \<Rightarrow> bool" where
  "sound_handler h \<longleftrightarrow>
     th_closes h = (if HasExited h then 1 else 0) \<and> (th_exitOnce h \<longleftrightarrow> HasExited h) \<and>
     (th_exitResult h \<noteq> None \<longleftrightarrow> HasExited h) \<and> (th_completedAt h \<noteq> None \<longleftrightarrow> HasExited h)"

text \<open>What never changes, and what never changes after the exit.\<close>

definition same_task :: "handler \<Rightarrow> handler \<Rightarrow> bool" where
  "same_task h h' \<longleftrightarrow> th_id h' = th_id h \<and> th_taskID h' = th_taskID h \<and> th_Unit h' = th_Unit h \<and>
     th_units h' = th_units h \<and> th_wakeCh h' = th_wakeCh h \<and> th_handle h' = th_handle h \<and>
     th_startedAt h' = th_startedAt h"

definition hnd_le :: "handler \<Rightarrow> handler \<Rightarrow> bool" where
  "hnd_le h h' \<longleftrightarrow> same_task h h' \<and>
     (HasExited h \<longrightarrow> th_state h' = th_state h \<and> th_exitResult h' = th_exitResult h \<and>
        th_completedAt h' = th_completedAt h \<and> th_closes h' = th_closes h) \<and>
     (sound_handler h \<longrightarrow> sound_handler h')"

lemma hnd_le_refl [simp]: "hnd_le h h"
  by (simp add: hnd_le_def same_task_def)

lemma hnd_le_trans: "hnd_le h h' \<Longrightarrow> hnd_le h' h'' \<Longrightarrow> hnd_le h h''"
  by (simp add: hnd_le_def same_task_def HasExited_def)

lemma hnd_le_sound: "hnd_le h h' \<Longrightarrow> sound_handler h \<Longrightarrow> sound_handler h'"
  by (simp add: hnd_le_def)

lemma begin_change_le: "hnd_le h (snd (begin_change st h))"
  by (auto simp: begin_change_def hnd_le_def same_task_def sound_handler_def HasExited_def Let_def)

lemma publish_exit_le: "hnd_le h (publish_exit r t h)"
  by (auto simp: publish_exit_def close_wait_def hnd_le_def same_task_def sound_handler_def HasExited_def)

lemma publish_exit_exited: "HasExited (publish_exit r t h)"
  by (auto simp: publish_exit_def close_wait_def HasExited_def)

lemma goroutines_le:
  "hnd_le h (h\<lparr>th_wg := n\<rparr>)" "hnd_le h (Handler_Stop h)"
  by (auto simp: Handler_Stop_def hnd_le_def same_task_def sound_handler_def HasExited_def)

lemma begin_change_resolve:
  "fst (begin_change st h) \<longleftrightarrow> \<not> HasExited h \<and> IsTerminal st"
  by (auto simp: begin_change_def HasExited_def Let_def ToTaskState_exited [symmetric])

lemma begin_change_state:
  "snd (begin_change st h) =
     (if HasExited h \<or> IsTerminal st then h else h\<lparr>th_state := ToTaskState st\<rparr>)"
  by (auto simp: begin_change_def HasExited_def Let_def ToTaskState_exited [symmetric])

section \<open>The interface to systemd\<close>

definition handler_steps :: "('u \<Rightarrow> 'u \<Rightarrow> bool) \<Rightarrow> 'u hstate \<Rightarrow> 'u hstate \<Rightarrow> bool" where
  "handler_steps R s t \<longleftrightarrow> R (ctrl s) (ctrl t) \<and> hnd_le (hnd s) (hnd t)"

text \<open>
  What a handler's implementation of \<open>unitController\<close> keeps: a preorder \<open>R\<close> on its state.
\<close>

locale unit_controller =
  fixes uc :: "'u unitController" and R :: "'u \<Rightarrow> 'u \<Rightarrow> bool"
  assumes R_pre: "preorder_rel R"
    and R_StopUnit: "R u (exec (c_StopUnit uc ctx unit) u)"
    and R_KillUnit: "R u (exec (c_KillUnit uc ctx unit) u)"
    and R_UnitState: "R u (exec (c_UnitState uc ctx unit) u)"
    and R_UnitExitStatus: "R u (exec (c_UnitExitStatus uc ctx unit) u)"
    and R_ResourceStats: "R u (exec (c_ResourceStats uc ctx unit) u)"
    and R_StreamLogs: "R u (exec (c_StreamLogs uc unit logCh) u)"
    and R_Now: "R u (exec (c_Now uc) u)"
begin

abbreviation steps :: "'u hstate \<Rightarrow> 'u hstate \<Rightarrow> bool" where
  "steps \<equiv> handler_steps R"

lemma steps_pre [io_rules]: "preorder_rel steps"
  using R_pre
  by (intro preorder_relI) (auto simp: handler_steps_def preorder_rel_def
      elim: hnd_le_trans dest: reflpD transpD)

lemma steps_via: "(\<And>u. R u (exec m u)) \<Longrightarrow> state_io_rel steps (via m)"
  by (simp add: state_io_rel_def handler_steps_def)

lemma steps_upd: "(\<And>h. hnd_le h (f h)) \<Longrightarrow> state_io_rel steps (upd_hnd f)"
  using R_pre by (auto simp: state_io_rel_def handler_steps_def preorder_rel_def dest: reflpD)

lemmas controller_rules = io_rules steps_pre steps_via R_StopUnit R_KillUnit R_UnitState
  R_UnitExitStatus R_ResourceStats R_StreamLogs R_Now

lemma Handler_StopUnit_steps: "state_io_rel steps (Handler_StopUnit uc)"
  unfolding Handler_StopUnit_def by (intro controller_rules)

lemma Handler_KillUnit_steps: "state_io_rel steps (Handler_KillUnit uc)"
  unfolding Handler_KillUnit_def by (intro controller_rules)

lemma Handler_UnitState_steps: "state_io_rel steps (Handler_UnitState uc)"
  unfolding Handler_UnitState_def by (intro controller_rules)

lemma Handler_ResourceStats_steps: "state_io_rel steps (Handler_ResourceStats uc ctx)"
  unfolding Handler_ResourceStats_def by (intro controller_rules)

lemma buildExitResult_steps: "state_io_rel steps (buildExitResult uc st)"
  unfolding buildExitResult_def by (intro controller_rules)

lemma handleStateChange_steps: "state_io_rel steps (handleStateChange uc st)"
  unfolding handleStateChange_def
  by (intro controller_rules steps_upd begin_change_le publish_exit_le buildExitResult_steps)

lemma checkTaskState_steps: "state_io_rel steps (checkTaskState uc)"
  unfolding checkTaskState_def
  by (intro controller_rules Handler_UnitState_steps handleStateChange_steps)

lemma pollLoop_steps: "state_io_rel steps (pollLoop uc evs)"
proof (induction evs)
  case (Cons e evs)
  then show ?case
    by (cases e) (simp_all add: io_bind io_if io_ret steps_pre checkTaskState_steps)
qed (simp add: io_ret steps_pre)

lemma pollTaskState_steps: "state_io_rel steps (pollTaskState uc evs)"
  unfolding pollTaskState_def by (intro controller_rules checkTaskState_steps pollLoop_steps)

lemma Handler_Start_steps: "state_io_rel steps (Handler_Start uc)"
  unfolding Handler_Start_def by (intro controller_rules steps_upd goroutines_le)

lemma NewHandler_keeps:
  "R u (exec (NewHandler uc hid i unit handle mid w st) u)"
  using R_Now by (simp add: NewHandler_def Let_def exec_bind del: run_state_bind)

end

end
