(* ===== verification/HandlerSafety.thy ===== *)
theory HandlerSafety
  imports Sample HandlerProps
begin

text \<open>
  What a handler guarantees: what each state systemd reports makes of it, which exits count as
  successful, that exactly one exit is published whatever interleaving of state changes happens,
  and when polling ends.
\<close>

section \<open>The exit result\<close>

text \<open>The result reported for a unit that stopped in state \<open>st\<close>, from what systemd says of its
  main process.\<close>

definition exit_of :: "UnitState \<Rightarrow> error + ExitStatus \<Rightarrow> ExitResult" where
  "exit_of st reply = (case (case reply of Inr status \<Rightarrow> ExitResultFromStatus status | Inl _ \<Rightarrow> None) of
     Some res \<Rightarrow> res
   | None \<Rightarrow> if IsFailed st
       then \<lparr>ExitCode = 1, Signal = 0, Err = Some (NewError ''systemd unit failed'')\<rparr>
       else \<lparr>ExitCode = 0, Signal = 0, Err = None\<rparr>)"

definition exit_status :: "'u unitController \<Rightarrow> 'u hstate \<Rightarrow> error + ExitStatus" where
  "exit_status uc s =
     result (c_UnitExitStatus uc (HandlerCtx (th_id (hnd s))) (th_Unit (hnd s))) (ctrl s)"

lemma result_buildExitResult: "result (buildExitResult uc st) s = exit_of st (exit_status uc s)"
  by (simp add: buildExitResult_def exit_of_def exit_status_def)

lemma exec_buildExitResult:
  "exec (buildExitResult uc st) s =
     s\<lparr>ctrl := exec (c_UnitExitStatus uc (HandlerCtx (th_id (hnd s))) (th_Unit (hnd s))) (ctrl s)\<rparr>"
  by (simp add: buildExitResult_def)

lemma exit_of_success:
  "success (exit_of st reply) \<longleftrightarrow>
     (case reply of
        Inr x \<Rightarrow> if Code x \<in> {CLDExited, CLDKilled, CLDDumped}
                 then Code x = CLDExited \<and> Status x = 0 else \<not> IsFailed st
      | Inl _ \<Rightarrow> \<not> IsFailed st)"
  "Err (exit_of st reply) = None \<longleftrightarrow> success (exit_of st reply)"
  by (auto simp: exit_of_def ExitResultFromStatus_def success_def cld_defs split: sum.split)

lemma result_recoveredExitResult:
  "result (recoveredExitResult env mid unit st) d =
     exit_of st (result (UnitExitStatus env DriverCtx unit) (get_mgr mid d))"
  by (simp add: recoveredExitResult_def with_mgr_def exit_of_def)

text \<open>A task's exit counts as successful (code 0, no signal, no error) exactly when its main
  process exited with status 0, or, where systemd knows of no terminated main process, when the
  unit did not fail. An error is attached to every other exit and to no successful one. The exit
  result that \<open>RecoverTask\<close> computes for a task found exited is the one the task's handler would
  have computed.\<close>

lemma exit_result_success:
  "(success (result (buildExitResult uc st) s) \<longleftrightarrow>
      (case exit_status uc s of
         Inr x \<Rightarrow> if Code x \<in> {CLDExited, CLDKilled, CLDDumped}
                  then Code x = CLDExited \<and> Status x = 0 else \<not> IsFailed st
       | Inl _ \<Rightarrow> \<not> IsFailed st)) \<and>
   (Err (result (buildExitResult uc st) s) = None \<longleftrightarrow> success (result (buildExitResult uc st) s)) \<and>
   result (recoveredExitResult env mid unit st) d =
     exit_of st (result (UnitExitStatus env DriverCtx unit) (get_mgr mid d))"
  by (simp add: result_buildExitResult exit_of_success result_recoveredExitResult)

section \<open>State changes\<close>

lemma hnd_handleStateChange:
  "hnd (exec (handleStateChange uc st) s) =
     (if HasExited (hnd s) then hnd s
      else if \<not> IsTerminal st then (hnd s)\<lparr>th_state := ToTaskState st\<rparr>
      else publish_exit (exit_of st (exit_status uc s))
             (result (c_Now uc) (ctrl (exec (buildExitResult uc st) s))) (hnd s))"
proof (cases "\<not> HasExited (hnd s) \<and> IsTerminal st")
  case True
  then have "hnd s = snd (begin_change st (hnd s))"
    by (simp add: begin_change_state)
  with True show ?thesis
    by (simp add: handleStateChange_def begin_change_resolve begin_change_state exec_bind result_bind
        result_buildExitResult exec_buildExitResult exit_status_def del: run_state_bind)
next
  case False
  then show ?thesis
    by (auto simp: handleStateChange_def begin_change_resolve begin_change_state exec_bind result_bind
        simp del: run_state_bind)
qed

text \<open>C13: What a reported unit state makes of a task: nothing once the task has exited (exit is
  final); for a state that is not terminal the task state it maps to; and for a terminal state the
  exit, published with its result and time, all at once, and with \<open>waitCh\<close> closed.\<close>

theorem handleStateChange_outcome:
  assumes "sound_handler (hnd s)" "h' = hnd (exec (handleStateChange uc st) s)"
  shows "sound_handler h' \<and> same_task (hnd s) h' \<and>
    (if HasExited (hnd s) then h' = hnd s
     else if IsTerminal st
     then HasExited h' \<and> waitCh_closed h' \<and> th_closes h' = 1 \<and>
       th_exitResult h' = Some (exit_of st (exit_status uc s)) \<and> th_completedAt h' \<noteq> None
     else h' = (hnd s)\<lparr>th_state := ToTaskState st\<rparr> \<and> \<not> waitCh_closed h')"
proof -
  have h': "h' = (if HasExited (hnd s) then hnd s
      else if \<not> IsTerminal st then (hnd s)\<lparr>th_state := ToTaskState st\<rparr>
      else publish_exit (exit_of st (exit_status uc s))
             (result (c_Now uc) (ctrl (exec (buildExitResult uc st) s))) (hnd s))"
    using assms(2) by (simp add: hnd_handleStateChange)
  have "ToTaskState st \<noteq> TaskStateExited" if "\<not> IsTerminal st"
    using that by (simp add: ToTaskState_exited)
  then show ?thesis
    using assms(1) unfolding h'
    by (auto simp: sound_handler_def HasExited_def waitCh_closed_def same_task_def publish_exit_def
        close_wait_def)
qed

definition sample_handle :: TaskHandle where
  "sample_handle = \<lparr>Version = 1, Config = sample_task ''t1'', DriverState = ''a.service''\<rparr>"

definition sample_handler :: handler where
  "sample_handler = \<lparr>th_id = 0, th_taskID = ''t1'', th_Unit = ''a.service'', th_units = 0,
     th_wakeCh = Some 0, th_handle = sample_handle, th_state = TaskStateRunning,
     th_startedAt = Some 6, th_completedAt = None, th_exitResult = None, th_exitOnce = False,
     th_closes = 0, th_canceled = False, th_wg = 2\<rparr>"

lemma sample_handler_simps [simp]:
  "\<not> HasExited sample_handler" "sound_handler sample_handler" "th_Unit sample_handler = ''a.service''"
  "th_id sample_handler = 0"
  by (simp_all add: sample_handler_def HasExited_def sound_handler_def)

abbreviation sample_h1 :: "mstate hstate" where
  "sample_h1 \<equiv> \<lparr>hnd = sample_handler, ctrl = sample_s1\<rparr>"

lemma sample_exit_status: "exit_status (mgr_ctl sample_env) sample_h1 = Inr \<lparr>Code = 1, Status = 3\<rparr>"
  by (simp add: exit_status_def mgr_ctl_def UnitExitStatus_def run_getConn)

theorem handleStateChange_outcome_witness:
  "th_exitResult (hnd (exec (handleStateChange (mgr_ctl sample_env) ''failed'') sample_h1)) =
     Some \<lparr>ExitCode = 3, Signal = 0, Err = Some (Errorf ''systemd unit exited with code %d'' [AInt 3])\<rparr>"
proof -
  have "IsTerminal ''failed''"
    by (simp add: IsTerminal_def unit_state_defs)
  then show ?thesis
    using handleStateChange_outcome [OF _ refl, of sample_h1 "mgr_ctl sample_env" "''failed''"]
    by (simp add: sample_exit_status exit_of_def ExitResultFromStatus_def cld_defs)
qed

section \<open>Concurrent state changes\<close>

text \<open>
  Calls of \<open>handleStateChange\<close> that run at the same time interleave between their critical
  sections: each decides under the lock (\<open>begin_change\<close>), asks systemd for the exit status with the
  lock released (any answer may come), and publishes under the lock (\<open>publish_exit\<close>).
\<close>

datatype change =
    Pending UnitState
  | Resolving UnitState
  | Publishing UnitState ExitResult time
  | Finished UnitState

fun subject :: "change \<Rightarrow> UnitState" where
  "subject (Pending st) = st"
| "subject (Resolving st) = st"
| "subject (Publishing st _ _) = st"
| "subject (Finished st) = st"

inductive change_step :: "handler \<times> change list \<Rightarrow> handler \<times> change list \<Rightarrow> bool" where
  decide: "i < length cs \<Longrightarrow> cs ! i = Pending st \<Longrightarrow>
    change_step (h, cs) (snd (begin_change st h),
      cs[i := if fst (begin_change st h) then Resolving st else Finished st])"
| resolve: "i < length cs \<Longrightarrow> cs ! i = Resolving st \<Longrightarrow>
    change_step (h, cs) (h, cs[i := Publishing st r t])"
| publish: "i < length cs \<Longrightarrow> cs ! i = Publishing st r t \<Longrightarrow>
    change_step (h, cs) (publish_exit r t h, cs[i := Finished st])"

inductive_cases change_stepE: "change_step (h, cs) (h', cs')"

inductive change_steps :: "handler \<times> change list \<Rightarrow> handler \<times> change list \<Rightarrow> bool" where
  change_none: "change_steps c c"
| change_more: "change_steps c d \<Longrightarrow> change_step d e \<Longrightarrow> change_steps c e"

lemma change_step_le: "change_step (h, cs) (h', cs') \<Longrightarrow> hnd_le h h'"
  by (erule change_stepE) (auto intro: begin_change_le publish_exit_le)

lemma change_steps_le: "change_steps c d \<Longrightarrow> hnd_le (fst c) (fst d)"
proof (induction rule: change_steps.induct)
  case (change_more c d e)
  then show ?case
    by (metis change_step_le hnd_le_trans prod.collapse)
qed simp

text \<open>A call about a terminal state has finished only once the task has exited.\<close>

definition resolved :: "handler \<times> change list \<Rightarrow> bool" where
  "resolved c \<longleftrightarrow> (\<forall>ch \<in> set (snd c).
     case ch of Finished st \<Rightarrow> IsTerminal st \<longrightarrow> HasExited (fst c) | _ \<Rightarrow> True)"

lemma resolved_step: "change_step c d \<Longrightarrow> resolved c \<Longrightarrow> resolved d"
proof (induction rule: change_step.induct)
  case (decide i cs st h)
  have "HasExited (snd (begin_change st h)) \<longleftrightarrow> HasExited h"
    by (auto simp: begin_change_state HasExited_def ToTaskState_exited)
  then show ?case
    using decide
    by (auto simp: resolved_def begin_change_resolve dest!: set_update_subset_insert [THEN subsetD]
        split: change.splits)
next
  case (resolve i cs st h r t)
  then show ?case
    by (auto simp: resolved_def dest!: set_update_subset_insert [THEN subsetD] split: change.splits)
next
  case (publish i cs st r t h)
  then show ?case
    by (auto simp: resolved_def publish_exit_exited dest!: set_update_subset_insert [THEN subsetD]
        split: change.split)
qed

lemma resolved_steps: "change_steps c d \<Longrightarrow> resolved c \<Longrightarrow> resolved d"
  by (induction rule: change_steps.induct) (auto intro: resolved_step)

lemma subjects_steps: "change_steps c d \<Longrightarrow> map subject (snd d) = map subject (snd c)"
proof (induction rule: change_steps.induct)
  case (change_more c d e)
  from change_more(2,3) show ?case
    by (cases rule: change_step.cases) (simp_all add: map_upd_same)
qed simp

text \<open>C12: However many state changes are handled at the same time and however their critical
  sections and the answers of systemd interleave, the exit of a task is published at most once:
  \<open>waitCh\<close> is never closed twice (which would panic), the result, once there, is never replaced, and
  an observer never sees a task exited without its result. Once every call has finished, the task
  has exited if any of the calls was about a terminal state.\<close>

theorem exit_published_once:
  assumes "sound_handler h" "change_steps (h, map Pending sts) (h1, cs1)" "change_steps (h1, cs1) (h2, cs2)"
  shows "th_closes h2 \<le> 1 \<and> (HasExited h2 \<longleftrightarrow> th_exitResult h2 \<noteq> None) \<and>
    (waitCh_closed h2 \<longleftrightarrow> HasExited h2) \<and>
    (HasExited h1 \<longrightarrow> HasExited h2 \<and> th_exitResult h2 = th_exitResult h1) \<and>
    ((\<forall>c \<in> set cs2. c = Finished (subject c)) \<and> (\<exists>st \<in> set sts. IsTerminal st) \<longrightarrow> HasExited h2)"
proof -
  have le: "hnd_le h h1" "hnd_le h1 h2"
    using change_steps_le [OF assms(2)] change_steps_le [OF assms(3)] by auto
  then have "sound_handler h2"
    using assms(1) by (auto intro: hnd_le_sound)
  moreover have "resolved (h2, cs2)"
    by (rule resolved_steps [OF assms(3) resolved_steps [OF assms(2)]]) (simp add: resolved_def)
  moreover have "HasExited h2" if "\<forall>c \<in> set cs2. c = Finished (subject c)" "st \<in> set sts" "IsTerminal st" for st
  proof -
    have "map subject cs2 = map subject (map Pending sts)"
      using subjects_steps [OF assms(3)] subjects_steps [OF assms(2)] by simp
    then have "st \<in> subject ` set cs2"
      using that(2) by (metis list.set_map subject.simps(1) image_eqI)
    then have "Finished st \<in> set cs2"
      using that(1) by (metis imageE)
    then show ?thesis
      using calculation(2) that(3) by (auto simp: resolved_def)
  qed
  ultimately show ?thesis
    using le(2) by (auto simp: sound_handler_def waitCh_closed_def hnd_le_def HasExited_def)
qed

theorem exit_published_once_witness:
  "\<exists>h cs. change_steps (sample_handler, map Pending [''failed'', ''inactive'']) (h, cs) \<and>
     th_closes h \<le> 1 \<and> HasExited h"
proof -
  let ?f = "''failed''" and ?i = "''inactive''" and ?r = "\<lparr>ExitCode = 0, Signal = 0, Err = None\<rparr>"
  let ?h = "publish_exit ?r 5 sample_handler"
  let ?c = "(sample_handler, map Pending [?f, ?i])"
  have t: "IsTerminal ?f" "IsTerminal ?i"
    by (simp_all add: IsTerminal_def unit_state_defs)
  have "change_step ?c (sample_handler, [Resolving ?f, Pending ?i])"
    using decide [of 0 "map Pending [?f, ?i]" ?f sample_handler]
    by (simp add: begin_change_resolve begin_change_state t)
  moreover have "change_step (sample_handler, [Resolving ?f, Pending ?i])
      (sample_handler, [Resolving ?f, Resolving ?i])"
    using decide [of 1 "[Resolving ?f, Pending ?i]" ?i sample_handler]
    by (simp add: begin_change_resolve begin_change_state t)
  moreover have "change_step (sample_handler, [Resolving ?f, Resolving ?i])
      (sample_handler, [Resolving ?f, Publishing ?i ?r 5])"
    using resolve [of 1 "[Resolving ?f, Resolving ?i]" ?i sample_handler ?r 5] by simp
  moreover have "change_step (sample_handler, [Resolving ?f, Publishing ?i ?r 5])
      (sample_handler, [Publishing ?f ?r 6, Publishing ?i ?r 5])"
    using resolve [of 0 "[Resolving ?f, Publishing ?i ?r 5]" ?f sample_handler ?r 6] by simp
  moreover have "change_step (sample_handler, [Publishing ?f ?r 6, Publishing ?i ?r 5])
      (?h, [Publishing ?f ?r 6, Finished ?i])"
    using publish [of 1 "[Publishing ?f ?r 6, Publishing ?i ?r 5]" ?i ?r 5 sample_handler] by simp
  moreover have "change_step (?h, [Publishing ?f ?r 6, Finished ?i]) (publish_exit ?r 6 ?h, [Finished ?f, Finished ?i])"
    using publish [of 0 "[Publishing ?f ?r 6, Finished ?i]" ?f ?r 6 ?h] by simp
  ultimately have steps: "change_steps ?c (publish_exit ?r 6 ?h, [Finished ?f, Finished ?i])"
    by (meson change_more change_none)
  have "th_closes (publish_exit ?r 6 ?h) \<le> 1 \<and> HasExited (publish_exit ?r 6 ?h)"
    using exit_published_once [OF sample_handler_simps(2) change_none steps] t by auto
  then show ?thesis
    using steps by blast
qed

section \<open>Polling\<close>

definition reported_state :: "'u unitController \<Rightarrow> 'u hstate \<Rightarrow> error + UnitState" where
  "reported_state uc s =
     result (c_UnitState uc (HandlerCtx (th_id (hnd s))) (th_Unit (hnd s))) (ctrl s)"

lemma run_Handler_UnitState:
  "run_state (Handler_UnitState uc) s =
     (reported_state uc s,
      s\<lparr>ctrl := exec (c_UnitState uc (HandlerCtx (th_id (hnd s))) (th_Unit (hnd s))) (ctrl s)\<rparr>)"
  by (simp add: Handler_UnitState_def reported_state_def)

lemma handleStateChange_exited:
  "HasExited (hnd (exec (handleStateChange uc st) s)) \<longleftrightarrow> HasExited (hnd s) \<or> IsTerminal st"
  by (auto simp: hnd_handleStateChange publish_exit_exited)
     (simp add: HasExited_def ToTaskState_exited)

lemma checkTaskState_exited:
  "HasExited (hnd (exec (checkTaskState uc) s)) \<longleftrightarrow>
     HasExited (hnd s) \<or> (\<exists>st. reported_state uc s = Inr st \<and> IsTerminal st)"
  "result (checkTaskState uc) s \<longleftrightarrow> HasExited (hnd (exec (checkTaskState uc) s))"
  by (simp_all add: checkTaskState_def exec_bind result_bind run_Handler_UnitState
      handleStateChange_exited del: run_state_bind split: sum.split)

lemma pollLoop_result:
  "\<not> HasExited (hnd s) \<Longrightarrow>
   result (pollLoop uc evs) s \<longleftrightarrow> HasExited (hnd (exec (pollLoop uc evs) s)) \<or> PollCtxDone \<in> set evs"
proof (induction evs arbitrary: s)
  case (Cons e evs)
  then show ?case
    by (cases e) (auto simp: exec_bind result_bind checkTaskState_exited(2) simp del: run_state_bind)
qed simp

text \<open>C14: A check finds the task exited exactly when it had exited or systemd reports a terminal
  state of the unit; a read that fails decides nothing. The polling goroutine runs until the task
  has exited or its context ends, and no longer: for every sequence of wake-ups and ticks it has
  returned exactly in those two cases, so a lost wake-up only delays the exit to the next tick.\<close>

theorem polling_ends_at_exit:
  "(result (checkTaskState uc) s \<longleftrightarrow>
      HasExited (hnd s) \<or> (\<exists>st. reported_state uc s = Inr st \<and> IsTerminal st)) \<and>
   (HasExited (hnd (exec (checkTaskState uc) s)) \<longleftrightarrow> result (checkTaskState uc) s) \<and>
   (result (pollTaskState uc evs) s \<longleftrightarrow>
      HasExited (hnd (exec (pollTaskState uc evs) s)) \<or> PollCtxDone \<in> set evs)"
proof -
  have "result (pollTaskState uc evs) s \<longleftrightarrow>
      HasExited (hnd (exec (pollTaskState uc evs) s)) \<or> PollCtxDone \<in> set evs"
    using pollLoop_result [of "exec (checkTaskState uc) s" uc evs]
    by (auto simp: pollTaskState_def exec_bind result_bind checkTaskState_exited(2) simp del: run_state_bind)
  then show ?thesis
    by (simp add: checkTaskState_exited)
qed

end
