(* ===== verification/SampleDriver.thy ===== *)
theory SampleDriver
  imports HandlerSafety
begin

text \<open>
  The sample world at the level of the driver: the state after a first \<open>SetConfig\<close>, and after
  starting the task \<open>t1\<close> for the unit \<open>a.service\<close>.
\<close>

definition sample_drv0 :: sys where
  "sample_drv0 = New\<lparr>hist := sample_hist0, mgrs := (\<lambda>_. no_manager)(0 := sample_mgr\<lparr>wg := 2\<rparr>),
     next_mgr := 1, systemdMgr := Some 0, unit_policy := Some \<lparr>allowed = [], denied = []\<rparr>,
     d_compute := 4000\<rparr>"

text \<open>What evaluates the RPCs in a concrete world.\<close>

lemmas SetConfig_eval = SetConfig_def applyConfig_def replaceManager_def sample_config_def decodeConfig_def compileUnitPolicy_def newManager_def
      NewManager_def subscribeToPropertyChanges_def installManager_def with_mgr_def get_mgr_def put_mgr_def
      with_pprof_def configurePprof_def dropPprof_def Manager_Start_def New_def sample_drv0_def sample_hist0_def
      sample_mgr_def numeral_2_eq_2

lemma sample_SetConfig:
  "run_state (SetConfig sample_env sample_nomad sample_config) New = (None, sample_drv0)"
  by (simp add: SetConfig_eval)

definition sample_hist2 :: "call list" where
  "sample_hist2 = sample_hist0 @ [Connected 0,
     GetUnitProperty 0 (opContext DriverCtx propertyTimeout) ''a.service'' ''ActiveState'', Connected 0,
     GetUnitProperties 0 (opContext DriverCtx propertyTimeout) ''a.service'', Now, Now, NewJournal,
     AddMatch 9 ''_SYSTEMD_UNIT=a.service'', Now, SeekRealtimeUsec 9 0, Now,
     EmitEvent ''t1'' ''alloc'' ''web'' 13 ''Task started: systemd unit a.service''
       [(''unit'', ''a.service''), (''state'', ''active'')]]"

definition sample_mgr2 :: manager where
  "sample_mgr2 = sample_mgr\<lparr>units := [(''a.service'', sample_unit\<lparr>cachedAt := Some 7\<rparr>)],
     wakes := [False], readers := [sample_reader\<lparr>rd_journal := 9\<rparr>], journalWg := 1, wg := 2\<rparr>"

definition sample_hnd2 :: handler where
  "sample_hnd2 = sample_handler\<lparr>th_startedAt := Some 8\<rparr>"

definition sample_drv1 :: sys where
  "sample_drv1 = sample_drv0\<lparr>hist := sample_hist2, mgrs := (\<lambda>_. no_manager)(0 := sample_mgr2),
     hnds := (\<lambda>_. no_handler)(0 := sample_hnd2), next_hnd := 1, tasks := [(''t1'', 0)],
     unitOwners := [(''a.service'', ''t1'')]\<rparr>"

lemma sample_valid: "Validate \<lparr>Unit = ''a.service''\<rparr> = None"
proof -
  have "full_match unitNamePattern ''a.service''"
    unfolding unitNamePattern_iff
    by (rule exI [of _ "''a''"], rule exI [of _ "''service''"])
       (simp add: in_class_def unit_name_class_def unit_types_def)
  then show ?thesis
    by (simp add: Validate_def)
qed

lemma nine: "(9 :: nat) = Suc (Suc (Suc (Suc (Suc (Suc (Suc (Suc (Suc 0))))))))"
  by simp

lemmas StartTask_eval = StartTask_def startChecks_def startFrom_def lookupTask_def sample_valid sample_drv0_def New_def Store_Get_def NewStore_def
      check_def getManager_def claim_def claimUnit_def startClaimed_def ensureRunning_def with_mgr_def
      get_mgr_def put_mgr_def UnitState_def run_getConn ParseUnitState_def ToTaskState_def unit_state_defs
      manageTask_def attachTask_def RegisterUnit_def cacheUnitProperties_def now_def unitLocked_def new_unitState_def
      newTaskHandler_def WakeChannel_def NewHandler_def mgr_ctl_def with_hnd_def get_hnd_def put_hnd_def
      Handler_Start_def StreamLogs_def registered_def startJournalReader_def set_task_def Store_Set_def
      Let_def sample_mgr_def sample_hist0_def sample_drv1_def sample_hist2_def sample_mgr2_def
      sample_unit_def sample_reader_def sample_hnd2_def sample_handler_def sample_handle_def
      taskHandleVersion_def numeral_2_eq_2 nine

lemma sample_StartTask:
  "run_state (StartTask sample_env sample_nomad (sample_task ''t1'')) sample_drv0 =
     (Inr sample_handle, sample_drv1)"
  by (simp add: StartTask_eval)

lemma sample_handle_simps [simp]:
  "Config sample_handle = sample_task ''t1''" "DriverState sample_handle = ''a.service''"
  by (simp_all add: sample_handle_def)

lemmas RecoverTask_eval = RecoverTask_def recoverChecks_def recoverFrom_def lookupTask_def sample_drv0_def New_def Store_Get_def NewStore_def
      getManager_def claim_def claimUnit_def recoverClaimed_def with_mgr_def get_mgr_def put_mgr_def
      UnitState_def run_getConn ParseUnitState_def result_bind

lemma sample_RecoverTask:
  "run_state (RecoverTask sample_env sample_nomad sample_handle) sample_drv0 =
     (None, exec (RecoverTask sample_env sample_nomad sample_handle) sample_drv0)"
proof -
  have "result (RecoverTask sample_env sample_nomad sample_handle) sample_drv0 = None"
    by (simp add: RecoverTask_eval del: run_state_bind)
  then show ?thesis
    by (simp add: prod_eq_iff)
qed

end
