(* ===== verification/ConfigSafety.thy ===== *)
theory ConfigSafety
  imports CgroupProps PprofProps SampleDriver
begin

text \<open>
  The decisions taken on plain data: which units the configured policy permits, what a valid unit
  name is, how the pprof server follows its address, and the numbers read from systemd and the
  kernel.
\<close>

section \<open>Policy\<close>

text \<open>C37: A policy compiles exactly when all its patterns do; otherwise the error names the list and
  a pattern that is invalid, rather than letting it match nothing. The compiled policy permits a
  unit exactly when no denied pattern matches it and, if any allowed pattern is configured, some
  allowed pattern does: a deny always wins, and no patterns permit everything.\<close>

theorem policy_decides:
  "case compileUnitPolicy env allow deny of
     Inr p \<Rightarrow> (check env p unit = None) =
       ((\<nexists>d re. d \<in> set deny \<and> e_regexp_compile env d = Inr re \<and> e_match_string env re unit) \<and>
        (allow = [] \<or> (\<exists>a re. a \<in> set allow \<and> e_regexp_compile env a = Inr re \<and> e_match_string env re unit)))
   | Inl e \<Rightarrow> \<exists>name bad err.
       (bad \<in> set allow \<and> name = ''allowed_units'' \<or> bad \<in> set deny \<and> name = ''denied_units'') \<and>
       e_regexp_compile env bad = Inl err \<and>
       e = Wrapf (''compile '' @ name @ '' pattern %q: %w'') [AStr bad] err"
proof (cases "compileUnitPolicy env allow deny")
  case (Inl e)
  then have "compile_patterns env ''allowed_units'' allow = Inl e \<or> compile_patterns env ''denied_units'' deny = Inl e"
    by (simp add: compileUnitPolicy_def split: sum.splits)
  then show ?thesis
    using Inl by (auto dest!: compile_patterns_Inl)
next
  case (Inr p)
  then have a: "map (e_regexp_compile env) allow = map Inr (allowed p)"
    and d: "map (e_regexp_compile env) deny = map Inr (denied p)"
    by (auto simp: compileUnitPolicy_def compile_patterns_Inr split: sum.splits)
  have compiled: "re \<in> set res \<longleftrightarrow> (\<exists>q \<in> set ps. e_regexp_compile env q = Inr re)"
    if "map (e_regexp_compile env) ps = map Inr res" for ps res re
    using arg_cong [OF that, of set] by (auto simp: image_iff) (metis imageE imageI sum.inject(2))+
  have "allowed p = [] \<longleftrightarrow> allow = []"
    using a by (metis map_is_Nil_conv)
  moreover have "(\<exists>re \<in> set (allowed p). e_match_string env re unit) \<longleftrightarrow>
      (\<exists>q re. q \<in> set allow \<and> e_regexp_compile env q = Inr re \<and> e_match_string env re unit)"
    using compiled [OF a] by blast
  moreover have "(\<exists>re \<in> set (denied p). e_match_string env re unit) \<longleftrightarrow>
      (\<exists>q re. q \<in> set deny \<and> e_regexp_compile env q = Inr re \<and> e_match_string env re unit)"
    using compiled [OF d] by blast
  ultimately show ?thesis
    using Inr by (simp add: check_None permits_def) blast
qed

section \<open>Unit names\<close>

text \<open>C38: \<open>Validate\<close>, which matches a regular expression, accepts exactly the systemd unit names:
  at most 255 bytes, a non-empty name over systemd's characters, a dot and one of the eleven unit
  types. An accepted name is printable ASCII without spaces, control characters or slashes, so it
  can neither leave a directory nor break a D-Bus argument.\<close>

theorem Validate_iff_unit_name:
  "(Validate tc = None) = valid_unit_name (Unit tc) \<and>
   (Validate tc = None \<longrightarrow>
      Unit tc \<noteq> [] \<and> list_all (\<lambda>c. 33 \<le> (of_char c :: nat) \<and> (of_char c :: nat) < 127 \<and> c \<noteq> CHR ''/'') (Unit tc))"
proof -
  have iff: "(Validate tc = None) = valid_unit_name (Unit tc)"
    by (auto simp: Validate_def valid_unit_name_def unitNamePattern_iff)
  let ?safe = "\<lambda>c. 33 \<le> (of_char c :: nat) \<and> (of_char c :: nat) < 127 \<and> c \<noteq> CHR ''/''"
  have cls: "in_class unit_name_class c \<Longrightarrow> ?safe c" for c
    by (auto simp: in_class_def unit_name_class_def)
  have types: "list_all (list_all ?safe) unit_types"
    by (simp add: unit_types_def)
  have "list_all ?safe (Unit tc)" if v: "valid_unit_name (Unit tc)"
  proof -
    obtain name suffix where u: "Unit tc = name @ ''.'' @ suffix" "list_all (in_class unit_name_class) name"
      "suffix \<in> set unit_types"
      using v by (auto simp: valid_unit_name_def)
    have "list_all ?safe name"
      using u(2) cls by (auto simp: list_all_iff)
    moreover have "list_all ?safe suffix"
      using types u(3) by (auto simp: list_all_iff)
    ultimately show ?thesis
      using u(1) by simp
  qed
  then show ?thesis
    unfolding iff by (auto simp: valid_unit_name_def)
qed

theorem Validate_iff_unit_name_witness:
  "Validate \<lparr>Unit = ''a.service''\<rparr> = None \<and> valid_unit_name ''a.service''"
  using Validate_iff_unit_name [of "\<lparr>Unit = ''a.service''\<rparr>"] sample_valid by simp

section \<open>The pprof server\<close>

text \<open>C26: The process never holds two pprof listeners. Whatever configuration reloads, shutdowns and
  ends of the context come in whatever order, the old address is released before the next one is
  bound, each server made is closed once, by whichever stops it first, and the only listener held
  is that of the driver's server. After a configuration, the server is on its address, and its
  listener is held until the context ends; an empty address, an address that cannot be bound and a
  shutdown leave no listener; the address already served changes nothing, with no call at all; and
  once the context has ended, the goroutine of the driver's server closes what is left.\<close>

theorem pprof_one_listener:
  fixes a :: string
  assumes "pprof_reachable env c s"
  defines "t \<equiv> exec (configurePprof env a) s" and "r \<equiv> result (configurePprof env a) s"
  shows "one_listener env (hist s) \<and> listening env (hist s) = open_now s \<and>
    closes (hist s) = map ln (filter stopped (servers s)) \<and>
    (if r \<noteq> None \<or> a = [] then listening env (hist t) = [] \<and> pprof t = None
     else \<exists>p. pprof t = Some p \<and> addr (servers t ! p) = a \<and> (c \<or> listening env (hist t) = [ln (servers t ! p)])) \<and>
    (\<forall>p. pprof s = Some p \<longrightarrow> addr (servers s ! p) = a \<longrightarrow> r = None \<and> t = s) \<and>
    listening env (hist (exec dropPprof s)) = [] \<and>
    (\<forall>p. c \<longrightarrow> pprof s = Some p \<longrightarrow> listening env (hist (exec (watchPprof c p) s)) = [])"
proof -
  note inv = pprof_inv_reachable [OF assms(1)]
  note dropped = dropped_inv [OF inv]
  have "listening env (hist (exec (watchPprof c p) s)) = []" if "c" "pprof s = Some p" for p
  proof -
    have "p < length (servers s)"
      using inv that by (simp add: pprof_inv_def servers_ok_def pprof_ok_def)
    then show ?thesis
      using stop_inv [OF inv] that by (simp add: run_watchPprof pprof_inv_def open_now_def run_stop)
  qed
  moreover have "addr (servers s ! p) \<noteq> []" if "pprof s = Some p" for p
    using inv that by (auto simp: pprof_inv_def servers_ok_def pprof_ok_Some)
  moreover have "pprof_inv env c t"
    unfolding t_def by (rule configure_inv [OF inv])
  ultimately show ?thesis
    using inv dropped unfolding t_def r_def
    by (auto simp: run_configurePprof run_dropPprof pprof_inv_def open_now_def started_def split: sum.split)
qed

theorem pprof_one_listener_witness:
  "listening sample_env (hist (exec (configurePprof sample_env ''b'') (exec (configurePprof sample_env ''a'') no_servers))) = [3]"
proof -
  let ?s = "exec (configurePprof sample_env ''a'') no_servers"
  have "pprof_reachable sample_env False ?s"
    unfolding pprof_reachable_def by (rule r_into_rtranclp) (rule pprof_step.configure)
  from pprof_one_listener [OF this, of "''b''"] show ?thesis
    by (auto simp: run_configurePprof no_servers_def dropped_def started_def closing_def stopped_at_def)
qed

section \<open>Numbers\<close>

text \<open>C39: A timestamp property is accepted exactly when it is an integer that is a point in time, and
  then its conversion to a signed 64-bit count and to nanoseconds is exact; the \<open>never\<close> sentinel
  (all bits set), larger unsigned values, negative values and every other type are refused.\<close>

theorem timestamps_exact:
  "case parseTimestampUsec v of
     Some u \<Rightarrow> (v = VUint64 u \<or> v = VInt64 u) \<and> uint u < 2 ^ 63 \<and> UnixMicro u = uint u * 1000
   | None \<Rightarrow> (case v of VUint64 t \<Rightarrow> 2 ^ 63 \<le> uint t | VInt64 t \<Rightarrow> sint t < 0 | _ \<Rightarrow> True)"
proof (cases "parseTimestampUsec v")
  case None
  have "2 ^ 63 \<le> uint usecInfinity"
    by (simp add: usecInfinity_def unsigned_minus_1_eq_mask mask_eq_exp_minus_1)
  then show ?thesis
    using None by (cases v) (auto simp: MaxInt64_less word_sless_alt split: if_splits)
next
  case (Some u)
  then have "v = VUint64 u \<or> v = VInt64 u"
    by (cases v) (auto split: if_splits)
  then show ?thesis
    using Some parseTimestampUsec_bound [OF Some] by (simp add: UnixMicro_def sint_eq_uint64)
qed

lemma trim_left_digits:
  assumes "list_all is_digit ds" "ds \<noteq> []"
  shows "trim_left space_encodings (ds @ xs) = ds @ xs"
proof -
  have "c \<notin> hd ` set space_encodings" if "is_digit c" for c
    using that by (auto simp: is_digit_def digit_val_def Let_def space_encodings_def split: if_splits)
  then show ?thesis
    using assms by (intro trim_left_no_space) (cases ds; force)
qed

lemma trim_line:
  assumes "list_all is_digit ds" "ds \<noteq> []"
  shows "TrimSpace (ds @ [CHR 0x0A]) = ds"
proof -
  have "strip_one (map rev space_encodings) (CHR 0x0A # s) = Some s" for s
    by (simp add: strip_one_def space_encodings_def)
  then have "trim_left (map rev space_encodings) (CHR 0x0A # s) = trim_left (map rev space_encodings) s" for s
    by (subst trim_left.simps) simp
  moreover have "rev (trim_left (map rev space_encodings) (rev ds)) = ds"
    using trim_digits [OF assms(1)] trim_left_digits [OF assms, of "[]"] by (simp add: TrimSpace_def)
  ultimately show ?thesis
    using trim_left_digits [OF assms, of "[CHR 0x0A]"] by (simp add: TrimSpace_def)
qed

text \<open>C35: What the kernel prints into a single-value cgroup file is read back exactly, over the
  whole 64-bit range; a number that does not fit, which the parser's loop meets as a wrap-around,
  is an error naming the file, never a truncated value.\<close>

theorem cgroup_value_roundtrip:
  assumes "e_read_file env (hist s) path = Inr (show_nat n @ [CHR 0x0A])"
  shows "result (readCgroupV2File env path) s =
    (if n < 2 ^ 64 then Inr (word_of_nat n)
     else Inl (Wrapf ''parse %s: %w'' [AStr path] (rangeError (show_nat n))))"
proof -
  note d = show_nat_digits [of n]
  have "find (\<lambda>c. \<not> is_digit c) (show_nat n) = None"
    using d by (simp add: find_None_iff list_all_iff)
  then have "ParseUint (show_nat n) = (if n < 2 ^ 64 then Inr (word_of_nat n) else Inl (rangeError (show_nat n)))"
    using d parse_loop_correct [of "show_nat n" 0 "show_nat n"] by (simp add: ParseUint_def)
  then show ?thesis
    using assms d by (simp add: run_readCgroupV2File trim_line)
qed

theorem cgroup_value_roundtrip_witness:
  "result (readCgroupV2File (sample_env\<lparr>e_read_file := \<lambda>_ _. Inr (show_nat 42 @ [CHR 0x0A])\<rparr>) ''memory.current'') sample_s0 =
     Inr 42"
  using cgroup_value_roundtrip [of "sample_env\<lparr>e_read_file := \<lambda>_ _. Inr (show_nat 42 @ [CHR 0x0A])\<rparr>" sample_s0
      "''memory.current''" 42]
  by simp

end
