(* ===== verification/ManagerCalls.thy ===== *)
theory ManagerCalls
  imports ManagerSteps
begin

text \<open>
  The time budgets of the Manager's D-Bus calls: whatever operation runs, every call that waits on
  systemd is made under a context with the limit the code sets for its kind.
\<close>

definition limited :: "nat \<Rightarrow> ctx \<Rightarrow> bool" where
  "limited t c = (case c of OpCtx _ l \<Rightarrow> l = t | _ \<Rightarrow> False)"

lemma limited_opContext [simp]: "limited t (opContext c l) \<longleftrightarrow> l = t"
  by (simp add: limited_def opContext_def)

fun bounded_call :: "call \<Rightarrow> bool" where
  "bounded_call (Dial c) = (c = DriverCtx \<or> c = ManagerCtx)"
| "bounded_call (StartUnitContext k c u m) = (limited jobTimeout c \<and> m = ''replace'')"
| "bounded_call (StopUnitContext k c u m) = (limited jobTimeout c \<and> m = ''replace'')"
| "bounded_call (WaitJob c u a) = limited jobTimeout c"
| "bounded_call (KillUnitWithTarget k c u w sig) = (limited propertyTimeout c \<and> w = ''all'' \<and> sig = SIGKILL)"
| "bounded_call (GetUnitProperty k c u p) = limited propertyTimeout c"
| "bounded_call (GetUnitProperties k c u) = limited propertyTimeout c"
| "bounded_call (GetUnitTypeProperties k c u p) = limited propertyTimeout c"
| "bounded_call c = True"

text \<open>\<open>calls P m\<close>: every call \<open>m\<close> makes satisfies \<open>P\<close>.\<close>

definition calls :: "(call \<Rightarrow> bool) \<Rightarrow> ('s world_scheme, 'a) state \<Rightarrow> bool" where
  "calls P m \<longleftrightarrow> state_io_rel (extends P) m"

named_theorems calls_rules "calls made by operations"

lemma callsI: "(\<And>s. extends P s (exec m s)) \<Longrightarrow> calls P m"
  by (simp add: calls_def state_io_rel_def)

lemma callsD: "calls P m \<Longrightarrow> extends P s (exec m s)"
  by (simp add: calls_def state_io_rel_def)

lemma calls_ret [calls_rules]: "calls P (ret x)"
  and calls_gets [calls_rules]: "calls P (gets f)"
  and calls_outcall [calls_rules]: "P c \<Longrightarrow> calls P (outcall c g)"
  by (auto intro: callsI simp: extends_def)

lemma calls_modify: "(\<And>s. hist (f s) = hist s) \<Longrightarrow> calls P (modify f)"
  by (auto intro: callsI simp: extends_def)

lemma calls_upd_mgr [calls_rules]: "calls P (upd_mgr f)"
  unfolding upd_mgr_def by (rule calls_modify) simp

lemma calls_bind [calls_rules]: "calls P m \<Longrightarrow> (\<And>x. calls P (f x)) \<Longrightarrow> calls P (m \<bind> f)"
  unfolding calls_def by (intro io_bind extends_preorder)

lemma calls_case [calls_rules]:
  "(\<And>e. calls P (f e)) \<Longrightarrow> (\<And>x. calls P (g x)) \<Longrightarrow> calls P (case r of Inl e \<Rightarrow> f e | Inr x \<Rightarrow> g x)"
  "calls P m \<Longrightarrow> (\<And>x. calls P (h x)) \<Longrightarrow> calls P (case q of None \<Rightarrow> m | Some x \<Rightarrow> h x)"
  "calls P m \<Longrightarrow> calls P n \<Longrightarrow> calls P (if b then m else n)"
  "(\<And>x y. calls P (k x y)) \<Longrightarrow> calls P (case p of (x, y) \<Rightarrow> k x y)"
  by (auto split: sum.split option.split prod.split)

lemma calls_let [calls_rules]: "(\<And>x. calls P (f x)) \<Longrightarrow> calls P (let x = y in f x)"
  by simp

lemma calls_for_each [calls_rules]: "(\<And>x. calls P (f x)) \<Longrightarrow> calls P (for_each f xs)"
  by (induction xs) (auto intro: calls_rules)

section \<open>The Manager's operations\<close>

text \<open>A property of calls that the elementary calls of the Manager have.\<close>

locale manager_calls =
  fixes Q :: "call \<Rightarrow> bool"
  assumes Q_other: "Q Now" "Q (Dial DriverCtx)" "Q (Dial ManagerCtx)" "Q (Connected k)" "Q (Subscribe k)" "Q (SetPropertiesSubscriber k)"
      "Q (CloseConn k)" "Q (CpuPercent v)" "Q (Stat path)" "Q (ReadFile path)" "Q NewJournal"
      "Q (AddMatch j str)" "Q (SeekRealtimeUsec j v)" "Q (SeekTail j)" "Q (CloseJournal j)"
    and Q_start: "Q (StartUnitContext k (opContext c jobTimeout) u ''replace'')"
    and Q_stop: "Q (StopUnitContext k (opContext c jobTimeout) u ''replace'')"
    and Q_wait: "Q (WaitJob (opContext c jobTimeout) u act)"
    and Q_kill: "Q (KillUnitWithTarget k (opContext c propertyTimeout) u ''all'' SIGKILL)"
    and Q_prop: "Q (GetUnitProperty k (opContext c propertyTimeout) u p)"
    and Q_props: "Q (GetUnitProperties k (opContext c propertyTimeout) u)"
    and Q_type: "Q (GetUnitTypeProperties k (opContext c propertyTimeout) u p)"
begin

lemmas Q_calls = Q_other Q_start Q_stop Q_wait Q_kill Q_prop Q_props Q_type

lemma q_now [calls_rules]: "calls Q (now env)"
  unfolding now_def Let_def
  by (intro calls_rules Q_calls)

lemma q_getConn [calls_rules]: "calls Q (getConn env)"
  unfolding getConn_def Let_def
  by (intro calls_rules Q_calls)

lemma q_Healthy [calls_rules]: "calls Q (Healthy env)"
  unfolding Healthy_def Let_def
  by (intro calls_rules Q_calls)

lemma q_setConn [calls_rules]: "calls Q (setConn k)"
  unfolding setConn_def Let_def
  by (intro calls_rules Q_calls)

lemma q_subscribe [calls_rules]: "calls Q (subscribeToPropertyChanges env k)"
  unfolding subscribeToPropertyChanges_def Let_def
  by (intro calls_rules Q_calls)

lemma q_cancelReader [calls_rules]: "calls Q (cancelReader r)"
  unfolding cancelReader_def Let_def
  by (intro calls_rules Q_calls)

lemma q_cache [calls_rules]: "calls Q (cacheUnitProperties env ctx u)"
  unfolding cacheUnitProperties_def Let_def
  by (intro calls_rules Q_calls)

lemma q_RegisterUnit [calls_rules]: "calls Q (RegisterUnit env ctx u)"
  unfolding RegisterUnit_def Let_def
  by (intro calls_rules Q_calls)

lemma q_UnregisterUnit [calls_rules]: "calls Q (UnregisterUnit u)"
  unfolding UnregisterUnit_def Let_def
  by (intro calls_rules Q_calls)

lemma q_wakeUnit [calls_rules]: "calls Q (wakeUnit u)"
  unfolding wakeUnit_def Let_def
  by (intro calls_rules Q_calls)

lemma q_recvWake [calls_rules]: "calls Q (recvWake w)"
  unfolding recvWake_def Let_def
  by (intro calls_rules Q_calls)

lemma q_WakeChannel [calls_rules]: "calls Q (WakeChannel u)"
  unfolding WakeChannel_def Let_def
  by (intro calls_rules Q_calls)

lemma q_waitJobResult: "calls Q (waitJobResult env (opContext c jobTimeout) u act)"
  unfolding waitJobResult_def Let_def
  by (intro calls_rules Q_calls)

lemma q_StartUnit [calls_rules]: "calls Q (StartUnit env ctx u)"
  unfolding StartUnit_def Let_def
  by (intro calls_rules Q_calls q_waitJobResult)

lemma q_StopUnit [calls_rules]: "calls Q (StopUnit env ctx u)"
  unfolding StopUnit_def Let_def
  by (intro calls_rules Q_calls q_waitJobResult)

lemma q_KillUnit [calls_rules]: "calls Q (KillUnit env ctx u)"
  unfolding KillUnit_def Let_def
  by (intro calls_rules Q_calls)

lemma q_UnitState [calls_rules]: "calls Q (UnitState env ctx u)"
  unfolding UnitState_def Let_def
  by (intro calls_rules Q_calls)

lemma q_UnitStartTime [calls_rules]: "calls Q (UnitStartTime env ctx u)"
  unfolding UnitStartTime_def Let_def
  by (intro calls_rules Q_calls)

lemma q_UnitExitStatus [calls_rules]: "calls Q (UnitExitStatus env ctx u)"
  unfolding UnitExitStatus_def Let_def
  by (intro calls_rules Q_calls)

lemma q_startJournalReader [calls_rules]: "calls Q (startJournalReader u logCh j)"
  unfolding startJournalReader_def Let_def
  by (intro calls_rules Q_calls)

lemma q_StreamLogs [calls_rules]: "calls Q (StreamLogs env u logCh)"
  unfolding StreamLogs_def registered_def Let_def
  by (intro calls_rules Q_calls)

lemma q_readCgroupV2File [calls_rules]: "calls Q (readCgroupV2File env path)"
  unfolding readCgroupV2File_def Let_def
  by (intro calls_rules Q_calls)

lemma q_calculateCPUPercent: "calls Q (calculateCPUPercent env u v cs)"
  unfolding calculateCPUPercent_def Let_def
  by (intro calls_rules Q_calls)

lemma q_cpuStatLine: "state_io_rel (\<lambda>s t. extends Q (fst s) (fst t)) (cpuStatLine env u k v)"
proof -
  have "extends Q s s" for s :: mstate
    by (simp add: extends_def)
  then show ?thesis
    using callsD [OF q_calculateCPUPercent]
    by (auto simp: cpuStatLine_def state_io_rel_def split: prod.split)
qed

lemma q_with_local [calls_rules]:
  "calls Q (with_local x (scanCgroupKeyValue data (cpuStatLine env u)))"
proof -
  have "preorder_rel (\<lambda>(s :: mstate \<times> CpuStats) t. extends Q (fst s) (fst t))"
    using extends_preorder [of Q] by (auto simp: preorder_rel_def reflp_def transp_def)
  from io_scan [OF this q_cpuStatLine] show ?thesis
    by (auto simp: calls_def state_io_rel_def)
qed

lemma q_getCgroupV2Stats [calls_rules]: "calls Q (getCgroupV2Stats env u path)"
  unfolding getCgroupV2Stats_def Let_def
  by (intro calls_rules Q_calls)

lemma q_ResourceStats [calls_rules]: "calls Q (ResourceStats env ctx u)"
  unfolding ResourceStats_def cachedControlGroup_def Let_def
  by (intro calls_rules Q_calls)

lemma q_CgroupV2Available [calls_rules]: "calls Q (CgroupV2Available env)"
  unfolding CgroupV2Available_def Let_def
  by (intro calls_rules Q_calls)

lemma q_NewManager [calls_rules]: "calls Q (NewManager env DriverCtx cpus)"
  unfolding NewManager_def Let_def
  by (intro calls_rules Q_calls)

lemma q_Manager_Start [calls_rules]: "calls Q Manager_Start"
  unfolding Manager_Start_def Let_def
  by (intro calls_rules Q_calls)

lemma q_finishReader [calls_rules]: "calls Q (finishReader r)"
  unfolding finishReader_def Let_def
  by (intro calls_rules Q_calls)

lemma q_Manager_Stop [calls_rules]: "calls Q Manager_Stop"
  unfolding Manager_Stop_def waitLoops_def waitJournal_def Let_def
  by (intro calls_rules Q_calls)

lemma q_dispatch [calls_rules]: "calls Q (propertiesDispatchLoop evs)"
  by (induction evs rule: propertiesDispatchLoop.induct) (auto intro!: calls_rules)

lemma q_reconnectTick [calls_rules]: "calls Q (reconnectTick env b)"
  unfolding reconnectTick_def tryReconnect_def Let_def
  by (intro calls_rules Q_calls)

end

interpretation bounded: manager_calls bounded_call
  by unfold_locales simp_all

end
