(* ===== verification/DriverFrame.thy ===== *)
theory DriverFrame
  imports HandlerSafety ManagerCalls Weakest
begin

text \<open>
  How the components' guarantees reach the driver: the Manager is a \<open>unit_controller\<close> for every
  outside world, an operation of a Manager or a handler run inside the driver leaves the rest of
  the driver alone, and the weakest-precondition rules that say so.
\<close>

section \<open>Manager operations\<close>

text \<open>What every operation keeps of a Manager, and what those a handler may call keep as well.\<close>

definition mgr_le :: "manager \<Rightarrow> manager \<Rightarrow> bool" where
  "mgr_le m m' \<longleftrightarrow> (wf_mgr m \<longrightarrow> wf_mgr m') \<and> (\<forall>n. closed_down n m \<longrightarrow> closed_down n m')"

definition unit_rel :: "mstate \<Rightarrow> mstate \<Rightarrow> bool" where
  "unit_rel s t \<longleftrightarrow> extends bounded_call s t \<and> mgr_le (mgr s) (mgr t) \<and> wake_of (mgr t) = wake_of (mgr s)"

lemma mgr_le_refl [simp]: "mgr_le m m"
  by (simp add: mgr_le_def)

lemma mgr_le_trans: "mgr_le l m \<Longrightarrow> mgr_le m n \<Longrightarrow> mgr_le l n"
  by (simp add: mgr_le_def)

lemma mgr_leI:
  assumes "keeps wf_mgr m" "\<And>n. keeps (closed_down n) m"
  shows "mgr_le (mgr s) (mgr (exec m s))"
  using keepsD [OF assms(1)] keepsD [OF assms(2)] by (simp add: mgr_le_def)

lemma unit_relI:
  assumes "calls bounded_call m" "keeps wf_mgr m" "\<And>n. keeps (closed_down n) m"
    "\<And>W. keeps (\<lambda>m. wake_of m = W) m"
  shows "unit_rel s (exec m s)"
  using callsD [OF assms(1)] mgr_leI [OF assms(2,3)] keepsD [OF assms(4)]
  by (simp add: unit_rel_def)

lemmas unit_rel_rules = unit_relI calls_rules keeps_rules

lemma unit_rel_preorder: "preorder_rel unit_rel"
  by (auto simp: unit_rel_def extends_def intro!: preorder_relI elim: mgr_le_trans)

interpretation ctl: unit_controller "mgr_ctl env" unit_rel for env
  by unfold_locales (auto simp: mgr_ctl_def unit_rel_preorder intro: unit_rel_rules)

section \<open>The driver around a component\<close>

text \<open>The fields only the driver's own code writes.\<close>

definition same_driver :: "sys \<Rightarrow> sys \<Rightarrow> bool" where
  "same_driver s t \<longleftrightarrow> next_mgr t = next_mgr s \<and> next_hnd t = next_hnd s \<and> tasks t = tasks s \<and>
     systemdMgr t = systemdMgr s \<and> unit_policy t = unit_policy s \<and> unitOwners t = unitOwners s \<and>
     d_servers t = d_servers s \<and> d_pprof t = d_pprof s \<and> d_compute t = d_compute s \<and> d_done t = d_done s"

text \<open>Progress of Managers and handlers.\<close>

definition quietly :: "sys \<Rightarrow> sys \<Rightarrow> bool" where
  "quietly s t \<longleftrightarrow> same_driver s t \<and> extends bounded_call s t \<and>
     (\<forall>mid. mgr_le (mgrs s mid) (mgrs t mid) \<and> wake_of (mgrs t mid) = wake_of (mgrs s mid)) \<and>
     (\<forall>hid. hnd_le (hnds s hid) (hnds t hid))"

lemma quietly_preorder: "preorder_rel quietly"
  by (rule preorder_relI)
     (auto simp: quietly_def same_driver_def extends_def intro: mgr_le_trans hnd_le_trans)

lemma quietly_trans: "quietly s t \<Longrightarrow> quietly t v \<Longrightarrow> quietly s v"
  using quietly_preorder by (meson preorder_rel_def transpD)

lemma quietly_refl [simp]: "quietly s s"
  using quietly_preorder by (meson preorder_rel_def reflpD)

lemma put_mgr_quietly: "unit_rel (get_mgr mid s) t \<Longrightarrow> quietly s (put_mgr mid t s)"
  by (auto simp: quietly_def same_driver_def unit_rel_def put_mgr_def get_mgr_def extends_def)

lemma with_mgr_quietly:
  assumes "\<And>s. unit_rel s (exec m s)"
  shows "state_io_rel quietly (with_mgr mid m)"
  using put_mgr_quietly [OF assms] by (simp add: state_io_rel_def with_mgr_def)

lemma put_hnd_quietly:
  "handler_steps unit_rel (get_hnd hid s) t \<Longrightarrow> quietly s (put_hnd hid t s)"
  by (auto simp: quietly_def same_driver_def unit_rel_def put_mgr_def get_mgr_def extends_def
      handler_steps_def put_hnd_def get_hnd_def)

lemma with_hnd_quietly:
  assumes "state_io_rel (handler_steps unit_rel) m"
  shows "state_io_rel quietly (with_hnd hid m)"
  using put_hnd_quietly [OF io_exec [OF assms]] by (simp add: state_io_rel_def with_hnd_def)

lemma outcall_quietly: "bounded_call c \<Longrightarrow> state_io_rel quietly (outcall c f)"
  by (auto simp: state_io_rel_def quietly_def same_driver_def extends_def)

lemma now_quietly: "state_io_rel quietly (now env)"
  unfolding now_def by (rule outcall_quietly) simp

text \<open>The driver's operations that are nothing but progress of Managers and handlers.\<close>

lemmas quietly_rules = io_rules quietly_preorder with_mgr_quietly with_hnd_quietly outcall_quietly
  now_quietly unit_rel_rules ctl.Handler_StopUnit_steps ctl.Handler_KillUnit_steps
  ctl.Handler_UnitState_steps ctl.Handler_ResourceStats_steps ctl.pollLoop_steps ctl.Handler_Start_steps

lemma rollBack_quietly: "state_io_rel quietly (rollBackFailedStart env mid u)"
  unfolding rollBackFailedStart_def by (intro quietly_rules)

lemma pollGoroutine_quietly: "state_io_rel quietly (pollGoroutine env hid)"
  unfolding pollGoroutine_def by (intro quietly_rules)

lemma forceKillTask_quietly: "state_io_rel quietly (forceKillTask env hid)"
  unfolding forceKillTask_def by (intro quietly_rules)

lemma awaitStop_quietly: "state_io_rel quietly (awaitStop env hid timeout d)"
  unfolding awaitStop_def by (intro quietly_rules pollGoroutine_quietly) simp

lemma beside_stop_quietly:
  "(\<And>d. state_io_rel quietly (k d)) \<Longrightarrow> state_io_rel quietly (beside_stop env hid k)"
  unfolding beside_stop_def by (intro quietly_rules)

lemma stop_outcome_quietly:
  assumes "state_io_rel quietly a" "state_io_rel quietly b" "\<And>e. state_io_rel quietly (c e)"
    "state_io_rel quietly d"
  shows "state_io_rel quietly (case out of Exited \<Rightarrow> a | Stopped \<Rightarrow> b | StopFailed e \<Rightarrow> c e | TimedOut \<Rightarrow> d)"
  using assms by (cases out) auto

lemma StopTask_quietly: "state_io_rel quietly (StopTask env i timeout)"
  unfolding StopTask_def lookupTask_def
  by (intro quietly_rules beside_stop_quietly forceKillTask_quietly awaitStop_quietly stop_outcome_quietly)

lemma stopForDestroy_quietly: "state_io_rel quietly (stopForDestroy env hid)"
  unfolding stopForDestroy_def
  by (intro quietly_rules beside_stop_quietly forceKillTask_quietly awaitStop_quietly stop_outcome_quietly)

lemma sendTaskStats_quietly: "state_io_rel quietly (sendTaskStats env hid d)"
  unfolding sendTaskStats_def by (intro quietly_rules)

lemma statsLoop_quietly: "state_io_rel quietly (statsLoop env hid evs)"
  by (induction evs rule: statsLoop.induct)
     (auto intro!: quietly_rules sendTaskStats_quietly split: prod.split)

lemma buildFingerprint_quietly: "state_io_rel quietly (buildFingerprint env)"
  unfolding buildFingerprint_def getManager_def by (intro quietly_rules)

lemma handleFingerprint_quietly: "state_io_rel quietly (handleFingerprint env evs)"
proof (induction evs)
  case (Cons e evs)
  then show ?case
    by (cases e) (auto intro!: quietly_rules buildFingerprint_quietly split: prod.split)
qed (simp add: io_ret quietly_preorder)

end
