(* ===== verification/DriverInv.thy ===== *)
theory DriverInv
  imports DriverFrame PprofProps
begin

text \<open>
  The driver's invariant. Every task in the store has a handler of its own, created for it, whose
  unit it owns and whose wake channel is the one registered for the unit (until the driver is shut
  down, which empties the Manager's registrations); all Managers are well formed and all but the current one have been stopped; every call so far was bounded. Every RPC
  and every background step keeps it.
\<close>

section \<open>The invariant\<close>

definition tracked :: "sys \<Rightarrow> string \<Rightarrow> nat \<Rightarrow> bool" where
  "tracked s i hid \<longleftrightarrow> Store_Get i (tasks s) = Some hid"

definition task_ok :: "sys \<Rightarrow> string \<Rightarrow> nat \<Rightarrow> bool" where
  "task_ok s i hid \<longleftrightarrow>
     hid < next_hnd s \<and> th_taskID (hnds s hid) = i \<and> sound_handler (hnds s hid) \<and>
     owner (unitOwners s) (th_Unit (hnds s hid)) = Some i \<and>
     th_units (hnds s hid) < next_mgr s \<and> systemdMgr s \<noteq> None \<and>
     (systemdMgr s = Some (th_units (hnds s hid)) \<longrightarrow>
        (\<not> d_done s \<longrightarrow> wake_of (mgrs s (th_units (hnds s hid))) (th_Unit (hnds s hid)) \<noteq> None) \<and>
        th_wakeCh (hnds s hid) = wake_of (mgrs s (th_units (hnds s hid))) (th_Unit (hnds s hid)))"

definition mgrs_ok :: "sys \<Rightarrow> bool" where
  "mgrs_ok s \<longleftrightarrow>
     (\<forall>mid < next_mgr s. wf_mgr (mgrs s mid) \<and>
        (systemdMgr s \<noteq> Some mid \<longrightarrow> (\<exists>n. closed_down n (mgrs s mid)))) \<and>
     (\<forall>mid. systemdMgr s = Some mid \<longrightarrow> mid < next_mgr s)"

definition drv_inv :: "sys \<Rightarrow> bool" where
  "drv_inv s \<longleftrightarrow> wf_gomap (tasks s) \<and> mgrs_ok s \<and> list_all bounded_call (hist s) \<and>
     pprof_ok (d_servers s) (d_pprof s) \<and> (\<forall>i hid. tracked s i hid \<longrightarrow> task_ok s i hid)"

lemma drv_inv_task: "drv_inv s \<Longrightarrow> tracked s i hid \<Longrightarrow> task_ok s i hid"
  by (simp add: drv_inv_def)

text \<open>No tracked task manages the unit.\<close>

definition unmanaged :: "sys \<Rightarrow> string \<Rightarrow> bool" where
  "unmanaged s u \<longleftrightarrow> (\<forall>i hid. tracked s i hid \<longrightarrow> th_Unit (hnds s hid) \<noteq> u)"

lemma extends_bounded: "extends P s t \<Longrightarrow> list_all P (hist s) \<Longrightarrow> list_all P (hist t)"
  by (auto simp: extends_def)

section \<open>Steps that keep it\<close>

lemma mgrs_ok_le:
  assumes "mgrs_ok s" "next_mgr t = next_mgr s" "systemdMgr t = systemdMgr s"
    "\<And>mid. mgr_le (mgrs s mid) (mgrs t mid)"
  shows "mgrs_ok t"
  using assms unfolding mgrs_ok_def mgr_le_def by fastforce

lemma task_ok_quietly: "quietly s t \<Longrightarrow> task_ok s i hid \<Longrightarrow> task_ok t i hid"
  by (auto simp: quietly_def same_driver_def task_ok_def hnd_le_def same_task_def)

lemma drv_inv_quietly: "quietly s t \<Longrightarrow> drv_inv s \<Longrightarrow> drv_inv t"
  using task_ok_quietly [of s t] mgrs_ok_le [of s t] extends_bounded [of bounded_call s t]
  by (auto simp: drv_inv_def quietly_def same_driver_def tracked_def)

lemma unmanaged_quietly: "quietly s t \<Longrightarrow> unmanaged s u \<Longrightarrow> unmanaged t u"
  by (auto simp: unmanaged_def quietly_def same_driver_def tracked_def hnd_le_def same_task_def)

text \<open>The current Manager's registration of one unit changes.\<close>

definition reregisters :: "nat \<Rightarrow> string \<Rightarrow> sys \<Rightarrow> sys \<Rightarrow> bool" where
  "reregisters mid u s t \<longleftrightarrow> same_driver s t \<and> extends bounded_call s t \<and> hnds t = hnds s \<and>
     (\<forall>m. mgr_le (mgrs s m) (mgrs t m)) \<and>
     (\<forall>m v. (m, v) \<noteq> (mid, u) \<longrightarrow> wake_of (mgrs t m) v = wake_of (mgrs s m) v)"

lemma wake_register:
  "wake_of (mgr (exec (RegisterUnit env ctx u) s)) v =
     (if v = u then Some (length (wakes (mgr s))) else wake_of (mgr s) v)"
proof -
  have "wake_of (mgr (exec (RegisterUnit env ctx u) s)) = wake_of (register_m u (mgr s))"
    using keepsD [OF wakes.cache_keeps [of "wake_of (register_m u (mgr s))" env ctx u],
        of "s\<lparr>mgr := register_m u (mgr s)\<rparr>"]
    by (simp add: run_RegisterUnit)
  then show ?thesis
    by (simp add: register_m_def wake_of_def new_unitState_def unitLocked_def)
qed

lemma wake_unregister:
  "wake_of (mgr (exec (UnregisterUnit u) s)) v = (if v = u then None else wake_of (mgr s) v)"
  by (simp add: run_UnregisterUnit unregister_m_def wake_of_def)

lemma exec_with_mgr: "exec (with_mgr mid m) s = put_mgr mid (exec m (get_mgr mid s)) s"
  and result_with_mgr: "result (with_mgr mid m) s = result m (get_mgr mid s)"
  by (simp_all add: with_mgr_def)

lemma put_mgr_reregisters:
  assumes "extends bounded_call (get_mgr mid s) t" "mgr_le (mgrs s mid) (mgr t)"
    "\<And>v. v \<noteq> u \<Longrightarrow> wake_of (mgr t) v = wake_of (mgrs s mid) v"
  shows "reregisters mid u s (put_mgr mid t s)"
  using assms by (auto simp: reregisters_def same_driver_def put_mgr_def get_mgr_def extends_def)

lemma mgr_get [simp]: "mgr (get_mgr mid s) = mgrs s mid"
  by (simp add: get_mgr_def)

lemma register_reregisters:
  "reregisters mid u s (exec (with_mgr mid (RegisterUnit env ctx u)) s)"
  "wake_of (mgrs (exec (with_mgr mid (RegisterUnit env ctx u)) s) mid) u \<noteq> None"
proof -
  have "mgr_le (mgrs s mid) (mgr (exec (RegisterUnit env ctx u) (get_mgr mid s)))"
    using mgr_leI [OF wf.RegisterUnit_keeps down.RegisterUnit_keeps, of "get_mgr mid s"] by simp
  then show "reregisters mid u s (exec (with_mgr mid (RegisterUnit env ctx u)) s)"
    unfolding exec_with_mgr
    by (intro put_mgr_reregisters callsD calls_rules) (simp_all add: wake_register)
  show "wake_of (mgrs (exec (with_mgr mid (RegisterUnit env ctx u)) s) mid) u \<noteq> None"
    by (simp add: exec_with_mgr put_mgr_def wake_register)
qed

lemma unregister_reregisters: "reregisters mid u s (exec (with_mgr mid (UnregisterUnit u)) s)"
proof -
  have "mgr_le (mgrs s mid) (mgr (exec (UnregisterUnit u) (get_mgr mid s)))"
    using mgr_leI [OF wf.UnregisterUnit_keeps down.UnregisterUnit_keeps, of "get_mgr mid s"] by simp
  then show ?thesis
    unfolding exec_with_mgr
    by (intro put_mgr_reregisters callsD calls_rules) (simp_all add: wake_unregister)
qed

lemma drv_inv_reregisters:
  assumes "reregisters mid u s t" "drv_inv s" "unmanaged s u"
  shows "drv_inv t" "unmanaged t u"
proof -
  have "task_ok t i hid" if "tracked s i hid" for i hid
  proof -
    have "wake_of (mgrs t m) (th_Unit (hnds s hid)) = wake_of (mgrs s m) (th_Unit (hnds s hid))" for m
      using assms(1,3) that by (auto simp: reregisters_def unmanaged_def)
    then show ?thesis
      using assms(1) drv_inv_task [OF assms(2) that]
      by (simp add: reregisters_def same_driver_def task_ok_def)
  qed
  then show "drv_inv t"
    using assms mgrs_ok_le [of s t] extends_bounded [of bounded_call s t]
    by (auto simp: drv_inv_def reregisters_def same_driver_def tracked_def)
  show "unmanaged t u"
    using assms by (auto simp: reregisters_def same_driver_def unmanaged_def tracked_def)
qed

section \<open>Ownership\<close>

lemma drv_inv_claim:
  assumes "drv_inv s" "fst (claimUnit u i (unitOwners s)) = None"
  shows "drv_inv (s\<lparr>unitOwners := snd (claimUnit u i (unitOwners s))\<rparr>)"
proof -
  have "owner (snd (claimUnit u i (unitOwners s))) = (owner (unitOwners s))(u \<mapsto> i)"
    by (rule own.claim_holder [OF assms(2)])
  moreover have "owner (unitOwners s) u = None \<or> owner (unitOwners s) u = Some i"
    using assms(2) by (simp add: own.claim_iff)
  ultimately have "task_ok (s\<lparr>unitOwners := snd (claimUnit u i (unitOwners s))\<rparr>) j hid"
    if "task_ok s j hid" for j hid
    using that by (auto simp: task_ok_def)
  then show ?thesis
    using assms(1) by (auto simp: drv_inv_def mgrs_ok_def tracked_def)
qed

text \<open>A unit that a task without a handler has claimed has no handler at all.\<close>

lemma claimed_unmanaged:
  assumes "drv_inv s" "owner (unitOwners s) u = Some i" "Store_Get i (tasks s) = None"
  shows "unmanaged s u"
  using assms by (fastforce simp: unmanaged_def drv_inv_def task_ok_def tracked_def)

lemma drv_inv_release:
  assumes "drv_inv s" "unmanaged s u"
  shows "drv_inv (s\<lparr>unitOwners := releaseUnit u (unitOwners s)\<rparr>)"
  using assms
  by (auto simp: drv_inv_def mgrs_ok_def tracked_def unmanaged_def task_ok_def own.holder_release)

text \<open>One task per unit.\<close>

lemma drv_inv_unit_unique:
  assumes "drv_inv s" "tracked s i hid" "tracked s j hid'" "th_Unit (hnds s hid) = th_Unit (hnds s hid')"
  shows "i = j \<and> hid = hid'"
  using drv_inv_task [OF assms(1,2)] drv_inv_task [OF assms(1,3)] assms(2-4)
  by (auto simp: task_ok_def tracked_def)

section \<open>New handlers\<close>

text \<open>A handler is allocated: the entries of the heap in use stay as they are.\<close>

definition allocates :: "nat \<Rightarrow> sys \<Rightarrow> sys \<Rightarrow> bool" where
  "allocates hid s t \<longleftrightarrow> hid = next_hnd s \<and>
     next_hnd t = Suc hid \<and> next_mgr t = next_mgr s \<and> tasks t = tasks s \<and>
     systemdMgr t = systemdMgr s \<and> unit_policy t = unit_policy s \<and> unitOwners t = unitOwners s \<and>
     d_servers t = d_servers s \<and> d_pprof t = d_pprof s \<and> d_compute t = d_compute s \<and> d_done t = d_done s \<and>
     extends bounded_call s t \<and> (\<forall>h. h \<noteq> hid \<longrightarrow> hnds t h = hnds s h) \<and> mgrs t = mgrs s"

definition fresh_handler :: "string \<Rightarrow> string \<Rightarrow> TaskHandle \<Rightarrow> nat \<Rightarrow> TaskState \<Rightarrow> nat option \<Rightarrow> nat \<Rightarrow> handler \<Rightarrow> bool" where
  "fresh_handler i u handle mid st w hid h \<longleftrightarrow>
     th_id h = hid \<and> th_taskID h = i \<and> th_Unit h = u \<and> th_units h = mid \<and> th_wakeCh h = w \<and>
     th_handle h = handle \<and> th_state h = st \<and> th_exitResult h = None \<and> th_completedAt h = None \<and>
     th_exitOnce h = (st = TaskStateExited) \<and> th_closes h = (if st = TaskStateExited then 1 else 0) \<and>
     \<not> th_canceled h \<and> th_wg h = 0"

lemma newTaskHandler_wp:
  assumes "\<And>hid t. allocates hid s t \<Longrightarrow>
      fresh_handler i u handle mid st (wake_of (mgrs s mid) u) hid (hnds t hid) \<Longrightarrow> Q hid t"
  shows "wp (newTaskHandler env i u handle mid st) Q s"
proof -
  let ?w = "wake_of (mgrs s mid) u"
  have w: "run_state (with_mgr mid (WakeChannel u)) s = (?w, s)"
    by (simp add: with_mgr_def WakeChannel_def wake_of_def get_mgr_def put_mgr_def)
  let ?new = "with_mgr mid (NewHandler (mgr_ctl env) (next_hnd s) i u handle mid ?w st)"
  have "run_state ?new s = (result ?new s, s\<lparr>hist := hist s @ [Now]\<rparr>)"
    by (simp add: with_mgr_def NewHandler_def mgr_ctl_def now_def get_mgr_def put_mgr_def Let_def)
  moreover have "fresh_handler i u handle mid st ?w (next_hnd s) (result ?new s)"
    by (simp add: with_mgr_def NewHandler_def mgr_ctl_def now_def get_mgr_def put_mgr_def Let_def
        fresh_handler_def close_wait_def)
  ultimately obtain h where h: "run_state ?new s = (h, s\<lparr>hist := hist s @ [Now]\<rparr>)"
    "fresh_handler i u handle mid st ?w (next_hnd s) h"
    by blast
  show ?thesis
    unfolding newTaskHandler_def
    by (simp add: wp_simps wp_run [OF w] wp_run [OF h(1)])
       (rule assms; use h(2) in \<open>simp add: allocates_def extends_def\<close>)
qed

lemma drv_inv_set_task:
  assumes "drv_inv s" "task_ok s i hid"
  shows "drv_inv (s\<lparr>tasks := Store_Set i hid (tasks s)\<rparr>)"
  using assms ts.ok_put [of "tasks s" i hid]
  by (auto simp: drv_inv_def mgrs_ok_def tracked_def task_ok_def ts.get_put)

lemma drv_inv_untrack:
  assumes "drv_inv s"
  shows "drv_inv (s\<lparr>tasks := Store_Delete i (tasks s)\<rparr>)"
  using assms ts.ok_del [of "tasks s" i]
  by (auto simp: drv_inv_def mgrs_ok_def tracked_def task_ok_def ts.get_del split: if_splits)

section \<open>Handler_Start in the driver\<close>

lemma hnd_Handler_Start:
  "hnd (exec (Handler_Start uc) s) = (hnd s)\<lparr>th_wg := th_wg (hnd s) + 2\<rparr>"
  by (simp add: Handler_Start_def)

definition starts :: "nat \<Rightarrow> sys \<Rightarrow> sys \<Rightarrow> bool" where
  "starts hid s t \<longleftrightarrow> quietly s t \<and>
     hnds t = (hnds s)(hid := (hnds s hid)\<lparr>th_wg := th_wg (hnds s hid) + 2\<rparr>)"

lemma Handler_Start_starts: "starts hid s (exec (with_hnd hid (Handler_Start (mgr_ctl env))) s)"
proof -
  have "quietly s (exec (with_hnd hid (Handler_Start (mgr_ctl env))) s)"
    by (rule io_exec) (intro quietly_rules)
  then show ?thesis
    by (simp add: starts_def with_hnd_def put_hnd_def hnd_Handler_Start put_mgr_def get_hnd_def)
qed

lemma with_hnd_Start_wp:
  "(\<And>t. starts hid s t \<Longrightarrow> Q () t) \<Longrightarrow> wp (with_hnd hid (Handler_Start (mgr_ctl env))) Q s"
  using Handler_Start_starts by (simp add: wp_def)

lemma RegisterUnit_wp:
  "(\<And>t. reregisters mid u s t \<Longrightarrow> wake_of (mgrs t mid) u \<noteq> None \<Longrightarrow> Q () t) \<Longrightarrow>
   wp (with_mgr mid (RegisterUnit env ctx u)) Q s"
  using register_reregisters [where mid = mid and u = u and s = s and env = env and ctx = ctx]
  by (simp add: wp_def)

lemma quietly_wp: "state_io_rel quietly m \<Longrightarrow> (\<And>a t. quietly s t \<Longrightarrow> Q a t) \<Longrightarrow> wp m Q s"
  by (rule wp_rel)

section \<open>A handler of one's own\<close>

text \<open>Operations that touch at most the handler \<open>hid\<close>, which is not yet in the store.\<close>

definition beside_hnd :: "nat \<Rightarrow> sys \<Rightarrow> sys \<Rightarrow> bool" where
  "beside_hnd hid s t \<longleftrightarrow> same_driver s t \<and> extends bounded_call s t \<and>
     (\<forall>m. mgr_le (mgrs s m) (mgrs t m) \<and> wake_of (mgrs t m) = wake_of (mgrs s m)) \<and>
     (\<forall>h. h \<noteq> hid \<longrightarrow> hnds t h = hnds s h)"

definition aside :: "sys \<Rightarrow> sys \<Rightarrow> bool" where
  "aside s t \<longleftrightarrow> quietly s t \<and> hnds t = hnds s"

lemma with_mgr_aside: "(\<And>s. unit_rel s (exec m s)) \<Longrightarrow> aside s (exec (with_mgr mid m) s)"
  using io_exec [OF with_mgr_quietly] by (auto simp: aside_def with_mgr_def put_mgr_def)

lemma aside_wp: "(\<And>s. unit_rel s (exec m s)) \<Longrightarrow>
    (\<And>t. aside s t \<Longrightarrow> Q (result m (get_mgr mid s)) t) \<Longrightarrow> wp (with_mgr mid m) Q s"
  using with_mgr_aside [of m s mid] by (simp add: wp_def result_with_mgr)

lemma beside_hnd_aside: "beside_hnd hid s t \<Longrightarrow> aside t v \<Longrightarrow> beside_hnd hid s v \<and> hnds v hid = hnds t hid"
  by (auto simp: beside_hnd_def aside_def quietly_def same_driver_def extends_def intro: mgr_le_trans)

lemma beside_hnd_now: "beside_hnd hid s t \<Longrightarrow> beside_hnd hid s (t\<lparr>hist := hist t @ [Now]\<rparr>)"
  by (auto simp: beside_hnd_def same_driver_def extends_def)

lemma beside_hnd_upd: "beside_hnd hid s t \<Longrightarrow> beside_hnd hid s (t\<lparr>hnds := (hnds t)(hid := h)\<rparr>)"
  by (auto simp: beside_hnd_def same_driver_def extends_def)

lemma beside_hnd_refl [simp]: "beside_hnd hid s s"
  by (simp add: beside_hnd_def same_driver_def extends_def)

text \<open>A handler ready to be started: all of \<open>fresh_handler\<close>, with the exit result set.\<close>

definition ready_handler ::
    "string \<Rightarrow> string \<Rightarrow> TaskHandle \<Rightarrow> nat \<Rightarrow> TaskState \<Rightarrow> nat option \<Rightarrow> nat \<Rightarrow> ExitResult option \<Rightarrow> handler \<Rightarrow> bool" where
  "ready_handler i u handle mid st w hid er h \<longleftrightarrow>
     th_id h = hid \<and> th_taskID h = i \<and> th_Unit h = u \<and> th_units h = mid \<and> th_wakeCh h = w \<and>
     th_handle h = handle \<and> th_state h = st \<and> th_exitResult h = er \<and>
     (th_completedAt h \<noteq> None \<longleftrightarrow> er \<noteq> None) \<and>
     th_exitOnce h = (st = TaskStateExited) \<and> th_closes h = (if st = TaskStateExited then 1 else 0) \<and>
     \<not> th_canceled h \<and> th_wg h = 0"

lemma fresh_ready: "fresh_handler i u handle mid st w hid h \<Longrightarrow> ready_handler i u handle mid st w hid None h"
  by (simp add: fresh_handler_def ready_handler_def)

lemma ready_SetStartedAt:
  "ready_handler i u handle mid st w hid er (SetStartedAt t h) = ready_handler i u handle mid st w hid er h"
  by (simp add: ready_handler_def SetStartedAt_def)

lemma ready_SetExitResult:
  "ready_handler i u handle mid st w hid None h \<Longrightarrow>
   ready_handler i u handle mid st w hid (Some r) (SetExitResult r t h)"
  by (simp add: ready_handler_def SetExitResult_def)

lemma wp_upd_handler [wp_simps]:
  "wp (upd_handler hid f) Q s = Q () (s\<lparr>hnds := (hnds s)(hid := f (hnds s hid))\<rparr>)"
  by (simp add: upd_handler_def wp_modify)

lemma wp_now [wp_simps]: "wp (now env) Q (s :: sys) = Q (e_now env (hist s)) (s\<lparr>hist := hist s @ [Now]\<rparr>)"
  by (simp add: now_def wp_def)

lemma recoveredExitResult_wp:
  assumes "\<And>reply t. aside s t \<Longrightarrow> Q (exit_of st reply) t"
  shows "wp (recoveredExitResult env mid u st) Q s"
  unfolding recoveredExitResult_def wp_bind
  by (rule aside_wp) (auto simp: wp_ret exit_of_def [symmetric] intro: unit_rel_rules assms)

lemma prepareRecovered_wp:
  assumes h: "ready_handler i u handle mid st w hid None (hnds s hid)"
    and post: "\<And>t er. beside_hnd hid s t \<Longrightarrow> ready_handler i u handle mid st w hid er (hnds t hid) \<Longrightarrow>
      (if st = TaskStateExited then \<exists>reply. er = Some (exit_of activeState reply) else er = None) \<Longrightarrow> Q () t"
  shows "wp (prepareRecovered env hid mid u st activeState) Q s"
proof -
  have "wp (if st = TaskStateExited then do {
        exitResult \<leftarrow> recoveredExitResult env mid u activeState;
        t \<leftarrow> now env;
        upd_handler hid (SetExitResult exitResult t)
      } else ret ()) Q t"
    if t: "beside_hnd hid s t" "ready_handler i u handle mid st w hid None (hnds t hid)" for t
  proof (cases "st = TaskStateExited")
    case True
    have "wp (do { t \<leftarrow> now env; upd_handler hid (SetExitResult (exit_of activeState reply) t) }) Q v"
      if "aside t v" for reply v
      using beside_hnd_aside [OF t(1) that] t(2) True
      by (auto simp: wp_simps intro!: post beside_hnd_upd [OF beside_hnd_now, simplified] ready_SetExitResult)
    with True show ?thesis
      by (simp add: wp_bind [of "recoveredExitResult env mid u activeState"] recoveredExitResult_wp)
  qed (use t post in \<open>simp add: wp_ret\<close>)
  then show ?thesis
    unfolding prepareRecovered_def wp_bind [of "with_mgr mid (UnitStartTime env DriverCtx u)"]
    using beside_hnd_aside [OF beside_hnd_refl] h
    by (intro aside_wp unit_rel_rules)
       (auto simp: wp_simps ready_SetStartedAt beside_hnd_upd split: sum.split)
qed

lemma recoveredState_iff:
  "recoveredState st = (if IsTerminal st then TaskStateExited else TaskStateRunning)"
  by (cases "ToTaskState st") (auto simp: recoveredState_def ToTaskState_exited [symmetric])

text \<open>A new handler is made and started; the rest of the driver stays as it was.\<close>

definition attaching :: "nat \<Rightarrow> sys \<Rightarrow> sys \<Rightarrow> bool" where
  "attaching hid s t \<longleftrightarrow> hid = next_hnd s \<and> next_hnd t = Suc hid \<and> next_mgr t = next_mgr s \<and> tasks t = tasks s \<and>
     systemdMgr t = systemdMgr s \<and> unit_policy t = unit_policy s \<and> unitOwners t = unitOwners s \<and>
     d_servers t = d_servers s \<and> d_pprof t = d_pprof s \<and> d_done t = d_done s \<and> extends bounded_call s t \<and>
     (\<forall>m. mgr_le (mgrs s m) (mgrs t m) \<and> wake_of (mgrs t m) = wake_of (mgrs s m)) \<and>
     (\<forall>h. h \<noteq> hid \<longrightarrow> hnds t h = hnds s h)"

lemma attaching_new: "allocates hid s t \<Longrightarrow> attaching hid s t"
  by (simp add: allocates_def attaching_def)

lemma attaching_beside: "attaching hid s t \<Longrightarrow> beside_hnd hid t v \<Longrightarrow> attaching hid s v"
  by (auto simp: attaching_def beside_hnd_def same_driver_def extends_def intro: mgr_le_trans)

lemma starts_beside: "starts hid s t \<Longrightarrow> beside_hnd hid s t"
  by (simp add: starts_def beside_hnd_def quietly_def)

definition running_handler ::
    "string \<Rightarrow> string \<Rightarrow> TaskHandle \<Rightarrow> nat \<Rightarrow> TaskState \<Rightarrow> nat option \<Rightarrow> nat \<Rightarrow> ExitResult option \<Rightarrow> handler \<Rightarrow> bool" where
  "running_handler i u handle mid st w hid er h \<longleftrightarrow>
     (\<exists>h0. ready_handler i u handle mid st w hid er h0 \<and> h = h0\<lparr>th_wg := 2\<rparr>)"

lemma running_starts:
  "starts hid s t \<Longrightarrow> ready_handler i u handle mid st w hid er (hnds s hid) \<Longrightarrow>
   running_handler i u handle mid st w hid er (hnds t hid)"
  by (auto simp: starts_def running_handler_def ready_handler_def)

text \<open>The exit result of a new handler: none for a running task, systemd's for an exited one.\<close>

definition exit_known :: "TaskState \<Rightarrow> UnitState \<Rightarrow> ExitResult option \<Rightarrow> bool" where
  "exit_known st activeState er \<longleftrightarrow>
     (if st = TaskStateExited then \<exists>reply. er = Some (exit_of activeState reply) else er = None)"

lemma sys_hist_tasks: "(s :: sys)\<lparr>tasks := ts, hist := h\<rparr> = s\<lparr>hist := h, tasks := ts\<rparr>"
  by simp

lemma attachTask_wp:
  assumes post: "\<And>t. attaching (next_hnd s) s t \<Longrightarrow>
      running_handler (ID cfg) u handle mid TaskStateRunning (wake_of (mgrs s mid) u) (next_hnd s) None (hnds t (next_hnd s)) \<Longrightarrow>
      Q () (t\<lparr>tasks := Store_Set (ID cfg) (next_hnd s) (tasks t)\<rparr>)"
  shows "wp (attachTask env mid cfg u handle st) Q s"
proof -
  let ?w = "wake_of (mgrs s mid) u"
  have "Q () (s3\<lparr>tasks := Store_Set (ID cfg) hid (tasks s3), hist := hist s3 @ cs\<rparr>)"
    if s2: "allocates hid s s2" "fresh_handler (ID cfg) u handle mid TaskStateRunning ?w hid (hnds s2 hid)"
      and s3: "starts hid s2 s3" and cs: "list_all bounded_call cs" for s2 s3 hid cs
  proof -
    let ?t = "s3\<lparr>hist := hist s3 @ cs\<rparr>"
    have "attaching hid s ?t"
      using attaching_beside [OF attaching_new [OF s2(1)] starts_beside [OF s3]] cs
      by (auto simp: attaching_def extends_def)
    moreover have "hid = next_hnd s"
      using s2(1) by (simp add: allocates_def)
    ultimately show ?thesis
      using post [of ?t] running_starts [OF s3 fresh_ready [OF s2(2)]]
      by (simp add: sys_hist_tasks)
  qed
  then show ?thesis
    unfolding attachTask_def wp_bind
    by (intro newTaskHandler_wp with_hnd_Start_wp) (simp add: wp_def set_task_def now_def)
qed

lemma attachRecovered_wp:
  assumes post: "\<And>t er. attaching (next_hnd s) s t \<Longrightarrow> exit_known (recoveredState st) st er \<Longrightarrow>
      running_handler i u handle mid (recoveredState st) (wake_of (mgrs s mid) u) (next_hnd s) er (hnds t (next_hnd s)) \<Longrightarrow>
      Q () (t\<lparr>tasks := Store_Set i (next_hnd s) (tasks t)\<rparr>)"
  shows "wp (attachRecovered env mid i u handle st) Q s"
proof -
  let ?w = "wake_of (mgrs s mid) u"
  have "wp (set_task i hid) Q s4"
    if s2: "allocates hid s s2"
      and s3: "beside_hnd hid s2 s3" "ready_handler i u handle mid (recoveredState st) ?w hid er (hnds s3 hid)"
        "exit_known (recoveredState st) st er"
      and s4: "starts hid s3 s4" for s2 s3 s4 hid er
  proof -
    have "attaching hid s s4" "hid = next_hnd s"
      using attaching_beside [OF attaching_beside [OF attaching_new [OF s2] s3(1)] starts_beside [OF s4]] s2
      by (simp_all add: allocates_def)
    then show ?thesis
      using post [OF _ s3(3), of s4] running_starts [OF s4 s3(2)] by (simp add: wp_simps set_task_def)
  qed
  note tail = this
  show ?thesis
    unfolding attachRecovered_def wp_bind
    by (intro newTaskHandler_wp prepareRecovered_wp with_hnd_Start_wp)
       (erule fresh_ready, rule tail, auto simp: exit_known_def)
qed

text \<open>Attaching a handler keeps the invariant, whichever Manager it was given.\<close>

definition wired :: "sys \<Rightarrow> nat \<Rightarrow> string \<Rightarrow> bool" where
  "wired s mid u \<longleftrightarrow> mid < next_mgr s \<and> systemdMgr s \<noteq> None \<and>
     (systemdMgr s = Some mid \<and> \<not> d_done s \<longrightarrow> wake_of (mgrs s mid) u \<noteq> None)"

lemma drv_inv_attach:
  assumes inv: "drv_inv s" and own: "owner (unitOwners s) u = Some i" and mid: "wired s mid u"
    and t: "attaching hid s t" "running_handler i u handle mid st (wake_of (mgrs s mid) u) hid er (hnds t hid)"
      "exit_known st activeState er"
    and st: "st = TaskStateRunning \<or> st = TaskStateExited"
  shows "drv_inv (t\<lparr>tasks := Store_Set i hid (tasks t)\<rparr>)"
proof (rule drv_inv_set_task)
  have "task_ok t j h" if "tracked s j h" for j h
  proof -
    have "h \<noteq> hid"
      using drv_inv_task [OF inv that] t(1) by (auto simp: task_ok_def attaching_def)
    then show ?thesis
      using drv_inv_task [OF inv that] t(1) by (simp add: task_ok_def attaching_def)
  qed
  then show "drv_inv t"
    using inv t(1) mgrs_ok_le [of s t] extends_bounded [of bounded_call s t]
    by (auto simp: drv_inv_def attaching_def tracked_def)
  show "task_ok t i hid"
    using t own mid st
    by (auto simp: task_ok_def running_handler_def ready_handler_def attaching_def wired_def
        sound_handler_def HasExited_def exit_known_def split: if_splits)
qed

section \<open>Putting a task under management\<close>

text \<open>The task \<open>i\<close> is tracked by a new handler for the unit \<open>u\<close>, in place of the rest as it was.\<close>

definition now_tracked :: "string \<Rightarrow> string \<Rightarrow> TaskHandle \<Rightarrow> nat \<Rightarrow> TaskState \<Rightarrow> sys \<Rightarrow> sys \<Rightarrow> bool" where
  "now_tracked i u handle mid st s t \<longleftrightarrow>
     tasks t = Store_Set i (next_hnd s) (tasks s) \<and> unitOwners t = unitOwners s \<and>
     next_mgr t = next_mgr s \<and>
     systemdMgr t = systemdMgr s \<and> unit_policy t = unit_policy s \<and> d_servers t = d_servers s \<and> d_pprof t = d_pprof s \<and>
     (let h = hnds t (next_hnd s) in
        th_id h = next_hnd s \<and> th_taskID h = i \<and> th_Unit h = u \<and> th_units h = mid \<and>
        th_handle h = handle \<and> th_state h = st \<and> th_wg h = 2 \<and> \<not> th_canceled h \<and>
        th_wakeCh h = wake_of (mgrs t mid) u \<and> th_wakeCh h \<noteq> None)"

lemma now_trackedI:
  assumes "reregisters mid u s s1" "wake_of (mgrs s1 mid) u \<noteq> None" "attaching (next_hnd s1) s1 t"
    "running_handler i u handle mid st (wake_of (mgrs s1 mid) u) (next_hnd s1) er (hnds t (next_hnd s1))"
  shows "now_tracked i u handle mid st s (t\<lparr>tasks := Store_Set i (next_hnd s1) (tasks t)\<rparr>)"
  using assms
  by (auto simp: now_tracked_def reregisters_def same_driver_def attaching_def running_handler_def
      ready_handler_def)

lemma wired_now:
  "reregisters mid u s t \<Longrightarrow> wake_of (mgrs t mid) u \<noteq> None \<Longrightarrow> mid < next_mgr s \<Longrightarrow> systemdMgr s \<noteq> None \<Longrightarrow>
   wired t mid u"
  by (simp add: wired_def reregisters_def same_driver_def)

lemma drv_inv_current: "drv_inv s \<Longrightarrow> systemdMgr s = Some mid \<Longrightarrow> mid < next_mgr s"
  by (simp add: drv_inv_def mgrs_ok_def)

lemma manageTask_wp:
  assumes inv: "drv_inv s" and free: "unmanaged s u" and own: "owner (unitOwners s) u = Some (ID cfg)"
    and cur: "systemdMgr s = Some mid"
    and post: "\<And>t. drv_inv t \<Longrightarrow> now_tracked (ID cfg) u handle mid TaskStateRunning s t \<Longrightarrow> Q () t"
  shows "wp (manageTask env mid cfg u handle st) Q s"
  unfolding manageTask_def wp_bind
proof (intro RegisterUnit_wp attachTask_wp post)
  fix s1 t
  assume s1: "reregisters mid u s s1" "wake_of (mgrs s1 mid) u \<noteq> None"
    and t: "attaching (next_hnd s1) s1 t" "running_handler (ID cfg) u handle mid TaskStateRunning
      (wake_of (mgrs s1 mid) u) (next_hnd s1) None (hnds t (next_hnd s1))"
  have "owner (unitOwners s1) u = Some (ID cfg)"
    using own s1(1) by (simp add: reregisters_def same_driver_def)
  then show "drv_inv (t\<lparr>tasks := Store_Set (ID cfg) (next_hnd s1) (tasks t)\<rparr>)"
    using drv_inv_reregisters(1) [OF s1(1) inv free] wired_now [OF s1 drv_inv_current [OF inv cur]] cur t
    by (intro drv_inv_attach) (auto simp: exit_known_def)
  show "now_tracked (ID cfg) u handle mid TaskStateRunning s (t\<lparr>tasks := Store_Set (ID cfg) (next_hnd s1) (tasks t)\<rparr>)"
    by (rule now_trackedI [OF s1 t])
qed

lemma manageRecovered_wp:
  assumes inv: "drv_inv s" and free: "unmanaged s u" and own: "owner (unitOwners s) u = Some i"
    and cur: "systemdMgr s = Some mid"
    and post: "\<And>t. drv_inv t \<Longrightarrow> now_tracked i u handle mid (recoveredState st) s t \<Longrightarrow>
      exit_known (recoveredState st) st (th_exitResult (hnds t (next_hnd s))) \<Longrightarrow> Q () t"
  shows "wp (manageRecovered env mid i u handle st) Q s"
  unfolding manageRecovered_def wp_bind
proof (intro RegisterUnit_wp attachRecovered_wp post)
  fix s1 t er
  assume s1: "reregisters mid u s s1" "wake_of (mgrs s1 mid) u \<noteq> None"
    and t: "attaching (next_hnd s1) s1 t" "running_handler i u handle mid (recoveredState st)
      (wake_of (mgrs s1 mid) u) (next_hnd s1) er (hnds t (next_hnd s1))"
    and er: "exit_known (recoveredState st) st er"
  let ?t = "t\<lparr>tasks := Store_Set i (next_hnd s1) (tasks t)\<rparr>"
  have own1: "owner (unitOwners s1) u = Some i" and hid: "next_hnd s1 = next_hnd s"
    using own s1(1) by (simp_all add: reregisters_def same_driver_def)
  show "drv_inv ?t"
    using drv_inv_reregisters(1) [OF s1(1) inv free] wired_now [OF s1 drv_inv_current [OF inv cur]] cur
    by (intro drv_inv_attach [OF _ own1 _ t er]) (auto simp: recoveredState_iff)
  show "now_tracked i u handle mid (recoveredState st) s ?t"
    by (rule now_trackedI [OF s1 t])
  show "exit_known (recoveredState st) st (th_exitResult (hnds ?t (next_hnd s)))"
    using t(2) er hid by (auto simp: running_handler_def ready_handler_def)
qed

end
