(* ===== verification/DriverConn.thy ===== *)
theory DriverConn
  imports DriverInv
begin

text \<open>
  Operations that use a Manager's connection and do not replace it: what systemd has answered on it,
  and when. (Only the reconnect loop and \<open>NewManager\<close> make a connection.)
\<close>

section \<open>Operations that do not reconnect\<close>

text \<open>The Manager keeps its connection and the calls made are only added to.\<close>

definition conn_rel :: "mstate \<Rightarrow> mstate \<Rightarrow> bool" where
  "conn_rel s t \<longleftrightarrow> conn (mgr t) = conn (mgr s) \<and> extends bounded_call s t"

lemma conn_preorder: "preorder_rel conn_rel"
  by (rule preorder_relI) (auto simp: conn_rel_def extends_def)

lemma conn_relI:
  assumes "calls bounded_call m" "\<And>C. keeps (\<lambda>u. conn u = C) m"
  shows "conn_rel s (exec m s)"
  using callsD [OF assms(1)] keepsD [OF assms(2)] by (simp add: conn_rel_def)

lemmas conn_rules = conn_relI calls_rules keeps_rules

interpretation conn: unit_controller "mgr_ctl env" conn_rel for env
  by unfold_locales (auto simp: mgr_ctl_def conn_preorder intro: conn_rules)

section \<open>The driver's operations\<close>

text \<open>\<open>later mid s t\<close>: \<open>t\<close> may follow \<open>s\<close>, with the same connection of the Manager \<open>mid\<close>.\<close>

definition later :: "nat \<Rightarrow> sys \<Rightarrow> sys \<Rightarrow> bool" where
  "later mid s t \<longleftrightarrow> conn_rel (get_mgr mid s) (get_mgr mid t)"

lemma later_iff: "later mid s t \<longleftrightarrow> conn (mgrs t mid) = conn (mgrs s mid) \<and> extends bounded_call s t"
  by (auto simp: later_def conn_rel_def get_mgr_def extends_def)

lemma later_preorder: "preorder_rel (later mid)"
  by (rule preorder_relI) (auto simp: later_iff extends_def)

lemma later_refl [simp]: "later mid s s"
  and later_trans [trans]: "later mid s t \<Longrightarrow> later mid t v \<Longrightarrow> later mid s v"
  by (auto simp: later_iff extends_def)

lemma later_put_mgr: "conn_rel (get_mgr m s) t \<Longrightarrow> later mid s (put_mgr m t s)"
  by (auto simp: later_iff conn_rel_def get_mgr_def put_mgr_def extends_def)

lemma later_with_mgr:
  assumes "\<And>s. conn_rel s (exec m s)"
  shows "state_io_rel (later mid) (with_mgr m' m)"
  using later_put_mgr [OF assms] by (simp add: state_io_rel_def exec_with_mgr)

lemma later_with_hnd:
  assumes "state_io_rel (handler_steps conn_rel) m"
  shows "state_io_rel (later mid) (with_hnd hid m)"
proof -
  have "later mid s (put_hnd hid t s)" if "handler_steps conn_rel (get_hnd hid s) t" for s t
    using that later_put_mgr [of "th_units (hnds s hid)" s "ctrl t" mid]
    by (simp add: handler_steps_def get_hnd_def put_hnd_def later_def get_mgr_def put_mgr_def)
  then show ?thesis
    using io_exec [OF assms] by (simp add: state_io_rel_def with_hnd_def)
qed

lemma later_modify: "(\<And>s. mgrs (f s) mid = mgrs s mid \<and> hist (f s) = hist s) \<Longrightarrow> state_io_rel (later mid) (modify f)"
  by (simp add: state_io_rel_def later_iff extends_def)

lemma later_outcall: "bounded_call c \<Longrightarrow> state_io_rel (later mid) (outcall c f)"
  by (auto simp: state_io_rel_def later_iff extends_def)

lemmas later_rules = io_rules preorder_rel_imp later_preorder later_with_mgr later_with_hnd later_modify later_outcall
  conn_rules conn.Handler_Start_steps

lemma later_register: "state_io_rel (later mid) (with_mgr m (RegisterUnit env ctx u))"
  by (intro later_with_mgr conn_relI RegisterUnit_conn) (intro calls_rules)

lemma conn_NewHandler: "conn_rel s (exec (NewHandler (mgr_ctl env) hid i u handle m w st) s)"
  by (auto simp: NewHandler_def mgr_ctl_def conn_rel_def extends_def now_def Let_def exec_bind simp del: run_state_bind)

lemma later_newTaskHandler: "state_io_rel (later mid) (newTaskHandler env i u handle m st)"
  unfolding newTaskHandler_def by (intro later_rules conn_NewHandler) simp_all

lemma later_attachTask: "state_io_rel (later mid) (attachTask env m cfg u handle st)"
  unfolding attachTask_def set_task_def now_def
  by (intro later_rules later_newTaskHandler) simp_all

section \<open>Answers\<close>

text \<open>\<open>reply\<close> is what the operation \<open>m\<close> of the Manager \<open>mid\<close>, run between \<open>s\<close> and \<open>t\<close>, returned.\<close>

definition answered :: "nat \<Rightarrow> (mstate, 'a) state \<Rightarrow> 'a \<Rightarrow> sys \<Rightarrow> sys \<Rightarrow> bool" where
  "answered mid m reply s t \<longleftrightarrow> (\<exists>s1. later mid s s1 \<and> reply = result m (get_mgr mid s1) \<and>
     later mid (exec (with_mgr mid m) s1) t)"

lemma answered_mono:
  "later mid s0 s \<Longrightarrow> answered mid m reply s t \<Longrightarrow> later mid t t' \<Longrightarrow> answered mid m reply s0 t'"
  unfolding answered_def using later_trans by blast

lemma later_says:
  assumes "\<And>s. conn_rel s (exec m s)"
  shows "later mid s (exec (with_mgr mid m) s)"
  using io_exec [OF later_with_mgr [OF assms]] .

text \<open>The exit result and the start time of the recovered task's handler, between \<open>s\<close> and \<open>t\<close>.\<close>

definition recovery_reported :: "env \<Rightarrow> nat \<Rightarrow> string \<Rightarrow> UnitState \<Rightarrow> nat \<Rightarrow> sys \<Rightarrow> sys \<Rightarrow> bool" where
  "recovery_reported env mid u st hid s t \<longleftrightarrow>
     (if IsTerminal st
      then \<exists>reply. answered mid (UnitExitStatus env DriverCtx u) reply s t \<and>
             th_exitResult (hnds t hid) = Some (exit_of st reply)
      else th_exitResult (hnds t hid) = None) \<and>
     (\<exists>reply. answered mid (UnitStartTime env DriverCtx u) reply s t \<and>
        (case reply of
           Inr t0 \<Rightarrow> th_startedAt (hnds t hid) = Some t0
         | Inl _ \<Rightarrow> answered mid (now env) (the (th_startedAt (hnds t hid))) s t))"

lemma hnds_with_mgr [simp]: "hnds (exec (with_mgr mid m) s) = hnds s"
  by (simp add: exec_with_mgr put_mgr_def)

lemma exec_recoveredExitResult:
  "exec (recoveredExitResult env mid u st) s = exec (with_mgr mid (UnitExitStatus env DriverCtx u)) s"
  by (simp add: recoveredExitResult_def exec_bind del: run_state_bind)

lemma prepareRecovered_reported:
  assumes "t = exec (prepareRecovered env hid mid u ts st) s"
  shows "(if ts = TaskStateExited
      then \<exists>reply. answered mid (UnitExitStatus env DriverCtx u) reply s t \<and>
             th_exitResult (hnds t hid) = Some (exit_of st reply)
      else th_exitResult (hnds t hid) = th_exitResult (hnds s hid))"
    and "\<exists>reply. answered mid (UnitStartTime env DriverCtx u) reply s t \<and>
        th_startedAt (hnds t hid) = (case reply of Inr t0 \<Rightarrow> Some t0 | Inl _ \<Rightarrow> th_startedAt (hnds s hid))"
proof -
  let ?time = "with_mgr mid (UnitStartTime env DriverCtx u)"
  let ?reply = "result (UnitStartTime env DriverCtx u) (get_mgr mid s)"
  define s1 where "s1 = exec (case ?reply of Inr x \<Rightarrow> upd_handler hid (SetStartedAt x) | Inl _ \<Rightarrow> ret ()) (exec ?time s)"
  let ?status = "with_mgr mid (UnitExitStatus env DriverCtx u)"
  let ?exit = "exit_of st (result (UnitExitStatus env DriverCtx u) (get_mgr mid s1))"
  have s1: "later mid s (exec ?time s)" "later mid (exec ?time s) s1"
    "th_exitResult (hnds s1 hid) = th_exitResult (hnds s hid)"
    "th_startedAt (hnds s1 hid) = (case ?reply of Inr t0 \<Rightarrow> Some t0 | Inl _ \<Rightarrow> th_startedAt (hnds s hid))"
    by (rule later_says, intro conn_rules)
       (auto simp: s1_def upd_handler_def SetStartedAt_def later_iff extends_def split: sum.split)
  have t: "t = (if ts = TaskStateExited then exec (upd_handler hid (SetExitResult ?exit (e_now env (hist (exec ?status s1)))))
        ((exec ?status s1)\<lparr>hist := hist (exec ?status s1) @ [Now]\<rparr>) else s1)"
    unfolding assms prepareRecovered_def
    by (simp add: exec_bind result_bind result_with_mgr s1_def [symmetric] exec_recoveredExitResult result_recoveredExitResult
        now_def del: run_state_bind)
  have status: "later mid s1 (exec ?status s1)"
    by (rule later_says) (intro conn_rules)
  then have s1t: "later mid s1 t" "ts = TaskStateExited \<Longrightarrow> later mid (exec ?status s1) t"
    by (auto simp: t later_iff upd_handler_def extends_def)
  show "if ts = TaskStateExited
      then \<exists>reply. answered mid (UnitExitStatus env DriverCtx u) reply s t \<and>
             th_exitResult (hnds t hid) = Some (exit_of st reply)
      else th_exitResult (hnds t hid) = th_exitResult (hnds s hid)"
  proof (cases "ts = TaskStateExited")
    case True
    then have "answered mid (UnitExitStatus env DriverCtx u) (result (UnitExitStatus env DriverCtx u) (get_mgr mid s1)) s t"
      using later_trans [OF s1(1,2)] s1t unfolding answered_def by blast
    with True show ?thesis
      by (auto simp: t upd_handler_def SetExitResult_def)
  qed (simp add: t s1)
  have "answered mid (UnitStartTime env DriverCtx u) ?reply s t"
    using later_trans [OF s1(2) s1t(1)] unfolding answered_def by (intro exI [of _ s]) simp
  moreover have "th_startedAt (hnds t hid) = th_startedAt (hnds s1 hid)"
    by (simp add: t upd_handler_def SetExitResult_def)
  ultimately show "\<exists>reply. answered mid (UnitStartTime env DriverCtx u) reply s t \<and>
        th_startedAt (hnds t hid) = (case reply of Inr t0 \<Rightarrow> Some t0 | Inl _ \<Rightarrow> th_startedAt (hnds s hid))"
    using s1(4) by metis
qed

lemma newTaskHandler_fresh:
  assumes "run_state (newTaskHandler env i u handle mid ts) s = (hid, t)"
  shows "hid = next_hnd s" "later mid s t" "th_exitResult (hnds t hid) = None"
    "answered mid (now env) (the (th_startedAt (hnds t hid))) s t"
proof -
  have w: "run_state (with_mgr mid (WakeChannel u)) s = (wake_of (mgrs s mid) u, s)"
    by (simp add: with_mgr_def WakeChannel_def wake_of_def get_mgr_def put_mgr_def)
  let ?new = "NewHandler (mgr_ctl env) (next_hnd s) i u handle mid (wake_of (mgrs s mid) u) ts"
  have new: "th_exitResult (result ?new (get_mgr mid s)) = None"
    "th_startedAt (result ?new (get_mgr mid s)) = Some (result (now env) (get_mgr mid s))"
    "exec ?new (get_mgr mid s) = exec (now env) (get_mgr mid s)"
    by (simp_all add: NewHandler_def mgr_ctl_def close_wait_def Let_def result_bind exec_bind del: run_state_bind)
  have t: "hid = next_hnd s" "t = (exec (with_mgr mid (now env)) s)\<lparr>hnds := (hnds s)(hid := result ?new (get_mgr mid s)),
      next_hnd := hid + 1\<rparr>"
    using assms w new(3)
    by (auto simp: newTaskHandler_def run_eq exec_bind result_bind exec_with_mgr result_with_mgr put_mgr_def
        simp del: run_state_bind)
  show "hid = next_hnd s"
    by (rule t(1))
  have step: "later mid s (exec (with_mgr mid (now env)) s)" "later mid (exec (with_mgr mid (now env)) s) t"
    by (rule later_says, intro conn_rules) (simp add: t(2) later_iff extends_def)
  show "later mid s t"
    by (rule later_trans [OF step])
  show "th_exitResult (hnds t hid) = None"
    using new by (simp add: t)
  show "answered mid (now env) (the (th_startedAt (hnds t hid))) s t"
    unfolding answered_def using new step by (intro exI [of _ s]) (simp add: t)
qed

lemma recoverClaimed_reported:
  assumes st: "result (UnitState env DriverCtx u) (get_mgr mid s) = Inr st"
    and t: "t = exec (recoverClaimed env mid i u handle) s"
  shows "recovery_reported env mid u st (next_hnd s) s t"
proof -
  define s1 where "s1 = exec (with_mgr mid (RegisterUnit env DriverCtx u)) (exec (with_mgr mid (UnitState env DriverCtx u)) s)"
  have s1: "later mid s s1" "next_hnd s1 = next_hnd s"
    using later_trans [OF later_says io_exec [OF later_register], of "UnitState env DriverCtx u" mid s mid env DriverCtx u]
    by (auto simp: s1_def exec_with_mgr put_mgr_def intro: conn_rules)
  obtain hid s2 where s2: "run_state (newTaskHandler env i u handle mid (recoveredState st)) s1 = (hid, s2)"
    by force
  note fresh = newTaskHandler_fresh [OF s2]
  define s3 where "s3 = exec (prepareRecovered env hid mid u (recoveredState st) st) s2"
  note prep = prepareRecovered_reported [OF s3_def]
  define s4 where "s4 = exec (with_hnd hid (Handler_Start (mgr_ctl env))) s3"
  have s4: "later mid s3 s4" "th_exitResult (hnds s4 hid) = th_exitResult (hnds s3 hid)"
    "th_startedAt (hnds s4 hid) = th_startedAt (hnds s3 hid)"
    using Handler_Start_starts [of hid s3 env] io_exec [OF later_with_hnd [OF conn.Handler_Start_steps]]
    by (simp_all add: s4_def starts_def)
  have t: "t = s4\<lparr>tasks := Store_Set i hid (tasks s4)\<rparr>"
    using st s2 unfolding t s4_def s3_def
    by (simp add: recoverClaimed_def manageRecovered_def attachRecovered_def set_task_def run_eq exec_bind result_bind
        result_with_mgr s1_def [symmetric] del: run_state_bind)
  have s3t: "later mid s3 t" "hnds t = hnds s4"
    using s4(1) by (simp_all add: t later_iff extends_def)
  have s2s3: "later mid s2 s3"
    using prep(2) unfolding answered_def by (metis later_says later_trans conn_rules)
  have ts: "recoveredState st = TaskStateExited \<longleftrightarrow> IsTerminal st"
    by (simp add: recoveredState_iff)
  note mono = answered_mono [OF later_trans [OF s1(1) fresh(2)] _ s3t(1)]
  obtain reply where reply: "answered mid (UnitStartTime env DriverCtx u) reply s2 s3"
    "th_startedAt (hnds s3 hid) = (case reply of Inr t0 \<Rightarrow> Some t0 | Inl _ \<Rightarrow> th_startedAt (hnds s2 hid))"
    using prep(2) by blast
  have "answered mid (now env) (the (th_startedAt (hnds s2 hid))) s t"
    using answered_mono [OF s1(1) fresh(4) later_trans [OF s2s3 s3t(1)]] .
  then have "case reply of
      Inr t0 \<Rightarrow> th_startedAt (hnds t hid) = Some t0
    | Inl _ \<Rightarrow> answered mid (now env) (the (th_startedAt (hnds t hid))) s t"
    using reply(2) s4(3) by (simp add: s3t(2) split: sum.split)
  moreover have "if IsTerminal st
      then \<exists>reply. answered mid (UnitExitStatus env DriverCtx u) reply s t \<and> th_exitResult (hnds t hid) = Some (exit_of st reply)
      else th_exitResult (hnds t hid) = None"
    using prep(1) fresh(3) s4(2) by (cases "IsTerminal st") (simp_all add: ts s3t(2), blast intro: mono)
  ultimately show ?thesis
    using mono [OF reply(1)] fresh(1) s1(2) unfolding recovery_reported_def by auto
qed

section \<open>A started unit\<close>

text \<open>The unit was running, or its start job, made between \<open>s\<close> and \<open>t\<close>, is done.\<close>

definition brought_up :: "env \<Rightarrow> nat \<Rightarrow> string \<Rightarrow> sys \<Rightarrow> sys \<Rightarrow> bool" where
  "brought_up env mid u s t \<longleftrightarrow> (\<exists>st. result (UnitState env DriverCtx u) (get_mgr mid s) = Inr st \<and>
     (ToTaskState st = TaskStateRunning \<or> answered mid (StartUnit env DriverCtx u) None s t))"

lemma ensureRunning_brought_up:
  assumes "result (ensureRunning env mid u) s = Inr st" "later mid (exec (ensureRunning env mid u) s) t"
  shows "brought_up env mid u s t"
proof -
  let ?state = "with_mgr mid (UnitState env DriverCtx u)" and ?start = "with_mgr mid (StartUnit env DriverCtx u)"
  let ?s1 = "exec ?state s"
  obtain st' where st': "result (UnitState env DriverCtx u) (get_mgr mid s) = Inr st'"
    using assms(1) by (auto simp: ensureRunning_def result_bind result_with_mgr simp del: run_state_bind split: sum.splits)
  have "answered mid (StartUnit env DriverCtx u) None s t" if "ToTaskState st' \<noteq> TaskStateRunning"
  proof -
    have "result (StartUnit env DriverCtx u) (get_mgr mid ?s1) = None"
      using assms(1) st' that
      by (auto simp: ensureRunning_def result_bind exec_bind result_with_mgr simp del: run_state_bind split: option.splits)
    moreover from this have "later mid (exec ?start ?s1) t"
      using assms(2) st' that
      by (simp add: ensureRunning_def exec_bind result_bind result_with_mgr del: run_state_bind)
    moreover have "later mid s ?s1"
      by (rule later_says) (intro conn_rules)
    ultimately show ?thesis
      unfolding answered_def by (intro exI [of _ ?s1]) simp
  qed
  with st' show ?thesis
    unfolding brought_up_def by blast
qed

lemma startClaimed_brought_up:
  assumes "result (startClaimed env nom mid cfg c) s = Inr handle"
  shows "brought_up env mid (Unit c) s (exec (startClaimed env nom mid cfg c) s)"
proof -
  obtain blob where blob: "SetDriverState nom c = Inr blob"
    using assms by (cases "SetDriverState nom c") (simp_all add: startClaimed_def result_bind del: run_state_bind)
  let ?handle = "\<lparr>Version = taskHandleVersion, Config = cfg, DriverState = blob\<rparr>"
  obtain st where st: "result (ensureRunning env mid (Unit c)) s = Inr st"
    using assms blob
    by (cases "result (ensureRunning env mid (Unit c)) s") (simp_all add: startClaimed_def result_bind Let_def del: run_state_bind)
  have "state_io_rel (later mid) (manageTask env mid cfg (Unit c) ?handle st)"
    unfolding manageTask_def by (intro later_rules later_register later_attachTask)
  from ensureRunning_brought_up [OF st io_exec [OF this]] show ?thesis
    using blob st by (simp add: startClaimed_def exec_bind result_bind Let_def del: run_state_bind)
qed

end
