(* ===== verification/DriverTasks.thy ===== *)
theory DriverTasks
  imports DriverConn
begin

text \<open>
  The driver's invariant across the operations on one task, with what each leaves: \<open>StartTask\<close> and
  \<open>RecoverTask\<close> up to the task under management or the claim given back, and \<open>DestroyTask\<close>.
\<close>

section \<open>StartTask and RecoverTask\<close>

lemma wp_release [wp_simps]:
  "wp (release u) Q s = Q () (s\<lparr>unitOwners := releaseUnit u (unitOwners s)\<rparr>)"
  by (simp add: release_def wp_modify)

lemma aside_refl [simp]: "aside s s"
  by (simp add: aside_def)

lemma aside_trans: "aside s t \<Longrightarrow> aside t v \<Longrightarrow> aside s v"
  by (auto simp: aside_def intro: quietly_trans)

lemma aside_quietly: "aside s t \<Longrightarrow> quietly s t"
  by (simp add: aside_def)

lemma ensureRunning_wp:
  assumes run: "\<And>t st. aside s t \<Longrightarrow> Q (Inr st) t"
    and fail: "\<And>t e. aside s t \<Longrightarrow> Q (Inl e) (t\<lparr>unitOwners := releaseUnit u (unitOwners t)\<rparr>)"
  shows "wp (ensureRunning env mid u) Q s"
proof -
  have rb: "wp (do { rollBackFailedStart env mid u; release u; ret (Inl e) }) Q t" if "aside s t" for e t
    unfolding rollBackFailedStart_def wp_bind
    by (intro aside_wp unit_rel_rules) (use aside_trans [OF that] fail in \<open>simp add: wp_simps\<close>)
  have "wp (with_mgr mid (StartUnit env DriverCtx u)) (\<lambda>e. wp (case e of
        Some err \<Rightarrow> do {
          rollBackFailedStart env mid u;
          release u;
          ret (Inl (Wrapf ''start unit: %w'' [] err))
        }
      | None \<Rightarrow> ret (Inr UnitStateActive)) Q) t" if "aside s t" for t
    by (intro aside_wp unit_rel_rules)
       (use aside_trans [OF that] run rb in \<open>simp add: wp_ret split: option.split\<close>)
  then show ?thesis
    unfolding ensureRunning_def wp_bind [of "with_mgr mid m" for mid m]
    by (intro aside_wp unit_rel_rules) (auto simp: wp_simps run fail split: sum.split)
qed

text \<open>What \<open>StartTask\<close> leaves.\<close>

definition free_for :: "sys \<Rightarrow> string \<Rightarrow> string \<Rightarrow> bool" where
  "free_for s u i \<longleftrightarrow> owner (unitOwners s) u = None \<or> owner (unitOwners s) u = Some i"

definition refused :: "string \<Rightarrow> sys \<Rightarrow> sys \<Rightarrow> bool" where
  "refused i s t \<longleftrightarrow> tasks t = tasks s \<and> systemdMgr t = systemdMgr s \<and> unit_policy t = unit_policy s \<and>
     (owner (unitOwners t) = owner (unitOwners s) \<or>
      (\<exists>u. free_for s u i \<and> owner (unitOwners t) = (owner (unitOwners s))(u := None)))"

definition claimed :: "string \<Rightarrow> string \<Rightarrow> sys \<Rightarrow> sys" where
  "claimed u i s = s\<lparr>unitOwners := snd (claimUnit u i (unitOwners s))\<rparr>"

definition permitted :: "env \<Rightarrow> sys \<Rightarrow> string \<Rightarrow> bool" where
  "permitted env s u \<longleftrightarrow> (case unit_policy s of None \<Rightarrow> True | Some p \<Rightarrow> permits env p u)"

definition started :: "env \<Rightarrow> nomad \<Rightarrow> TaskConfig \<Rightarrow> TaskHandle \<Rightarrow> sys \<Rightarrow> sys \<Rightarrow> bool" where
  "started env nom cfg handle s t \<longleftrightarrow>
     (\<exists>c mid. DecodeDriverConfig nom cfg = Inr c \<and> Validate c = None \<and> permitted env s (Unit c) \<and>
        Store_Get (ID cfg) (tasks s) = None \<and> systemdMgr s = Some mid \<and>
        free_for s (Unit c) (ID cfg) \<and> SetDriverState nom c = Inr (DriverState handle) \<and>
        Config handle = cfg \<and> Version handle = taskHandleVersion \<and>
        now_tracked (ID cfg) (Unit c) handle mid TaskStateRunning (claimed (Unit c) (ID cfg) s) t \<and>
        brought_up env mid (Unit c) s t)"

lemma claimed_simps [simp]:
  "tasks (claimed u i s) = tasks s" "systemdMgr (claimed u i s) = systemdMgr s"
  "unit_policy (claimed u i s) = unit_policy s" "next_hnd (claimed u i s) = next_hnd s"
  "next_mgr (claimed u i s) = next_mgr s" "d_pprof (claimed u i s) = d_pprof s" "d_servers (claimed u i s) = d_servers s"
  "hist (claimed u i s) = hist s" "mgrs (claimed u i s) = mgrs s" "hnds (claimed u i s) = hnds s"
  by (simp_all add: claimed_def)

lemma answered_claimed [simp]: "answered mid m reply (claimed u i s) t = answered mid m reply s t"
  unfolding answered_def later_iff by (simp add: extends_def)

lemma brought_up_claimed [simp]: "brought_up env mid u (claimed u' i s) t = brought_up env mid u s t"
  unfolding brought_up_def answered_def later_iff by (simp add: extends_def get_mgr_def)

lemma recovery_reported_claimed [simp]:
  "recovery_reported env mid u st hid (claimed u' i s) t = recovery_reported env mid u st hid s t"
  by (simp add: recovery_reported_def cong: sum.case_cong)

lemma claimed_owner: "free_for s u i \<Longrightarrow> owner (unitOwners (claimed u i s)) = (owner (unitOwners s))(u \<mapsto> i)"
  by (auto simp: claimed_def free_for_def intro: own.claim_holder [OF own.claim_iff [THEN iffD2]])

lemma drv_inv_claimed: "drv_inv s \<Longrightarrow> free_for s u i \<Longrightarrow> drv_inv (claimed u i s)"
  unfolding claimed_def free_for_def by (intro drv_inv_claim) (simp_all add: own.claim_iff)

lemma claim_wp:
  assumes "free_for s u i \<Longrightarrow> Q None (claimed u i s)"
    and "\<And>e. \<not> free_for s u i \<Longrightarrow> Q (Some e) s"
  shows "wp (claim u i) Q s"
proof (cases "fst (claimUnit u i (unitOwners s))")
  case None
  then show ?thesis
    using assms(1) None by (simp add: claim_def wp_simps claimed_def free_for_def own.claim_iff [symmetric])
next
  case (Some e)
  then have "snd (claimUnit u i (unitOwners s)) = unitOwners s" "\<not> free_for s u i"
    using own.claim_error [of u i "unitOwners s"] own.claim_iff [of u i "unitOwners s"]
    by (auto simp: free_for_def)
  then show ?thesis
    using assms(2) [of e] Some by (simp add: claim_def wp_simps)
qed

lemma released_refused:
  assumes inv: "drv_inv s" and free: "free_for s u i" "Store_Get i (tasks s) = None"
    and q: "quietly (claimed u i s) t"
  shows "drv_inv (t\<lparr>unitOwners := releaseUnit u (unitOwners t)\<rparr>)"
    "refused i s (t\<lparr>unitOwners := releaseUnit u (unitOwners t)\<rparr>)"
proof -
  have c: "drv_inv (claimed u i s)" "unmanaged (claimed u i s) u"
    using drv_inv_claimed [OF inv free(1)] claimed_owner [OF free(1)] free(2)
    by (auto intro: claimed_unmanaged)
  show "drv_inv (t\<lparr>unitOwners := releaseUnit u (unitOwners t)\<rparr>)"
    by (intro drv_inv_release drv_inv_quietly [OF q] unmanaged_quietly [OF q] c)
  show "refused i s (t\<lparr>unitOwners := releaseUnit u (unitOwners t)\<rparr>)"
    using q free(1) claimed_owner [OF free(1)]
    by (auto simp: refused_def quietly_def same_driver_def own.holder_release)
qed

lemma refused_refl [simp]: "refused i s s"
  by (simp add: refused_def)

lemma startClaimed_wp:
  assumes inv: "drv_inv s" and free: "free_for s u i" "Store_Get i (tasks s) = None"
    and cur: "systemdMgr s = Some mid" and i: "ID cfg = i" "Unit c = u"
    and ok: "\<And>handle t. drv_inv t \<Longrightarrow> SetDriverState nom c = Inr (DriverState handle) \<Longrightarrow>
      Config handle = cfg \<Longrightarrow> Version handle = taskHandleVersion \<Longrightarrow>
      now_tracked i u handle mid TaskStateRunning (claimed u i s) t \<Longrightarrow>
      brought_up env mid u s t \<Longrightarrow> Q (Inr handle) t"
    and bad: "\<And>e t. drv_inv t \<Longrightarrow> refused i s t \<Longrightarrow> Q (Inl e) t"
  shows "wp (startClaimed env nom mid cfg c) Q (claimed u i s)"
proof -
  have cl: "drv_inv (claimed u i s)" "unmanaged (claimed u i s) u" "owner (unitOwners (claimed u i s)) u = Some i"
    using drv_inv_claimed [OF inv free(1)] claimed_owner [OF free(1)] free(2)
    by (auto intro: claimed_unmanaged)
  let ?m = "startClaimed env nom mid cfg c" and ?s = "claimed u i s"
  define Q' where "Q' r t \<longleftrightarrow> (r = result ?m ?s \<and> t = exec ?m ?s \<longrightarrow> Q r t)" for r t
  have bad': "Q' (Inl e) t" if "drv_inv t" "refused i s t" for e t
    unfolding Q'_def using bad [OF that] by blast
  let ?handle = "\<lambda>blob. \<lparr>Version = taskHandleVersion, Config = cfg, DriverState = blob\<rparr>"
  have "wp (manageTask env mid cfg u (?handle blob) st) (\<lambda>_. wp (ret (Inr (?handle blob))) Q') t"
    if q: "quietly (claimed u i s) t" and blob: "SetDriverState nom c = Inr blob" for t st blob
  proof (rule manageTask_wp)
    show "drv_inv t" "unmanaged t u"
      using drv_inv_quietly [OF q cl(1)] unmanaged_quietly [OF q cl(2)] .
    show "owner (unitOwners t) u = Some (ID cfg)" "systemdMgr t = Some mid"
      using q cl(3) cur i by (auto simp: quietly_def same_driver_def)
    show "wp (ret (Inr (?handle blob))) Q' v"
      if "drv_inv v" "now_tracked (ID cfg) u (?handle blob) mid TaskStateRunning t v" for v
      using ok [OF that(1), of "?handle blob"] that(2) q i blob startClaimed_brought_up [of env nom mid cfg c ?s "?handle blob"]
      by (auto simp: wp_ret Q'_def now_tracked_def quietly_def same_driver_def)
  qed
  then have "wp (do {
      r \<leftarrow> ensureRunning env mid u;
      case r of
        Inl err \<Rightarrow> ret (Inl err)
      | Inr activeState \<Rightarrow> do { manageTask env mid cfg u (?handle blob) activeState; ret (Inr (?handle blob)) }
    }) Q' (claimed u i s)" if "SetDriverState nom c = Inr blob" for blob
    using that unfolding wp_bind
    by (intro ensureRunning_wp) (simp_all add: wp_simps bad' aside_quietly released_refused [OF inv free])
  then have "wp (case SetDriverState nom c of
      Inl err \<Rightarrow> do { release u; ret (Inl (Wrapf ''encode task state: %w'' [] err)) }
    | Inr blob \<Rightarrow> do {
        r \<leftarrow> ensureRunning env mid u;
        case r of
          Inl err \<Rightarrow> ret (Inl err)
        | Inr activeState \<Rightarrow> do { manageTask env mid cfg u (?handle blob) activeState; ret (Inr (?handle blob)) }
      }) Q' ?s"
    using bad' released_refused [OF inv free quietly_refl] by (simp add: wp_simps split: sum.split)
  then have "wp ?m Q' ?s"
    by (simp only: startClaimed_def Let_def i(2))
  then show ?thesis
    by (simp add: wp_def Q'_def)
qed

text \<open>The checks change nothing.\<close>

lemma startChecks_wp:
  assumes ok: "\<And>c mid. DecodeDriverConfig nom cfg = Inr c \<Longrightarrow> Validate c = None \<Longrightarrow> permitted env s (Unit c) \<Longrightarrow>
      Store_Get (ID cfg) (tasks s) = None \<Longrightarrow> systemdMgr s = Some mid \<Longrightarrow> Q (Inr (mid, c)) s"
    and bad: "\<And>e. Q (Inl e) s"
  shows "wp (startChecks env nom cfg) Q s"
proof -
  have "wp (do {
        policy \<leftarrow> gets unit_policy;
        case Option.bind policy (\<lambda>p. check env p (Unit c)) of
          Some err \<Rightarrow> ret (Inl (Wrapf ''unit not permitted: %w'' [] err))
        | None \<Rightarrow> do {
            m \<leftarrow> getManager;
            ret (case m of Inl err \<Rightarrow> Inl err | Inr mid \<Rightarrow> Inr (mid, c))
          }
      }) Q s"
    if c: "DecodeDriverConfig nom cfg = Inr c" "Validate c = None" "Store_Get (ID cfg) (tasks s) = None" for c
    using ok [OF c(1,2) _ c(3)]
    by (cases "unit_policy s"; cases "systemdMgr s")
       (auto simp: wp_simps getManager_def permitted_def check_None [symmetric] bad split: option.split)
  then show ?thesis
    unfolding startChecks_def lookupTask_def
    by (simp add: wp_bind [of "gets (\<lambda>s. Store_Get i (tasks s))" for i] wp_gets wp_ret bad split: sum.split option.split)
qed

lemma StartTask_wp:
  assumes inv: "drv_inv s"
    and ok: "\<And>handle t. drv_inv t \<Longrightarrow> started env nom cfg handle s t \<Longrightarrow> Q (Inr handle) t"
    and bad: "\<And>e t. drv_inv t \<Longrightarrow> refused (ID cfg) s t \<Longrightarrow> Q (Inl e) t"
  shows "wp (StartTask env nom cfg) Q s"
proof -
  have "wp (startFrom env nom mid cfg c) Q s"
    if c: "DecodeDriverConfig nom cfg = Inr c" "Validate c = None" "permitted env s (Unit c)"
      "Store_Get (ID cfg) (tasks s) = None" "systemdMgr s = Some mid" for c mid
    unfolding startFrom_def wp_bind
  proof (rule claim_wp)
    assume free: "free_for s (Unit c) (ID cfg)"
    show "wp (case None of Some err \<Rightarrow> ret (Inl err) | None \<Rightarrow> startClaimed env nom mid cfg c) Q
        (claimed (Unit c) (ID cfg) s)"
      using c free by (auto intro!: startClaimed_wp [OF inv free c(4,5) refl refl] ok bad simp: started_def)
  qed (simp add: wp_ret bad inv)
  then show ?thesis
    unfolding StartTask_def wp_bind
    by (intro startChecks_wp) (simp_all add: wp_ret bad inv)
qed

definition recovered :: "env \<Rightarrow> nomad \<Rightarrow> TaskHandle \<Rightarrow> sys \<Rightarrow> sys \<Rightarrow> bool" where
  "recovered env nom handle s t \<longleftrightarrow>
     (\<exists>c mid st. GetDriverState nom (DriverState handle) = Inr c \<and>
        Store_Get (ID (Config handle)) (tasks s) = None \<and> systemdMgr s = Some mid \<and>
        free_for s (Unit c) (ID (Config handle)) \<and>
        result (UnitState env DriverCtx (Unit c)) (get_mgr mid s) = Inr st \<and>
        now_tracked (ID (Config handle)) (Unit c) handle mid
          (if IsTerminal st then TaskStateExited else TaskStateRunning)
          (claimed (Unit c) (ID (Config handle)) s) t \<and>
        recovery_reported env mid (Unit c) st (next_hnd s) s t)"

lemma recoverClaimed_wp:
  assumes inv: "drv_inv s" and free: "free_for s u i" "Store_Get i (tasks s) = None"
    and cur: "systemdMgr s = Some mid"
    and ok: "\<And>st t. drv_inv t \<Longrightarrow> result (UnitState env DriverCtx u) (get_mgr mid s) = Inr st \<Longrightarrow>
      now_tracked i u handle mid (if IsTerminal st then TaskStateExited else TaskStateRunning) (claimed u i s) t \<Longrightarrow>
      recovery_reported env mid u st (next_hnd s) s t \<Longrightarrow> Q None t"
    and bad: "\<And>e t. drv_inv t \<Longrightarrow> refused i s t \<Longrightarrow> Q (Some e) t"
  shows "wp (recoverClaimed env mid i u handle) Q (claimed u i s)"
proof -
  have cl: "drv_inv (claimed u i s)" "unmanaged (claimed u i s) u" "owner (unitOwners (claimed u i s)) u = Some i"
    using drv_inv_claimed [OF inv free(1)] claimed_owner [OF free(1)] free(2)
    by (auto intro: claimed_unmanaged)
  have get: "get_mgr mid (claimed u i s) = get_mgr mid s"
    by (simp add: get_mgr_def)
  let ?m = "recoverClaimed env mid i u handle" and ?s = "claimed u i s"
  define Q' where "Q' r t \<longleftrightarrow> (t = exec ?m ?s \<longrightarrow> Q r t)" for r t
  have bad': "Q' (Some e) t" if "drv_inv t" "refused i s t" for e t
    unfolding Q'_def using bad [OF that] by blast
  have managed: "wp (manageRecovered env mid i u handle st) (\<lambda>_. wp (ret None) Q') t"
    if st: "result (UnitState env DriverCtx u) (get_mgr mid s) = Inr st"
      and q: "quietly (claimed u i s) t" for st t
  proof (rule manageRecovered_wp)
    show "drv_inv t" "unmanaged t u"
      using drv_inv_quietly [OF q cl(1)] unmanaged_quietly [OF q cl(2)] .
    show "owner (unitOwners t) u = Some i" "systemdMgr t = Some mid"
      using q cl(3) cur by (auto simp: quietly_def same_driver_def)
    fix v
    assume v: "drv_inv v" "now_tracked i u handle mid (recoveredState st) t v"
      "exit_known (recoveredState st) st (th_exitResult (hnds v (next_hnd t)))"
    have "now_tracked i u handle mid (if IsTerminal st then TaskStateExited else TaskStateRunning) ?s v"
      using v(2) q by (simp add: recoveredState_iff now_tracked_def quietly_def same_driver_def)
    moreover have "recovery_reported env mid u st (next_hnd s) s v" if "v = exec ?m ?s"
      using recoverClaimed_reported [OF _ that] st by (simp add: get)
    ultimately show "wp (ret None) Q' v"
      unfolding wp_ret Q'_def using ok [OF v(1) st] by blast
  qed
  have "wp (do {
      r \<leftarrow> with_mgr mid (UnitState env DriverCtx u);
      case r of
        Inl err \<Rightarrow> do { release u; ret (Some (Wrapf ''get unit status: %w'' [] err)) }
      | Inr activeState \<Rightarrow> do { manageRecovered env mid i u handle activeState; ret None }
    }) Q' ?s"
    unfolding wp_bind [of "with_mgr mid m" for mid m]
  proof (rule aside_wp)
    fix t
    assume "aside (claimed u i s) t"
    then have q: "quietly (claimed u i s) t"
      by (simp add: aside_def)
    show "wp (case result (UnitState env DriverCtx u) (get_mgr mid (claimed u i s)) of
          Inl err \<Rightarrow> do { release u; ret (Some (Wrapf ''get unit status: %w'' [] err)) }
        | Inr activeState \<Rightarrow> do { manageRecovered env mid i u handle activeState; ret None }) Q' t"
      unfolding get using managed [OF _ q] released_refused [OF inv free q] bad'
      by (simp add: wp_simps split: sum.split)
  qed (intro unit_rel_rules)
  then have "wp ?m Q' ?s"
    by (simp add: recoverClaimed_def)
  then show ?thesis
    by (simp add: wp_def Q'_def)
qed

lemma recoverChecks_wp:
  assumes known: "Store_Get (ID (Config handle)) (tasks s) \<noteq> None \<Longrightarrow> Q (Inl None) s"
    and ok: "\<And>c mid. GetDriverState nom (DriverState handle) = Inr c \<Longrightarrow>
      Store_Get (ID (Config handle)) (tasks s) = None \<Longrightarrow> systemdMgr s = Some mid \<Longrightarrow> Q (Inr (mid, c)) s"
    and bad: "\<And>e. Q (Inl (Some e)) s"
  shows "wp (recoverChecks nom handle) Q s"
  using known ok bad
  by (cases "Store_Get (ID (Config handle)) (tasks s)"; cases "GetDriverState nom (DriverState handle)";
      cases "systemdMgr s")
     (simp_all add: recoverChecks_def lookupTask_def getManager_def wp_simps)

lemma RecoverTask_wp:
  assumes inv: "drv_inv s"
    and known: "Store_Get (ID (Config handle)) (tasks s) \<noteq> None \<Longrightarrow> Q None s"
    and ok: "\<And>t. drv_inv t \<Longrightarrow> recovered env nom handle s t \<Longrightarrow> Q None t"
    and bad: "\<And>e t. drv_inv t \<Longrightarrow> refused (ID (Config handle)) s t \<Longrightarrow> Q (Some e) t"
  shows "wp (RecoverTask env nom handle) Q s"
proof -
  let ?i = "ID (Config handle)"
  have "wp (recoverFrom env mid ?i (Unit c) handle) Q s"
    if c: "GetDriverState nom (DriverState handle) = Inr c" "Store_Get ?i (tasks s) = None"
      "systemdMgr s = Some mid" for c mid
    unfolding recoverFrom_def wp_bind
  proof (rule claim_wp)
    assume free: "free_for s (Unit c) ?i"
    show "wp (case None of Some err \<Rightarrow> ret (Some err) | None \<Rightarrow> recoverClaimed env mid ?i (Unit c) handle) Q
        (claimed (Unit c) ?i s)"
      using c free by (auto intro!: recoverClaimed_wp [OF inv free c(2,3)] ok bad simp: recovered_def)
  qed (simp add: wp_ret bad inv)
  then show ?thesis
    unfolding RecoverTask_def wp_bind
    by (intro recoverChecks_wp) (simp_all add: wp_ret bad inv known)
qed

section \<open>DestroyTask\<close>

lemma upd_handler_quietly: "(\<And>h. hnd_le h (f h)) \<Longrightarrow> state_io_rel quietly (upd_handler hid f)"
  by (auto simp: upd_handler_def state_io_rel_def quietly_def same_driver_def extends_def)

lemma Handler_Stop_quietly: "state_io_rel quietly (upd_handler hid Handler_Stop)"
  by (intro upd_handler_quietly goroutines_le)

definition destroyed :: "string \<Rightarrow> nat \<Rightarrow> sys \<Rightarrow> sys \<Rightarrow> bool" where
  "destroyed i hid s t \<longleftrightarrow>
     tasks t = Store_Delete i (tasks s) \<and> systemdMgr t = systemdMgr s \<and> unit_policy t = unit_policy s \<and>
     owner (unitOwners t) = (owner (unitOwners s))(th_Unit (hnds s hid) := None) \<and>
     th_canceled (hnds t hid) \<and> th_wg (hnds t hid) = 0 \<and>
     (\<forall>mid. systemdMgr s = Some mid \<longrightarrow> wake_of (mgrs t mid) (th_Unit (hnds s hid)) = None)"

lemma untracked_unmanaged:
  assumes "drv_inv s" "tracked s i hid"
  shows "unmanaged (s\<lparr>tasks := Store_Delete i (tasks s)\<rparr>) (th_Unit (hnds s hid))"
  using drv_inv_unit_unique [OF assms] by (auto simp: unmanaged_def tracked_def ts.get_del split: if_splits)

text \<open>The teardown of a task, from the state in which its handler has been stopped.\<close>

lemma forgetTask_wp:
  assumes inv: "drv_inv s" and i: "tracked s i hid" and u: "u = th_Unit (hnds s hid)"
    and stopped: "th_canceled (hnds s hid)" "th_wg (hnds s hid) = 0"
    and post: "\<And>t. drv_inv t \<Longrightarrow> destroyed i hid s t \<Longrightarrow> Q None t"
  shows "wp (forgetTask i u) Q s"
proof -
  obtain mid where mid: "systemdMgr s = Some mid"
    using drv_inv_task [OF inv i] by (auto simp: task_ok_def)
  let ?del = "\<lambda>s :: sys. s\<lparr>tasks := Store_Delete i (tasks s)\<rparr>"
  let ?t = "exec (with_mgr mid (UnregisterUnit u)) s"
  let ?v = "?del ?t"
  have re: "reregisters mid u s ?t"
    by (rule unregister_reregisters)
  then have "reregisters mid u (?del s) ?v"
    by (simp add: reregisters_def same_driver_def extends_def)
  then have v: "drv_inv ?v" "unmanaged ?v u"
    using drv_inv_reregisters [OF _ drv_inv_untrack [OF inv] untracked_unmanaged [OF inv i]] u by auto
  have "wake_of (mgrs ?t mid) u = None"
    by (simp add: exec_with_mgr put_mgr_def wake_unregister)
  then have "destroyed i hid s (?v\<lparr>unitOwners := releaseUnit u (unitOwners ?v)\<rparr>)"
    using re mid stopped u
    by (simp add: destroyed_def reregisters_def same_driver_def own.holder_release)
  then show ?thesis
    using post [OF drv_inv_release [OF v]] mid by (simp add: forgetTask_def wp_simps getManager_def wp_def [of "with_mgr mid m" for m])
qed

lemma teardownTask_wp:
  assumes inv: "drv_inv s" and i: "tracked s i hid" and q: "quietly s t"
    and gone: "\<And>t. drv_inv t \<Longrightarrow> destroyed i hid s t \<Longrightarrow> Q None t"
  shows "wp (teardownTask i hid (th_Unit (hnds s hid))) Q t"
proof -
  let ?u = "th_Unit (hnds s hid)" and ?v = "exec (upd_handler hid Handler_Stop) t"
  have v: "quietly s ?v"
    using q io_exec [OF Handler_Stop_quietly] by (rule quietly_trans)
  have hv: "th_canceled (hnds ?v hid)" "th_wg (hnds ?v hid) = 0"
    by (simp_all add: upd_handler_def Handler_Stop_def)
  have same: "th_Unit (hnds ?v hid) = ?u" "tracked ?v i hid"
    using v i by (auto simp: quietly_def same_driver_def hnd_le_def same_task_def tracked_def)
  have "wp (forgetTask i ?u) Q ?v"
  proof (rule forgetTask_wp [OF drv_inv_quietly [OF v inv] same(2) same(1) [symmetric] hv])
    fix w assume "drv_inv w" "destroyed i hid ?v w"
    then show "Q None w"
      using v same by (intro gone) (auto simp: destroyed_def quietly_def same_driver_def)
  qed
  then show ?thesis
    by (simp add: teardownTask_def wp_bind [of "upd_handler hid Handler_Stop"] wp_def [of "upd_handler hid f" for f])
qed

lemma DestroyTask_wp:
  assumes inv: "drv_inv s"
    and none: "Store_Get i (tasks s) = None \<Longrightarrow> Q (Some ErrTaskNotFound) s"
    and busy: "\<And>hid e. tracked s i hid \<Longrightarrow> \<not> HasExited (hnds s hid) \<Longrightarrow> \<not> force \<Longrightarrow> Q (Some e) s"
    and gone: "\<And>hid t. tracked s i hid \<Longrightarrow> HasExited (hnds s hid) \<or> force \<Longrightarrow> drv_inv t \<Longrightarrow>
      destroyed i hid s t \<Longrightarrow> Q None t"
  shows "wp (DestroyTask env i force) Q s"
proof (cases "Store_Get i (tasks s)")
  case None
  then show ?thesis
    by (simp add: DestroyTask_def lookupTask_def wp_simps none)
next
  case (Some hid)
  then have i: "tracked s i hid"
    by (simp add: tracked_def)
  let ?rest = "teardownTask i hid (th_Unit (hnds s hid))"
  show ?thesis
  proof (cases "HasExited (hnds s hid) \<or> force")
    case True
    note rest = teardownTask_wp [where Q = Q, OF inv i _ gone [OF i True]]
    have "wp ?rest Q s"
      by (rule rest) simp
    moreover have "wp (stopForDestroy env hid) (\<lambda>_. wp ?rest Q) s"
      by (rule quietly_wp [OF stopForDestroy_quietly]) (rule rest)
    ultimately have "wp (if \<not> HasExited (hnds s hid) then stopForDestroy env hid else ret ())
        (\<lambda>_. wp ?rest Q) s"
      by (simp add: wp_if wp_ret)
    then show ?thesis
      using True unfolding DestroyTask_def lookupTask_def
      by (auto simp: wp_bind wp_gets Some)
  next
    case False
    then show ?thesis
      using busy [OF i] by (simp add: DestroyTask_def lookupTask_def wp_simps Some)
  qed
qed

end
