(* ===== verification/DriverLifecycle.thy ===== *)
theory DriverLifecycle
  imports DriverTasks
begin

text \<open>
  The driver's invariant across the operations on the driver itself: a configuration that replaces
  the Manager, and the shutdown.
\<close>

section \<open>SetConfig and Shutdown\<close>

lemma calls_stop [calls_rules]: "calls bounded_call (stop p)"
  unfolding stop_def by (intro calls_rules calls_modify) simp_all

lemma calls_set_pprof [calls_rules]: "calls bounded_call (set_pprof p)"
  unfolding set_pprof_def by (rule calls_modify) simp

lemma calls_dropPprof [calls_rules]: "calls bounded_call dropPprof"
  unfolding dropPprof_def by (intro calls_rules)

lemma calls_configurePprof: "calls bounded_call (configurePprof env a)"
  unfolding configurePprof_def startPprof_def by (intro calls_rules calls_modify) simp_all

lemma calls_watchPprof: "calls bounded_call (watchPprof c p)"
  unfolding watchPprof_def by (intro calls_rules)

text \<open>Operations on the pprof servers touch nothing else.\<close>

definition pprof_only :: "sys \<Rightarrow> sys \<Rightarrow> bool" where
  "pprof_only s t \<longleftrightarrow> extends bounded_call s t \<and>
     tasks t = tasks s \<and> hnds t = hnds s \<and> mgrs t = mgrs s \<and> next_mgr t = next_mgr s \<and>
     next_hnd t = next_hnd s \<and> systemdMgr t = systemdMgr s \<and> unitOwners t = unitOwners s \<and>
     unit_policy t = unit_policy s \<and> d_compute t = d_compute s \<and> d_done t = d_done s \<and>
     (pprof_ok (d_servers s) (d_pprof s) \<longrightarrow> pprof_ok (d_servers t) (d_pprof t))"

lemma with_pprof_only:
  "calls bounded_call m \<Longrightarrow> (\<And>u. servers_ok u \<Longrightarrow> servers_ok (exec m u)) \<Longrightarrow> pprof_only s (exec (with_pprof m) s)"
  using callsD [of bounded_call m "\<lparr>hist = hist s, servers = d_servers s, pprof = d_pprof s\<rparr>"]
  by (simp add: pprof_only_def with_pprof_def extends_def servers_ok_def)

lemma configurePprof_wp:
  "(\<And>a t. pprof_only s t \<Longrightarrow> Q a t) \<Longrightarrow> wp (with_pprof (configurePprof env x)) Q s"
  using with_pprof_only [OF calls_configurePprof servers_ok_steps(4)] by (simp add: wp_def)

lemma drv_inv_fields:
  assumes "drv_inv s" "tasks t = tasks s" "hnds t = hnds s" "mgrs t = mgrs s" "next_mgr t = next_mgr s"
    "next_hnd t = next_hnd s" "systemdMgr t = systemdMgr s" "unitOwners t = unitOwners s"
    "d_done t = d_done s" "list_all bounded_call (hist t)"
    "pprof_ok (d_servers t) (d_pprof t)"
  shows "drv_inv t"
  using assms by (auto simp: drv_inv_def mgrs_ok_def task_ok_def tracked_def)

lemma drv_inv_compute [simp]: "drv_inv (s\<lparr>d_compute := c\<rparr>) = drv_inv s"
  by (simp add: drv_inv_def mgrs_ok_def task_ok_def tracked_def)

lemma signalShutdown_simps [simp]:
  "d_done (signalShutdown s)" "tasks (signalShutdown s) = tasks s" "hnds (signalShutdown s) = hnds s"
  "hist (signalShutdown s) = hist s" "unitOwners (signalShutdown s) = unitOwners s"
  "systemdMgr (signalShutdown s) = systemdMgr s" "unit_policy (signalShutdown s) = unit_policy s"
  "next_mgr (signalShutdown s) = next_mgr s" "next_hnd (signalShutdown s) = next_hnd s"
  "d_servers (signalShutdown s) = d_servers s" "d_pprof (signalShutdown s) = d_pprof s"
  "mgrs (signalShutdown s) mid = (mgrs s mid)\<lparr>ctxDone := True\<rparr>"
  by (simp_all add: signalShutdown_def)

lemma ctxDone_frame [simp]:
  "wake_of (m\<lparr>ctxDone := b\<rparr>) = wake_of m" "quiet m \<Longrightarrow> quiet (m\<lparr>ctxDone := True\<rparr>)"
  "closed_down n m \<Longrightarrow> closed_down n (m\<lparr>ctxDone := True\<rparr>)"
  by (auto simp: wake_of_def unitLocked_def quiet_def closed_down_def)

lemma drv_inv_done: "drv_inv s \<Longrightarrow> drv_inv (signalShutdown s)"
  using mgrs_ok_le [of s "signalShutdown s"]
  by (simp add: drv_inv_def mgr_le_def task_ok_def tracked_def)

lemma drv_inv_hist: "drv_inv s \<Longrightarrow> list_all bounded_call (hist s)"
  by (simp add: drv_inv_def)

lemma drv_inv_pprof: "drv_inv s \<Longrightarrow> pprof_ok (d_servers s) (d_pprof s)"
  by (simp add: drv_inv_def)

text \<open>A new Manager takes over and the previous one is stopped.\<close>

lemma NewManager_wp:
  assumes "\<And>e h. list_all bounded_call h \<Longrightarrow> Q (Inl e) (s\<lparr>hist := hist s @ h\<rparr>)"
    and "\<And>m h. fresh_mgr m \<Longrightarrow> \<not> stopping m \<Longrightarrow> list_all bounded_call h \<Longrightarrow>
      Q (Inr (next_mgr s)) (s\<lparr>hist := hist s @ h, mgrs := (mgrs s)(next_mgr s := m), next_mgr := next_mgr s + 1\<rparr>)"
  shows "wp (newManager env) Q s"
proof -
  let ?new = "NewManager env DriverCtx (d_compute s)"
  have "extends bounded_call s (exec ?new s)"
    by (intro callsD bounded.q_NewManager)
  then obtain h where h: "hist (exec ?new s) = hist s @ h" "list_all bounded_call h"
    by (auto simp: extends_def)
  have e: "exec ?new s = s\<lparr>hist := hist s @ h\<rparr>"
    using h(1) by (auto simp: NewManager_def subscribeToPropertyChanges_def split: sum.splits option.splits)
  show ?thesis
  proof (cases "result ?new s")
    case (Inl err)
    then show ?thesis
      using assms(1) [OF h(2)] e by (simp add: newManager_def wp_simps wp_def [of ?new])
  next
    case (Inr m)
    have "\<not> stopping m"
      using Inr by (auto simp: NewManager_def split: sum.splits prod.splits)
    then show ?thesis
      using assms(2) [of "m\<lparr>ctxDone := d_done s\<rparr>" h] NewManager_fresh [OF Inr] Inr e h(2)
      by (simp add: newManager_def wp_simps wp_def [of ?new] fresh_mgr_def)
  qed
qed

text \<open>What a successful \<open>SetConfig\<close> leaves.\<close>

definition reconfigured :: "env \<Rightarrow> nomad \<Rightarrow> base_Config \<Rightarrow> sys \<Rightarrow> sys \<Rightarrow> bool" where
  "reconfigured env nom cfg s t \<longleftrightarrow>
     (\<exists>config cpus policy. decodeConfig nom cfg = Inr config \<and> AgentConfig cfg = Some cpus \<and>
        compileUnitPolicy env (AllowedUnits config) (DeniedUnits config) = Inr policy \<and>
        d_compute t = cpus \<and> unit_policy t = Some policy) \<and>
     systemdMgr t = Some (next_mgr s) \<and> next_mgr t = next_mgr s + 1 \<and>
     units (mgrs t (next_mgr s)) = [] \<and> \<not> stopping (mgrs t (next_mgr s)) \<and>
     tasks t = tasks s \<and> hnds t = hnds s \<and> unitOwners t = unitOwners s \<and> d_done t = d_done s \<and>
     (case systemdMgr s of None \<Rightarrow> mgrs t = (mgrs s)(next_mgr s := mgrs t (next_mgr s))
      | Some old \<Rightarrow> quiet (mgrs t old))"

definition not_reconfigured :: "sys \<Rightarrow> sys \<Rightarrow> bool" where
  "not_reconfigured s t \<longleftrightarrow> systemdMgr t = systemdMgr s \<and> mgrs t = mgrs s \<and> tasks t = tasks s \<and>
     hnds t = hnds s \<and> unitOwners t = unitOwners s \<and> next_mgr t = next_mgr s \<and> d_done t = d_done s"

lemma exec_installManager:
  assumes "systemdMgr s \<noteq> Some mid"
  shows "\<exists>cs. list_all bounded_call cs \<and>
    exec (installManager mid) s = s\<lparr>hist := hist s @ cs, systemdMgr := Some mid,
      mgrs := (case systemdMgr s of
          None \<Rightarrow> (mgrs s)(mid := (mgrs s mid)\<lparr>wg := wg (mgrs s mid) + 2\<rparr>)
        | Some old \<Rightarrow> (mgrs s)(mid := (mgrs s mid)\<lparr>wg := wg (mgrs s mid) + 2\<rparr>,
                              old := stopped_m (mgrs s old)))\<rparr>"
proof (cases "systemdMgr s")
  case None
  then show ?thesis
    by (intro exI [of _ "[]"])
       (simp add: installManager_def Manager_Start_def exec_bind result_bind exec_with_mgr get_mgr_def
          put_mgr_def del: run_state_bind)
next
  case (Some old)
  obtain cs where cs: "list_all bounded_call cs" "hist (exec Manager_Stop (get_mgr old s)) = hist s @ cs"
    using callsD [OF bounded.q_Manager_Stop, of "get_mgr old s"] by (auto simp: extends_def get_mgr_def)
  show ?thesis
    using Some assms cs(2) mgr_Manager_Stop [of "get_mgr old s"]
    by (intro exI [of _ cs])
       (simp add: installManager_def Manager_Start_def exec_bind result_bind exec_with_mgr get_mgr_def
          put_mgr_def cs(1) del: run_state_bind)
qed

text \<open>The end of a successful \<open>SetConfig\<close>.\<close>

lemma installManager_wp:
  assumes inv: "drv_inv s" and fresh: "fresh_mgr m" "\<not> stopping m"
    and s': "s' = s\<lparr>hist := hist s @ h, mgrs := (mgrs s)(next_mgr s := m), next_mgr := next_mgr s + 1\<rparr>"
      "list_all bounded_call h"
    and post: "\<And>t. drv_inv t \<Longrightarrow> systemdMgr t = Some (next_mgr s) \<Longrightarrow> next_mgr t = next_mgr s + 1 \<Longrightarrow>
      units (mgrs t (next_mgr s)) = [] \<Longrightarrow> \<not> stopping (mgrs t (next_mgr s)) \<Longrightarrow>
      tasks t = tasks s \<Longrightarrow> hnds t = hnds s \<Longrightarrow> unitOwners t = unitOwners s \<Longrightarrow>
      unit_policy t = unit_policy s \<Longrightarrow> d_compute t = d_compute s \<Longrightarrow> d_done t = d_done s \<Longrightarrow>
      (case systemdMgr s of None \<Rightarrow> mgrs t = (mgrs s)(next_mgr s := mgrs t (next_mgr s))
       | Some old \<Rightarrow> quiet (mgrs t old)) \<Longrightarrow> Q () t"
  shows "wp (installManager (next_mgr s)) Q s'"
proof -
  let ?n = "next_mgr s"
  have old: "o' < ?n" if "systemdMgr s = Some o'" for o'
    using inv that by (simp add: drv_inv_def mgrs_ok_def)
  then have "systemdMgr s' \<noteq> Some ?n"
    using s'(1) by auto
  from exec_installManager [OF this] obtain cs where cs: "list_all bounded_call cs"
    and e: "exec (installManager ?n) s' = s'\<lparr>hist := hist s' @ cs, systemdMgr := Some ?n,
      mgrs := (case systemdMgr s' of
          None \<Rightarrow> (mgrs s')(?n := (mgrs s' ?n)\<lparr>wg := wg (mgrs s' ?n) + 2\<rparr>)
        | Some old \<Rightarrow> (mgrs s')(?n := (mgrs s' ?n)\<lparr>wg := wg (mgrs s' ?n) + 2\<rparr>,
                              old := stopped_m (mgrs s' old)))\<rparr>"
    by blast
  define t where "t = exec (installManager ?n) s'"
  have t: "t = s\<lparr>hist := hist s @ h @ cs, systemdMgr := Some ?n, next_mgr := ?n + 1,
      mgrs := (case systemdMgr s of
          None \<Rightarrow> (mgrs s)(?n := m\<lparr>wg := wg m + 2\<rparr>)
        | Some old \<Rightarrow> (mgrs s)(?n := m\<lparr>wg := wg m + 2\<rparr>, old := stopped_m (mgrs s old)))\<rparr>"
    using old unfolding t_def e unfolding s'(1) by (auto split: option.split)
  have wf: "wf_mgr (mgrs s o') \<and> (systemdMgr s \<noteq> Some o' \<longrightarrow> (\<exists>n. closed_down n (mgrs s o')))" if "o' < ?n" for o'
    using inv that by (simp add: drv_inv_def mgrs_ok_def)
  have stopped: "wf_mgr (stopped_m (mgrs s o')) \<and> quiet (stopped_m (mgrs s o'))" if "systemdMgr s = Some o'" for o'
    using wf [OF old [OF that]] by (simp add: wf_stopped_m quiet_stopped_m)
  have "\<exists>n. closed_down n (stopped_m (mgrs s o'))" if "systemdMgr s = Some o'" for o'
    using quiet_closed_down stopped [OF that] by blast
  then have ok: "mgrs_ok t"
    using wf old stopped fresh(1)
    by (auto simp: t mgrs_ok_def wf_fresh less_Suc_eq split: option.split)
  have "task_ok t i hid" if "tracked s i hid" for i hid
    using drv_inv_task [OF inv that] by (auto simp: task_ok_def t)
  then have "drv_inv t"
    using inv ok s'(2) cs by (auto simp: drv_inv_def t tracked_def)
  then have "Q () t"
    using old stopped fresh by (intro post) (auto simp: t fresh_mgr_def split: option.split)
  then show ?thesis
    by (simp add: wp_def t_def)
qed

text \<open>The state in which the configuration has been stored and the Manager is still the old one.\<close>

lemma replaceManager_wp:
  assumes inv: "drv_inv s" and t: "pprof_only (s\<lparr>d_compute := cpus, unit_policy := Some policy\<rparr>) t"
    and c: "decodeConfig nom cfg = Inr config" "AgentConfig cfg = Some cpus"
      "compileUnitPolicy env (AllowedUnits config) (DeniedUnits config) = Inr policy"
    and ok: "\<And>t. drv_inv t \<Longrightarrow> reconfigured env nom cfg s t \<Longrightarrow> Q None t"
    and bad: "\<And>e t. drv_inv t \<Longrightarrow> not_reconfigured s t \<Longrightarrow> Q (Some e) t"
  shows "wp (replaceManager env) Q t"
proof -
  have f: "tasks t = tasks s" "hnds t = hnds s" "mgrs t = mgrs s" "next_mgr t = next_mgr s"
    "next_hnd t = next_hnd s" "systemdMgr t = systemdMgr s" "unitOwners t = unitOwners s"
    "unit_policy t = Some policy" "d_compute t = cpus" "d_done t = d_done s" "list_all bounded_call (hist t)"
    "pprof_ok (d_servers t) (d_pprof t)"
    using t drv_inv_hist [OF inv] drv_inv_pprof [OF inv] by (auto simp: pprof_only_def extends_def)
  have i: "drv_inv t"
    by (rule drv_inv_fields [OF inv f(1-7,10-12)])
  show ?thesis
    unfolding replaceManager_def wp_bind [of "newManager env"]
  proof (rule NewManager_wp)
    fix e h
    assume "list_all bounded_call h"
    then have "drv_inv (t\<lparr>hist := hist t @ h\<rparr>)"
      using i f(11,12) by (auto intro: drv_inv_fields)
    then show "wp (case Inl e of
          Inl err \<Rightarrow> ret (Some (Wrapf ''create systemd manager: %w'' [] err))
        | Inr mid \<Rightarrow> do { installManager mid; ret None }) Q (t\<lparr>hist := hist t @ h\<rparr>)"
      using f by (simp add: wp_ret bad not_reconfigured_def)
  next
    fix m h
    assume m: "fresh_mgr m" "\<not> stopping m" "list_all bounded_call h"
    let ?t = "t\<lparr>hist := hist t @ h, mgrs := (mgrs t)(next_mgr t := m), next_mgr := next_mgr t + 1\<rparr>"
    have "wp (installManager (next_mgr t)) (\<lambda>_. wp (ret None) Q) ?t"
      by (rule installManager_wp [OF i m(1,2) refl m(3)])
         (use f c in \<open>auto simp: wp_ret reconfigured_def intro!: ok split: option.splits\<close>)
    then show "wp (case Inr (next_mgr t) of
          Inl err \<Rightarrow> ret (Some (Wrapf ''create systemd manager: %w'' [] err))
        | Inr mid \<Rightarrow> do { installManager mid; ret None }) Q ?t"
      by (simp add: wp_bind)
  qed
qed

lemma SetConfig_wp:
  assumes inv: "drv_inv s"
    and ok: "\<And>t. drv_inv t \<Longrightarrow> reconfigured env nom cfg s t \<Longrightarrow> Q None t"
    and bad: "\<And>e t. drv_inv t \<Longrightarrow> not_reconfigured s t \<Longrightarrow> Q (Some e) t"
  shows "wp (SetConfig env nom cfg) Q s"
proof -
  have apply_wp: "wp (applyConfig env config policy) Q (s\<lparr>d_compute := cpus\<rparr>)"
    if c: "decodeConfig nom cfg = Inr config" "AgentConfig cfg = Some cpus"
      "compileUnitPolicy env (AllowedUnits config) (DeniedUnits config) = Inr policy" for config cpus policy
    unfolding applyConfig_def wp_bind [of "modify f" for f] wp_modify wp_bind [of "with_pprof m" for m]
  proof (rule configurePprof_wp)
    fix a :: "error option" and t
    assume "pprof_only (s\<lparr>d_compute := cpus, unit_policy := Some policy\<rparr>) t"
    moreover from this have "drv_inv t"
      by (intro drv_inv_fields [OF inv])
         (use drv_inv_hist [OF inv] drv_inv_pprof [OF inv] in \<open>auto simp: pprof_only_def extends_def\<close>)
    ultimately show "wp (case a of
        Some err \<Rightarrow> ret (Some (Wrapf ''configure pprof: %w'' [] err)) | None \<Rightarrow> replaceManager env) Q t"
      using replaceManager_wp [OF inv _ c ok bad, of t]
      by (cases a) (simp_all add: wp_ret bad not_reconfigured_def pprof_only_def)
  qed
  have refuse: "wp (ret (Some e)) Q (s\<lparr>d_compute := cpus\<rparr>)" "wp (ret (Some e)) Q s" for e cpus
    using inv by (simp_all add: wp_ret bad not_reconfigured_def)
  show ?thesis
    unfolding SetConfig_def
    using apply_wp refuse by (simp add: wp_bind [of "modify f" for f] wp_modify split: sum.split option.split)
qed

section \<open>Shutdown\<close>

text \<open>Without tasks, anything that keeps the Managers keeps the invariant.\<close>

lemma drv_inv_idle:
  assumes "drv_inv s" "tasks s = []" "tasks t = []" "next_mgr t = next_mgr s" "systemdMgr t = systemdMgr s"
    "extends bounded_call s t" "d_servers t = d_servers s" "d_pprof t = d_pprof s" "\<And>mid. mgr_le (mgrs s mid) (mgrs t mid)"
  shows "drv_inv t"
  using assms mgrs_ok_le [of s t] extends_bounded [of bounded_call s t]
  by (simp add: drv_inv_def tracked_def Store_Get_def)

lemma stop_handlers_quietly: "state_io_rel quietly (for_each (\<lambda>hid. upd_handler hid Handler_Stop) hs)"
  by (intro io_rules quietly_preorder Handler_Stop_quietly)

lemma stopHandlers_inv:
  assumes "drv_inv s"
  shows "drv_inv (exec stopHandlers s) \<and> tasks (exec stopHandlers s) = []"
proof -
  let ?s = "s\<lparr>tasks := snd (Store_Drain (tasks s))\<rparr>"
  have e: "exec stopHandlers s =
      exec (for_each (\<lambda>hid. upd_handler hid Handler_Stop) (fst (Store_Drain (tasks s)))) ?s"
    by (simp add: stopHandlers_def exec_bind result_bind del: run_state_bind)
  have t: "tasks ?s = []"
    by (simp add: Store_Drain_def)
  have "drv_inv ?s"
    using assms by (auto simp: drv_inv_def tracked_def Store_Drain_def Store_Get_def mgrs_ok_def)
  then show ?thesis
    using drv_inv_quietly [OF io_exec [OF stop_handlers_quietly]] io_exec [OF stop_handlers_quietly, of ?s] t
    unfolding e by (auto simp: quietly_def same_driver_def)
qed

lemma stopManager_inv:
  assumes "drv_inv s" "tasks s = []"
  shows "drv_inv (exec stopManager s) \<and> tasks (exec stopManager s) = [] \<and>
    systemdMgr (exec stopManager s) = systemdMgr s \<and>
    (\<forall>mid. systemdMgr s = Some mid \<longrightarrow> quiet (mgrs (exec stopManager s) mid))"
proof (cases "systemdMgr s")
  case None
  then show ?thesis
    using assms by (simp add: stopManager_def exec_bind result_bind del: run_state_bind)
next
  case (Some mid)
  let ?t = "exec Manager_Stop (get_mgr mid s)"
  have e: "exec stopManager s = put_mgr mid ?t s"
    using Some by (simp add: stopManager_def exec_bind result_bind exec_with_mgr del: run_state_bind)
  have wf: "wf_mgr (mgrs s mid)"
    using assms(1) Some by (auto simp: drv_inv_def mgrs_ok_def)
  have "mgr_le (mgrs s mid) (mgr ?t)"
    using mgr_leI [OF wf.Manager_Stop_keeps down.Manager_Stop_keeps, of "get_mgr mid s"] by simp
  moreover have "extends bounded_call (get_mgr mid s) ?t"
    by (intro callsD calls_rules)
  ultimately have "drv_inv (put_mgr mid ?t s)"
    using assms by (intro drv_inv_idle [OF assms]) (auto simp: put_mgr_def extends_def get_mgr_def)
  then show ?thesis
    using assms Some wf by (simp add: e mgr_Manager_Stop quiet_stopped_m put_mgr_def)
qed

lemma stopPprof_only: "pprof_only s (exec stopPprof s)"
  unfolding stopPprof_def by (rule with_pprof_only [OF calls_dropPprof servers_ok_steps(2)])

lemma pprofGoroutine_only: "pprof_only s (exec (pprofGoroutine p) s)"
  using with_pprof_only [OF calls_watchPprof servers_ok_steps(3)]
  by (simp add: pprofGoroutine_def exec_bind result_bind del: run_state_bind)

lemma pprof_only_inv: "pprof_only s t \<Longrightarrow> drv_inv s \<Longrightarrow> drv_inv t"
  by (rule drv_inv_fields) (auto simp: pprof_only_def extends_def drv_inv_def)

lemma Shutdown_stages:
  "exec (Shutdown n) s =
     (let s1 = (if 0 < n then exec stopHandlers s else s);
          s2 = (if 1 < n then exec stopManager s1 else s1);
          s3 = (if 2 < n then exec stopPprof s2 else s2)
      in signalShutdown s3)"
proof -
  consider "n = 0" | "n = 1" | "n = 2" | k where "n = Suc (Suc (Suc k))"
    by (metis One_nat_def Suc_1 not0_implies_Suc)
  then show ?thesis
    by cases (simp_all add: Shutdown_def exec_bind del: run_state_bind)
qed

lemma Shutdown_inv: "drv_inv s \<Longrightarrow> drv_inv (exec (Shutdown n) s)"
  using stopHandlers_inv [of s] stopManager_inv [of "exec stopHandlers s"]
    pprof_only_inv [OF stopPprof_only, of "exec stopManager (exec stopHandlers s)"]
  by (simp add: Shutdown_stages Let_def drv_inv_done)

end
