(* ===== verification/Interleaving.thy ===== *)
theory Interleaving
  imports Driver
begin

text \<open>
  RPCs in flight. Nomad's plugin server runs every RPC in a goroutine of its own, so the RPCs of
  different tasks overlap: while one waits for a systemd job, others claim, register and release
  units. A \<open>flight\<close> is a place in \<open>StartTask\<close>, \<open>RecoverTask\<close> or \<open>DestroyTask\<close> where other goroutines
  may run, with the RPC's local variables; \<open>rpcBegin\<close> runs an RPC to its first such place and
  \<open>rpcNext\<close> from one to the next. Driven without interruption they are the RPCs.
\<close>

section \<open>Flights\<close>

datatype rpc = RpcStart TaskConfig | RpcRecover TaskHandle | RpcDestroy string bool

datatype reply = StartReply "error + TaskHandle" | ErrReply "error option"

datatype flight =
    StartClaim TaskConfig UnitTaskConfig nat
  | StartRead TaskConfig UnitTaskConfig nat
  | StartJob TaskConfig string nat TaskHandle
  | StartRollBack string nat error
  | StartRegister TaskConfig string nat TaskHandle UnitState
  | StartAttach TaskConfig string nat TaskHandle UnitState
  | RecoverClaim TaskHandle string nat
  | RecoverRead TaskHandle string nat
  | RecoverRegister TaskHandle string nat UnitState
  | RecoverAttach TaskHandle string nat UnitState
  | GiveBack string reply
  | DestroyStop string nat string
  | DestroyDetach string nat string
  | DestroyForget string string

fun rpc_task :: "rpc \<Rightarrow> string" where
  "rpc_task (RpcStart cfg) = ID cfg"
| "rpc_task (RpcRecover handle) = ID (Config handle)"
| "rpc_task (RpcDestroy taskID force) = taskID"

section \<open>From one place to the next\<close>

fun rpcBegin :: "env \<Rightarrow> nomad \<Rightarrow> rpc \<Rightarrow> (sys, flight + reply) state" where
  "rpcBegin env nom (RpcStart cfg) = do {
     r \<leftarrow> startChecks env nom cfg;
     ret (case r of
         Inl err \<Rightarrow> Inr (StartReply (Inl err))
       | Inr p \<Rightarrow> Inl (StartClaim cfg (snd p) (fst p)))
   }"
| "rpcBegin env nom (RpcRecover handle) = do {
     r \<leftarrow> recoverChecks nom handle;
     ret (case r of
         Inl res \<Rightarrow> Inr (ErrReply res)
       | Inr p \<Rightarrow> Inl (RecoverClaim handle (Unit (snd p)) (fst p)))
   }"
| "rpcBegin env nom (RpcDestroy taskID force) = do {
     t \<leftarrow> lookupTask taskID;
     case t of
       None \<Rightarrow> ret (Inr (ErrReply (Some ErrTaskNotFound)))
     | Some hid \<Rightarrow> do {
         unit \<leftarrow> gets (\<lambda>s. th_Unit (hnds s hid));
         exited \<leftarrow> gets (\<lambda>s. HasExited (hnds s hid));
         if \<not> exited \<and> \<not> force then do {
           st \<leftarrow> gets (\<lambda>s. ts_State (TaskStatus (hnds s hid)));
           ret (Inr (ErrReply (Some (Errorf ''cannot destroy task in state %q'' [AStr (taskState_string st)]))))
         } else ret (Inl ((if \<not> exited then DestroyStop else DestroyDetach) taskID hid unit))
       }
   }"

text \<open>\<open>StartTask\<close> after it has read the unit's state: start the unit unless it is running.\<close>

definition startUnlessRunning ::
    "TaskConfig \<Rightarrow> string \<Rightarrow> nat \<Rightarrow> TaskHandle \<Rightarrow> error + UnitState \<Rightarrow> flight" where
  "startUnlessRunning cfg unit mid handle st = (case st of
     Inl err \<Rightarrow> GiveBack unit (StartReply (Inl (Wrapf ''get unit status: %w'' [] err)))
   | Inr activeState \<Rightarrow>
       (if ToTaskState activeState \<noteq> TaskStateRunning then StartJob cfg unit mid handle
        else StartRegister cfg unit mid handle activeState))"

fun rpcNext :: "env \<Rightarrow> nomad \<Rightarrow> flight \<Rightarrow> (sys, flight + reply) state" where
  "rpcNext env nom (StartClaim cfg c mid) = do {
     r \<leftarrow> claim (Unit c) (ID cfg);
     ret (case r of Some err \<Rightarrow> Inr (StartReply (Inl err)) | None \<Rightarrow> Inl (StartRead cfg c mid))
   }"
| "rpcNext env nom (StartRead cfg c mid) = (case SetDriverState nom c of
     Inl err \<Rightarrow> ret (Inl (GiveBack (Unit c) (StartReply (Inl (Wrapf ''encode task state: %w'' [] err)))))
   | Inr blob \<Rightarrow> do {
       st \<leftarrow> with_mgr mid (UnitState env DriverCtx (Unit c));
       ret (Inl (startUnlessRunning cfg (Unit c) mid
         \<lparr>Version = taskHandleVersion, Config = cfg, DriverState = blob\<rparr> st))
     })"
| "rpcNext env nom (StartJob cfg unit mid handle) = do {
     e \<leftarrow> with_mgr mid (StartUnit env DriverCtx unit);
     ret (Inl (case e of
         Some err \<Rightarrow> StartRollBack unit mid err
       | None \<Rightarrow> StartRegister cfg unit mid handle UnitStateActive))
   }"
| "rpcNext env nom (StartRollBack unit mid err) = do {
     rollBackFailedStart env mid unit;
     ret (Inl (GiveBack unit (StartReply (Inl (Wrapf ''start unit: %w'' [] err)))))
   }"
| "rpcNext env nom (StartRegister cfg unit mid handle st) = do {
     with_mgr mid (RegisterUnit env DriverCtx unit);
     ret (Inl (StartAttach cfg unit mid handle st))
   }"
| "rpcNext env nom (StartAttach cfg unit mid handle st) = do {
     attachTask env mid cfg unit handle st;
     ret (Inr (StartReply (Inr handle)))
   }"
| "rpcNext env nom (RecoverClaim handle unit mid) = do {
     r \<leftarrow> claim unit (ID (Config handle));
     ret (case r of Some err \<Rightarrow> Inr (ErrReply (Some err)) | None \<Rightarrow> Inl (RecoverRead handle unit mid))
   }"
| "rpcNext env nom (RecoverRead handle unit mid) = do {
     st \<leftarrow> with_mgr mid (UnitState env DriverCtx unit);
     ret (Inl (case st of
         Inl err \<Rightarrow> GiveBack unit (ErrReply (Some (Wrapf ''get unit status: %w'' [] err)))
       | Inr activeState \<Rightarrow> RecoverRegister handle unit mid activeState))
   }"
| "rpcNext env nom (RecoverRegister handle unit mid activeState) = do {
     with_mgr mid (RegisterUnit env DriverCtx unit);
     ret (Inl (RecoverAttach handle unit mid activeState))
   }"
| "rpcNext env nom (RecoverAttach handle unit mid activeState) = do {
     attachRecovered env mid (ID (Config handle)) unit handle activeState;
     ret (Inr (ErrReply None))
   }"
| "rpcNext env nom (GiveBack unit r) = do { release unit; ret (Inr r) }"
| "rpcNext env nom (DestroyStop taskID hid unit) = do {
     stopForDestroy env hid;
     ret (Inl (DestroyDetach taskID hid unit))
   }"
| "rpcNext env nom (DestroyDetach taskID hid unit) = do {
     upd_handler hid Handler_Stop;
     ret (Inl (DestroyForget taskID unit))
   }"
| "rpcNext env nom (DestroyForget taskID unit) = do {
     r \<leftarrow> forgetTask taskID unit;
     ret (Inr (ErrReply r))
   }"

text \<open>At most this many places are left.\<close>

fun places :: "flight \<Rightarrow> nat" where
  "places (StartClaim cfg c mid) = 5"
| "places (StartRead cfg c mid) = 4"
| "places (StartJob cfg unit mid handle) = 3"
| "places (StartRollBack unit mid err) = 2"
| "places (StartRegister cfg unit mid handle st) = 2"
| "places (StartAttach cfg unit mid handle st) = 1"
| "places (RecoverClaim handle unit mid) = 4"
| "places (RecoverRead handle unit mid) = 3"
| "places (RecoverRegister handle unit mid st) = 2"
| "places (RecoverAttach handle unit mid st) = 1"
| "places (GiveBack unit r) = 1"
| "places (DestroyStop taskID hid unit) = 3"
| "places (DestroyDetach taskID hid unit) = 2"
| "places (DestroyForget taskID unit) = 1"

section \<open>RPCs without interruption\<close>

primrec rpcDrive :: "env \<Rightarrow> nomad \<Rightarrow> nat \<Rightarrow> flight \<Rightarrow> (sys, flight + reply) state" where
  "rpcDrive env nom 0 f = ret (Inl f)"
| "rpcDrive env nom (Suc n) f = do {
     r \<leftarrow> rpcNext env nom f;
     case r of Inl g \<Rightarrow> rpcDrive env nom n g | Inr reply \<Rightarrow> ret (Inr reply)
   }"

definition rpcRun :: "env \<Rightarrow> nomad \<Rightarrow> rpc \<Rightarrow> (sys, flight + reply) state" where
  "rpcRun env nom r = do {
     x \<leftarrow> rpcBegin env nom r;
     case x of Inl f \<Rightarrow> rpcDrive env nom (places f) f | Inr reply \<Rightarrow> ret (Inr reply)
   }"

text \<open>The RPC as one step.\<close>

fun rpcAtomic :: "env \<Rightarrow> nomad \<Rightarrow> rpc \<Rightarrow> (sys, reply) state" where
  "rpcAtomic env nom (RpcStart cfg) = do { r \<leftarrow> StartTask env nom cfg; ret (StartReply r) }"
| "rpcAtomic env nom (RpcRecover handle) = do { r \<leftarrow> RecoverTask env nom handle; ret (ErrReply r) }"
| "rpcAtomic env nom (RpcDestroy taskID force) = do { r \<leftarrow> DestroyTask env taskID force; ret (ErrReply r) }"

end
