(* ===== verification/InterleavingProps.thy ===== *)
theory InterleavingProps
  imports Interleaving Weakest
begin

text \<open>
  The places of an RPC are the RPC: run without interruption they do what it does.
\<close>

lemma run_state_wpI: "(\<And>Q. wp m Q s = wp n Q s) \<Longrightarrow> run_state m s = run_state n s"
proof -
  assume "\<And>Q. wp m Q s = wp n Q s"
  from this [of "\<lambda>a t. (a, t) = run_state n s"] show ?thesis
    by (simp add: wp_def prod_eq_iff)
qed

section \<open>Driving an RPC\<close>

lemmas run_parts = exec_bind result_bind eval_nat_numeral

lemma drive_start:
  "run_state (rpcDrive env nom 5 (StartClaim cfg c mid)) s =
     (Inr (StartReply (result (startFrom env nom mid cfg c) s)), exec (startFrom env nom mid cfg c) s)"
  by (simp add: run_eq run_parts startFrom_def startClaimed_def ensureRunning_def manageTask_def
      startUnlessRunning_def Let_def del: run_state_bind split: option.split sum.split)

lemma drive_recover:
  "run_state (rpcDrive env nom 4 (RecoverClaim handle u mid)) s =
     (Inr (ErrReply (result (recoverFrom env mid (ID (Config handle)) u handle) s)),
      exec (recoverFrom env mid (ID (Config handle)) u handle) s)"
  by (simp add: run_eq run_parts recoverFrom_def recoverClaimed_def manageRecovered_def
      del: run_state_bind split: option.split sum.split)

lemma drive_destroy:
  "run_state (rpcDrive env nom 2 (DestroyDetach i hid u)) s =
     (Inr (ErrReply (result (teardownTask i hid u) s)), exec (teardownTask i hid u) s)"
  "run_state (rpcDrive env nom 3 (DestroyStop i hid u)) s =
     (Inr (ErrReply (result (teardownTask i hid u) (exec (stopForDestroy env hid) s))),
      exec (teardownTask i hid u) (exec (stopForDestroy env hid) s))"
  by (simp_all add: run_eq run_parts teardownTask_def del: run_state_bind)

lemma rpcRun_is_atomic:
  "run_state (rpcRun env nom r) s = (Inr (result (rpcAtomic env nom r) s), exec (rpcAtomic env nom r) s)"
proof (cases r)
  case (RpcStart cfg)
  then show ?thesis
    by (simp add: run_eq exec_bind result_bind rpcRun_def StartTask_def drive_start
        del: run_state_bind split: sum.split)
next
  case (RpcRecover handle)
  then show ?thesis
    by (simp add: run_eq exec_bind result_bind rpcRun_def RecoverTask_def drive_recover
        del: run_state_bind split: sum.split)
next
  case (RpcDestroy i force)
  then show ?thesis
    by (simp add: run_eq exec_bind result_bind rpcRun_def DestroyTask_def lookupTask_def drive_destroy
        del: run_state_bind split: option.split)
qed

end
