(* ===== verification/DriverSteps.thy ===== *)
theory DriverSteps
  imports DriverLifecycle InterleavingProps
begin

text \<open>
  The driver as a transition system in which RPCs overlap. Its state is the driver with the RPCs in
  flight, at most one for each task; a step takes one of them to its next place, begins another, or
  is one of the operations and goroutines that concern no single task. The invariant is kept by
  rely and guarantee: a step of one task's RPC guarantees to the RPCs of every other task the frame
  they rely on.
\<close>

section \<open>What a step leaves of the other tasks\<close>

text \<open>What an RPC of the task \<open>j\<close> relies on.\<close>

definition minds :: "string \<Rightarrow> sys \<Rightarrow> sys \<Rightarrow> bool" where
  "minds j s t \<longleftrightarrow>
     (\<forall>u. owner (unitOwners s) u = Some j \<longrightarrow> owner (unitOwners t) u = Some j) \<and>
     (\<forall>hid. tracked t j hid \<longrightarrow> tracked s j hid \<and> th_Unit (hnds t hid) = th_Unit (hnds s hid)) \<and>
     next_mgr s \<le> next_mgr t \<and> (systemdMgr s \<noteq> None \<longrightarrow> systemdMgr t \<noteq> None) \<and>
     (\<forall>m u. owner (unitOwners s) u = Some j \<longrightarrow> systemdMgr t = Some m \<longrightarrow> m < next_mgr s \<longrightarrow>
        systemdMgr s = Some m \<and> (\<not> d_done t \<longrightarrow> wake_of (mgrs s m) u \<noteq> None \<longrightarrow> wake_of (mgrs t m) u \<noteq> None)) \<and>
     (d_done s \<longrightarrow> d_done t)"

text \<open>What it is guaranteed as long as the driver is not shut down: no claim, no task is added either.\<close>

definition frames :: "string \<Rightarrow> sys \<Rightarrow> sys \<Rightarrow> bool" where
  "frames j s t \<longleftrightarrow> minds j s t \<and> d_done t = d_done s \<and>
     (\<forall>u. owner (unitOwners t) u = Some j \<longrightarrow> owner (unitOwners s) u = Some j) \<and>
     (\<forall>hid. tracked s j hid \<longrightarrow> tracked t j hid)"

lemma mindsD:
  assumes "minds j s t"
  shows "owner (unitOwners s) u = Some j \<Longrightarrow> owner (unitOwners t) u = Some j"
    and "tracked t j hid \<Longrightarrow> tracked s j hid" "tracked t j hid \<Longrightarrow> th_Unit (hnds t hid) = th_Unit (hnds s hid)"
    and "next_mgr s \<le> next_mgr t" "systemdMgr s \<noteq> None \<Longrightarrow> systemdMgr t \<noteq> None"
    and "owner (unitOwners s) u = Some j \<Longrightarrow> systemdMgr t = Some m \<Longrightarrow> m < next_mgr s \<Longrightarrow>
      systemdMgr s = Some m \<and> (\<not> d_done t \<longrightarrow> wake_of (mgrs s m) u \<noteq> None \<longrightarrow> wake_of (mgrs t m) u \<noteq> None)"
    and "d_done s \<Longrightarrow> d_done t"
  using assms unfolding minds_def by blast+

lemma minds_trans:
  assumes "minds j s t" "minds j t v"
  shows "minds j s v"
proof -
  note st = mindsD [OF assms(1)] and tv = mindsD [OF assms(2)]
  have "systemdMgr s = Some m \<and> (\<not> d_done v \<longrightarrow> wake_of (mgrs s m) u \<noteq> None \<longrightarrow> wake_of (mgrs v m) u \<noteq> None)"
    if "owner (unitOwners s) u = Some j" "systemdMgr v = Some m" "m < next_mgr s" for m u
    using st(6) [OF that(1) _ that(3)] tv(6) [OF st(1) [OF that(1)] that(2) less_le_trans [OF that(3) st(4)]] tv(7)
    by blast
  then show ?thesis
    using st(1-5,7) tv(1-5,7) unfolding minds_def by (simp add: order_trans [OF st(4) tv(4)])
qed

lemma frames_trans: "frames j s t \<Longrightarrow> frames j t v \<Longrightarrow> frames j s v"
  using minds_trans unfolding frames_def by metis

lemma frames_minds: "frames j s t \<Longrightarrow> minds j s t"
  by (simp add: frames_def)

lemma frames_refl [simp]: "frames j s s"
  by (auto simp: frames_def minds_def)

lemma frames_quietly: "quietly s t \<Longrightarrow> frames j s t"
  by (auto simp: quietly_def same_driver_def frames_def minds_def tracked_def hnd_le_def same_task_def)

lemma frames_claimed: "free_for s u i \<Longrightarrow> j \<noteq> i \<Longrightarrow> frames j s (claimed u i s)"
  using claimed_owner [of s u i]
  by (auto simp: frames_def minds_def tracked_def free_for_def claimed_def split: if_splits)

lemma frames_released:
  "owner (unitOwners s) u = Some i \<Longrightarrow> j \<noteq> i \<Longrightarrow> frames j s (s\<lparr>unitOwners := releaseUnit u (unitOwners s)\<rparr>)"
  by (auto simp: frames_def minds_def tracked_def own.holder_release split: if_splits)

lemma frames_reregisters:
  assumes "reregisters mid u s t" "owner (unitOwners s) u = Some i" "j \<noteq> i"
  shows "frames j s t"
proof -
  have "wake_of (mgrs t m) v = wake_of (mgrs s m) v" if "owner (unitOwners s) v = Some j" for m v
    using assms that by (cases "v = u") (auto simp: reregisters_def)
  then show ?thesis
    using assms(1) by (auto simp: reregisters_def same_driver_def frames_def minds_def tracked_def)
qed

lemma frames_attach:
  assumes "attaching hid s t" "drv_inv s" "j \<noteq> i"
  shows "frames j s (t\<lparr>tasks := Store_Set i hid (tasks t)\<rparr>)"
proof -
  have "h \<noteq> hid" if "tracked s j h" for h
    using drv_inv_task [OF assms(2) that] assms(1) by (auto simp: task_ok_def attaching_def)
  then show ?thesis
    using assms(1,3) by (auto simp: attaching_def frames_def minds_def tracked_def ts.get_put)
qed

lemma frames_untracked: "j \<noteq> i \<Longrightarrow> frames j s (s\<lparr>tasks := Store_Delete i (tasks s)\<rparr>)"
  by (auto simp: frames_def minds_def tracked_def ts.get_del split: if_splits)

section \<open>RPCs in flight\<close>

text \<open>The unit an RPC holds a claim on.\<close>

fun flight_unit :: "flight \<Rightarrow> string option" where
  "flight_unit (StartClaim cfg c mid) = None"
| "flight_unit (StartRead cfg c mid) = Some (Unit c)"
| "flight_unit (StartJob cfg unit mid handle) = Some unit"
| "flight_unit (StartRollBack unit mid err) = Some unit"
| "flight_unit (StartRegister cfg unit mid handle st) = Some unit"
| "flight_unit (StartAttach cfg unit mid handle st) = Some unit"
| "flight_unit (RecoverClaim handle unit mid) = None"
| "flight_unit (RecoverRead handle unit mid) = Some unit"
| "flight_unit (RecoverRegister handle unit mid st) = Some unit"
| "flight_unit (RecoverAttach handle unit mid st) = Some unit"
| "flight_unit (GiveBack unit r) = Some unit"
| "flight_unit (DestroyStop taskID hid unit) = Some unit"
| "flight_unit (DestroyDetach taskID hid unit) = Some unit"
| "flight_unit (DestroyForget taskID unit) = Some unit"

definition usable :: "sys \<Rightarrow> nat \<Rightarrow> bool" where
  "usable s mid \<longleftrightarrow> mid < next_mgr s \<and> systemdMgr s \<noteq> None"

text \<open>The task has claimed the unit and is not in the store.\<close>

definition holds :: "sys \<Rightarrow> string \<Rightarrow> string \<Rightarrow> bool" where
  "holds s i u \<longleftrightarrow> owner (unitOwners s) u = Some i \<and> Store_Get i (tasks s) = None"

text \<open>The task is being destroyed.\<close>

definition leaving :: "sys \<Rightarrow> string \<Rightarrow> string \<Rightarrow> bool" where
  "leaving s i u \<longleftrightarrow> owner (unitOwners s) u = Some i \<and> systemdMgr s \<noteq> None \<and>
     (\<forall>hid. tracked s i hid \<longrightarrow> th_Unit (hnds s hid) = u)"

fun failed :: "reply \<Rightarrow> bool" where
  "failed (StartReply r) \<longleftrightarrow> (\<exists>e. r = Inl e)"
| "failed (ErrReply r) \<longleftrightarrow> r \<noteq> None"

fun flight_ok :: "sys \<Rightarrow> string \<Rightarrow> flight \<Rightarrow> bool" where
  "flight_ok s i (StartClaim cfg c mid) \<longleftrightarrow> ID cfg = i \<and> Store_Get i (tasks s) = None \<and> usable s mid"
| "flight_ok s i (StartRead cfg c mid) \<longleftrightarrow> ID cfg = i \<and> holds s i (Unit c) \<and> usable s mid"
| "flight_ok s i (StartJob cfg unit mid handle) \<longleftrightarrow> ID cfg = i \<and> holds s i unit \<and> usable s mid"
| "flight_ok s i (StartRollBack unit mid err) \<longleftrightarrow> holds s i unit \<and> usable s mid"
| "flight_ok s i (StartRegister cfg unit mid handle st) \<longleftrightarrow> ID cfg = i \<and> holds s i unit \<and> usable s mid"
| "flight_ok s i (StartAttach cfg unit mid handle st) \<longleftrightarrow> ID cfg = i \<and> holds s i unit \<and> wired s mid unit"
| "flight_ok s i (RecoverClaim handle unit mid) \<longleftrightarrow>
     ID (Config handle) = i \<and> Store_Get i (tasks s) = None \<and> usable s mid"
| "flight_ok s i (RecoverRead handle unit mid) \<longleftrightarrow> ID (Config handle) = i \<and> holds s i unit \<and> usable s mid"
| "flight_ok s i (RecoverRegister handle unit mid st) \<longleftrightarrow> ID (Config handle) = i \<and> holds s i unit \<and> usable s mid"
| "flight_ok s i (RecoverAttach handle unit mid st) \<longleftrightarrow>
     ID (Config handle) = i \<and> holds s i unit \<and> wired s mid unit"
| "flight_ok s i (GiveBack unit r) \<longleftrightarrow> holds s i unit \<and> failed r"
| "flight_ok s i (DestroyStop taskID hid unit) \<longleftrightarrow> taskID = i \<and> leaving s i unit"
| "flight_ok s i (DestroyDetach taskID hid unit) \<longleftrightarrow> taskID = i \<and> leaving s i unit"
| "flight_ok s i (DestroyForget taskID unit) \<longleftrightarrow> taskID = i \<and> leaving s i unit"

lemma holds_minds: "minds i s t \<Longrightarrow> holds s i u \<Longrightarrow> holds t i u"
  by (cases "Store_Get i (tasks t)") (auto simp: minds_def holds_def tracked_def)

lemma free_minds: "minds i s t \<Longrightarrow> Store_Get i (tasks s) = None \<Longrightarrow> Store_Get i (tasks t) = None"
  by (cases "Store_Get i (tasks t)") (auto simp: minds_def tracked_def)

lemma usable_minds: "minds i s t \<Longrightarrow> usable s mid \<Longrightarrow> usable t mid"
  by (auto simp: minds_def usable_def)

lemma leaving_minds: "minds i s t \<Longrightarrow> leaving s i u \<Longrightarrow> leaving t i u"
  by (auto simp: minds_def leaving_def)

lemma wired_minds: "minds i s t \<Longrightarrow> holds s i u \<Longrightarrow> wired s mid u \<Longrightarrow> wired t mid u"
  by (auto simp: minds_def wired_def holds_def)

lemma flight_ok_minds: "minds i s t \<Longrightarrow> flight_ok s i f \<Longrightarrow> flight_ok t i f"
  by (cases f) (auto intro: holds_minds free_minds usable_minds leaving_minds wired_minds)

text \<open>The units the task owns are the one its handler manages and the one its RPC in flight holds.\<close>

definition claims_of :: "sys \<Rightarrow> string \<Rightarrow> string option \<Rightarrow> bool" where
  "claims_of s i held \<longleftrightarrow> (\<forall>u. owner (unitOwners s) u = Some i \<longrightarrow>
     (\<exists>hid. tracked s i hid \<and> th_Unit (hnds s hid) = u) \<or> held = Some u)"

lemma claims_frames: "frames i s t \<Longrightarrow> claims_of s i held \<Longrightarrow> claims_of t i held"
  unfolding claims_of_def frames_def using mindsD(3) by metis

section \<open>A step of an RPC\<close>

text \<open>What a step of the task \<open>i\<close>'s RPC, which held a claim on \<open>held\<close>, leaves.\<close>

definition steps_to :: "string \<Rightarrow> string option \<Rightarrow> sys \<Rightarrow> flight + reply \<Rightarrow> sys \<Rightarrow> bool" where
  "steps_to i held s r t \<longleftrightarrow> drv_inv t \<and> (\<forall>j. j \<noteq> i \<longrightarrow> frames j s t) \<and>
     (\<forall>g. r = Inl g \<longrightarrow> flight_ok t i g) \<and>
     (claims_of s i held \<longrightarrow> claims_of t i (case r of Inl g \<Rightarrow> flight_unit g | Inr _ \<Rightarrow> None))"

lemma steps_quietly:
  assumes "drv_inv s" "quietly s t" "flight_ok s i g" "flight_unit g = held"
  shows "steps_to i held s (Inl g) t"
  using assms flight_ok_minds [OF frames_minds [OF frames_quietly [OF assms(2)]]]
    claims_frames [OF frames_quietly [OF assms(2)]]
  by (auto simp: steps_to_def drv_inv_quietly frames_quietly)

lemma steps_reply: "drv_inv s \<Longrightarrow> steps_to i None s (Inr r) s"
  by (simp add: steps_to_def)

lemma steps_claim:
  assumes "drv_inv s" "free_for s u i" "flight_ok (claimed u i s) i g" "flight_unit g = Some u"
  shows "steps_to i None s (Inl g) (claimed u i s)"
  using assms drv_inv_claimed [OF assms(1,2)] frames_claimed [OF assms(2)] claimed_owner [OF assms(2)]
  by (auto simp: steps_to_def claims_of_def tracked_def split: if_splits)

lemma holds_claimed: "free_for s u i \<Longrightarrow> Store_Get i (tasks s) = None \<Longrightarrow> holds (claimed u i s) i u"
  by (simp add: holds_def claimed_owner)

lemma usable_claimed: "usable (claimed u i s) mid = usable s mid"
  by (simp add: usable_def)

lemma holds_unmanaged: "drv_inv s \<Longrightarrow> holds s i u \<Longrightarrow> unmanaged s u"
  by (simp add: holds_def claimed_unmanaged)

lemma steps_release:
  assumes "drv_inv s" "holds s i u"
  shows "steps_to i (Some u) s (Inr r) (s\<lparr>unitOwners := releaseUnit u (unitOwners s)\<rparr>)"
proof -
  have "frames j s (s\<lparr>unitOwners := releaseUnit u (unitOwners s)\<rparr>)" if "j \<noteq> i" for j
    using assms(2) that by (auto simp: holds_def intro: frames_released)
  then show ?thesis
    using drv_inv_release [OF assms(1) holds_unmanaged [OF assms]]
    by (auto simp: steps_to_def claims_of_def own.holder_release tracked_def split: if_splits)
qed

lemma steps_register:
  assumes "drv_inv s" "holds s i u" "reregisters mid u s t"
    and "flight_ok t i g" "flight_unit g = Some u"
  shows "steps_to i (Some u) s (Inl g) t"
proof -
  have "frames j s t" if "j \<noteq> i" for j
    using assms(2,3) that by (auto simp: holds_def intro: frames_reregisters)
  moreover have "claims_of t i (Some u)" if "claims_of s i (Some u)"
    using assms(3) that by (simp add: claims_of_def reregisters_def same_driver_def tracked_def)
  ultimately show ?thesis
    using drv_inv_reregisters(1) [OF assms(3,1) holds_unmanaged [OF assms(1,2)]] assms(4,5)
    by (simp add: steps_to_def)
qed

lemma steps_attach:
  assumes "drv_inv s" "holds s i u" "wired s mid u"
    and "attaching hid s t" "running_handler i u handle mid st (wake_of (mgrs s mid) u) hid er (hnds t hid)"
      "exit_known st activeState er" "st = TaskStateRunning \<or> st = TaskStateExited"
  shows "steps_to i (Some u) s (Inr r) (t\<lparr>tasks := Store_Set i hid (tasks t)\<rparr>)"
proof -
  have "drv_inv (t\<lparr>tasks := Store_Set i hid (tasks t)\<rparr>)"
    using drv_inv_attach [OF assms(1) _ assms(3-7)] assms(2) by (simp add: holds_def)
  moreover have "th_Unit (hnds t hid) = u"
    using assms(5) by (auto simp: running_handler_def ready_handler_def)
  then have "claims_of (t\<lparr>tasks := Store_Set i hid (tasks t)\<rparr>) i None" if "claims_of s i (Some u)"
    using that assms(2,4) by (auto simp: claims_of_def holds_def tracked_def attaching_def ts.get_put)
  ultimately show ?thesis
    using frames_attach [OF assms(4,1)] by (simp add: steps_to_def)
qed

lemma untrack_unmanaged:
  "drv_inv s \<Longrightarrow> owner (unitOwners s) u = Some i \<Longrightarrow> unmanaged (s\<lparr>tasks := Store_Delete i (tasks s)\<rparr>) u"
  by (rule claimed_unmanaged [of _ _ i]) (auto simp: drv_inv_untrack ts.get_del)

lemma steps_forget:
  assumes inv: "drv_inv s" and i: "leaving s i u"
  shows "wp (forgetTask i u) (\<lambda>r. steps_to i (Some u) s (Inr (ErrReply r))) s"
proof -
  obtain mid where mid: "systemdMgr s = Some mid"
    using i by (auto simp: leaving_def)
  let ?s1 = "exec (with_mgr mid (UnregisterUnit u)) s"
  let ?s2 = "?s1\<lparr>tasks := Store_Delete i (tasks ?s1)\<rparr>"
  let ?s3 = "?s2\<lparr>unitOwners := releaseUnit u (unitOwners ?s2)\<rparr>"
  have own: "owner (unitOwners s) u = Some i" and re: "reregisters mid u s ?s1"
    using i by (simp_all add: leaving_def unregister_reregisters)
  have "reregisters mid u (s\<lparr>tasks := Store_Delete i (tasks s)\<rparr>) ?s2"
    using re by (simp add: reregisters_def same_driver_def extends_def)
  then have s2: "drv_inv ?s2" "unmanaged ?s2 u"
    using drv_inv_reregisters [OF _ drv_inv_untrack [OF inv] untrack_unmanaged [OF inv own]] by auto
  have same: "unitOwners ?s2 = unitOwners s" "tasks ?s1 = tasks s" "hnds ?s2 = hnds s"
    using re by (simp_all add: reregisters_def same_driver_def)
  have "frames j s ?s3" if "j \<noteq> i" for j
    using frames_trans [OF frames_reregisters [OF re own that] frames_trans [OF frames_untracked [OF that]
      frames_released [of ?s2 u i j]]] own same that by simp
  moreover have "claims_of ?s3 i None" if "claims_of s i (Some u)"
    using that i same by (auto simp: claims_of_def leaving_def own.holder_release split: if_splits)
  ultimately have "steps_to i (Some u) s (Inr r) ?s3" for r
    using drv_inv_release [OF s2] by (simp add: steps_to_def)
  then show ?thesis
    using mid by (simp add: forgetTask_def wp_simps getManager_def wp_def [of "with_mgr mid m" for m])
qed

lemma unit_calls_quietly:
  "state_io_rel quietly (with_mgr mid (UnitState env DriverCtx u))"
  "state_io_rel quietly (with_mgr mid (StartUnit env DriverCtx u))"
  by (intro quietly_rules)+

lemma steps_claim_wp:
  assumes inv: "drv_inv s" and free: "Store_Get i (tasks s) = None"
    and g: "flight_unit g = Some u" "holds (claimed u i s) i u \<Longrightarrow> flight_ok (claimed u i s) i g"
  shows "wp (claim u i) (\<lambda>r. wp (ret (case r of Some err \<Rightarrow> Inr (k err) | None \<Rightarrow> Inl g)) (steps_to i None s)) s"
  by (rule claim_wp) (use inv free g steps_claim [OF inv] holds_claimed in \<open>simp_all add: wp_ret steps_reply\<close>)

lemma steps_register_wp:
  assumes inv: "drv_inv s" and u: "holds s i u" "usable s mid"
    and g: "flight_unit g = Some u" "\<And>t. holds t i u \<Longrightarrow> wired t mid u \<Longrightarrow> flight_ok t i g"
  shows "wp (with_mgr mid (RegisterUnit env ctx u)) (\<lambda>_. wp (ret (Inl g)) (steps_to i (Some u) s)) s"
proof (rule RegisterUnit_wp)
  fix t
  assume t: "reregisters mid u s t" "wake_of (mgrs t mid) u \<noteq> None"
  have "holds t i u"
    using t(1) u(1) by (simp add: holds_def reregisters_def same_driver_def)
  moreover have "wired t mid u"
    using wired_now [OF t] u(2) by (simp add: usable_def)
  ultimately show "wp (ret (Inl g)) (steps_to i (Some u) s) t"
    using steps_register [OF inv u(1) t(1) _ g(1)] g(2) by (simp add: wp_ret)
qed

lemma recoveredState_cases: "recoveredState st = TaskStateRunning \<or> recoveredState st = TaskStateExited"
  by (simp add: recoveredState_iff)

lemma rpcNext_wp:
  assumes inv: "drv_inv s" and f: "flight_ok s i f"
  shows "wp (rpcNext env nom f) (steps_to i (flight_unit f) s) s"
proof (cases f)
  case (StartClaim cfg c mid)
  then show ?thesis
    using f unfolding StartClaim rpcNext.simps wp_bind flight_unit.simps
    by (auto intro!: steps_claim_wp [OF inv] simp: usable_claimed)
next
  case (StartRead cfg c mid)
  have "flight_ok s i (startUnlessRunning cfg (Unit c) mid h st)"
    "flight_unit (startUnlessRunning cfg (Unit c) mid h st) = Some (Unit c)" for h st
    using f StartRead by (auto simp: startUnlessRunning_def split: sum.split)
  then show ?thesis
    using StartRead f by (auto simp: wp_ret wp_bind intro!: quietly_wp [OF unit_calls_quietly(1)] steps_quietly [OF inv]
        quietly_refl split: sum.split)
next
  case (StartJob cfg u mid handle)
  then show ?thesis
    using f by (auto simp: wp_ret wp_bind intro!: quietly_wp [OF unit_calls_quietly(2)] steps_quietly [OF inv]
        split: option.split)
next
  case (StartRollBack u mid err)
  then show ?thesis
    using f by (auto simp: wp_ret wp_bind intro!: quietly_wp [OF rollBack_quietly] steps_quietly [OF inv])
next
  case (StartRegister cfg u mid handle st)
  then show ?thesis
    using f by (auto simp: wp_bind intro!: steps_register_wp [OF inv])
next
  case (StartAttach cfg u mid handle st)
  then show ?thesis
    using f by (auto simp: wp_ret wp_bind exit_known_def intro!: attachTask_wp steps_attach [OF inv])
next
  case (RecoverClaim handle u mid)
  then show ?thesis
    using f unfolding RecoverClaim rpcNext.simps wp_bind flight_unit.simps
    by (auto intro!: steps_claim_wp [OF inv] simp: usable_claimed)
next
  case (RecoverRead handle u mid)
  then show ?thesis
    using f by (auto simp: wp_ret wp_bind intro!: quietly_wp [OF unit_calls_quietly(1)] steps_quietly [OF inv]
        split: sum.split)
next
  case (RecoverRegister handle u mid st)
  then show ?thesis
    using f by (auto simp: wp_bind intro!: steps_register_wp [OF inv])
next
  case (RecoverAttach handle u mid st)
  then show ?thesis
    using f by (auto simp: wp_ret wp_bind intro!: attachRecovered_wp steps_attach [OF inv] recoveredState_cases)
next
  case (GiveBack u r)
  then show ?thesis
    using f steps_release [OF inv] by (simp add: wp_simps)
next
  case (DestroyStop j hid u)
  then show ?thesis
    using f by (auto simp: wp_ret wp_bind intro!: quietly_wp [OF stopForDestroy_quietly] steps_quietly [OF inv])
next
  case (DestroyDetach j hid u)
  then show ?thesis
    using f by (auto simp: wp_ret wp_bind intro!: quietly_wp [OF Handler_Stop_quietly] steps_quietly [OF inv])
next
  case (DestroyForget j u)
  then show ?thesis
    using f by (auto simp: wp_bind wp_ret intro!: wp_mono [OF steps_forget [OF inv]])
qed

lemma rpcBegin_wp:
  assumes inv: "drv_inv s"
  shows "wp (rpcBegin env nom r) (steps_to (rpc_task r) None s) s"
proof (cases r)
  case (RpcStart cfg)
  have "usable s mid" if "systemdMgr s = Some mid" for mid
    using drv_inv_current [OF inv that] that by (simp add: usable_def)
  then show ?thesis
    using RpcStart by (auto simp: wp_bind wp_ret inv steps_to_def intro!: startChecks_wp)
next
  case (RpcRecover handle)
  have "usable s mid" if "systemdMgr s = Some mid" for mid
    using drv_inv_current [OF inv that] that by (simp add: usable_def)
  then show ?thesis
    using RpcRecover by (auto simp: wp_bind wp_ret inv steps_to_def intro!: recoverChecks_wp)
next
  case (RpcDestroy i force)
  have "leaving s i (th_Unit (hnds s hid))" if "tracked s i hid" for hid
    using drv_inv_task [OF inv that] that by (auto simp: leaving_def task_ok_def tracked_def)
  moreover have "claims_of s i (Some u)" if "claims_of s i None" for u
    using that by (simp add: claims_of_def)
  ultimately show ?thesis
    using RpcDestroy inv by (cases "Store_Get i (tasks s)")
      (auto simp: lookupTask_def wp_simps steps_to_def tracked_def)
qed

section \<open>The other steps\<close>

lemma SetConfig_frames: "drv_inv s \<Longrightarrow> drv_inv (exec (SetConfig env nom cfg) s) \<and> frames j s (exec (SetConfig env nom cfg) s)"
proof -
  assume inv: "drv_inv s"
  have "frames j s t" if "reconfigured env nom cfg s t" for t
    using that by (auto simp: reconfigured_def frames_def minds_def tracked_def)
  moreover have "frames j s t" if "not_reconfigured s t" for t
    using that by (auto simp: not_reconfigured_def frames_def minds_def tracked_def)
  ultimately have "wp (SetConfig env nom cfg) (\<lambda>_ t. drv_inv t \<and> frames j s t) s"
    by (intro SetConfig_wp inv) auto
  then show ?thesis
    by (simp add: wp_def)
qed

lemma pprof_only_frames: "pprof_only s t \<Longrightarrow> frames j s t"
  by (auto simp: pprof_only_def frames_def minds_def tracked_def)

text \<open>Besides the Managers' registrations, a shutdown may drop tasks, nothing else.\<close>

definition shuts :: "sys \<Rightarrow> sys \<Rightarrow> bool" where
  "shuts s t \<longleftrightarrow> unitOwners t = unitOwners s \<and> next_mgr t = next_mgr s \<and> systemdMgr t = systemdMgr s \<and>
     (tasks t = [] \<or> tasks t = tasks s) \<and>
     (\<forall>h. th_Unit (hnds t h) = th_Unit (hnds s h))"

lemma shuts_preorder: "preorder_rel shuts"
  by (rule preorder_relI) (auto simp: shuts_def)

lemma shuts_modify: "(\<And>s. shuts s (f s)) \<Longrightarrow> state_io_rel shuts (modify f)"
  by (simp add: state_io_rel_def)

lemma stages_shut:
  "state_io_rel shuts stopHandlers" "state_io_rel shuts stopManager" "state_io_rel shuts stopPprof"
proof -
  have parts: "state_io_rel shuts (with_mgr mid Manager_Stop)" "state_io_rel shuts (with_pprof p)"
    "state_io_rel shuts (upd_handler hid Handler_Stop)" for mid hid and p :: "(pstate, unit) state"
    by (simp_all add: state_io_rel_def exec_with_mgr with_mgr_def put_mgr_def with_pprof_def upd_handler_def shuts_def
        Handler_Stop_def)
  show "state_io_rel shuts stopHandlers" "state_io_rel shuts stopManager" "state_io_rel shuts stopPprof"
    unfolding stopHandlers_def stopManager_def stopPprof_def
    by (intro io_rules shuts_preorder parts shuts_modify; simp add: shuts_def Store_Drain_def)+
qed

lemma Shutdown_shuts: "shuts s (exec (Shutdown stages) s)"
proof -
  have "state_io_rel shuts (for_each (\<lambda>m. m) (take stages [stopHandlers, stopManager, stopPprof]))"
    using stages_shut by (auto simp: take_Cons io_bind io_ret shuts_preorder split: nat.split)
  then have "state_io_rel shuts (Shutdown stages)"
    unfolding Shutdown_def by (intro io_bind shuts_preorder shuts_modify) (simp_all add: shuts_def)
  then show ?thesis
    by (rule io_exec)
qed

lemma Shutdown_minds: "minds j s (exec (Shutdown stages) s)" "d_done (exec (Shutdown stages) s)"
proof -
  show "minds j s (exec (Shutdown stages) s)"
    using Shutdown_shuts [of s stages] by (auto simp: shuts_def minds_def tracked_def Store_Get_def Shutdown_stages Let_def)
  show "d_done (exec (Shutdown stages) s)"
    by (simp add: Shutdown_stages Let_def)
qed

section \<open>The transition system\<close>

type_synonym flights = "string \<Rightarrow> flight option"

definition in_flight :: "flight + reply \<Rightarrow> flight option" where
  "in_flight r = (case r of Inl f \<Rightarrow> Some f | Inr _ \<Rightarrow> None)"

lemma in_flight_simps [simp]: "in_flight (Inl f) = Some f" "in_flight (Inr r) = None"
  by (simp_all add: in_flight_def)

text \<open>
  Nomad serialises the RPCs that start, recover or destroy one task; everything else overlaps. A
  \<open>StopTask\<close> waits for its unit as a destroy does: its stop job and its kill are steps of their own.
\<close>

inductive drv_step :: "env \<Rightarrow> nomad \<Rightarrow> flights \<times> sys \<Rightarrow> flights \<times> sys \<Rightarrow> bool" for env nom where
  rpc_begin: "F (rpc_task r) = None \<Longrightarrow> drv_step env nom (F, s)
     (F(rpc_task r := in_flight (result (rpcBegin env nom r) s)), exec (rpcBegin env nom r) s)"
| rpc_next: "F i = Some f \<Longrightarrow> drv_step env nom (F, s)
     (F(i := in_flight (result (rpcNext env nom f) s)), exec (rpcNext env nom f) s)"
| rpc_SetConfig: "drv_step env nom (F, s) (F, exec (SetConfig env nom cfg) s)"
| rpc_Shutdown: "drv_step env nom (F, s) (F, exec (Shutdown stages) s)"
| rpc_StopTask: "drv_step env nom (F, s) (F, exec (StopTask env i timeout) s)"
| rpc_Fingerprint: "drv_step env nom (F, s) (F, exec (handleFingerprint env fingerprints) s)"
| go_stop: "drv_step env nom (F, s) (F, exec (with_hnd hid (Handler_StopUnit (mgr_ctl env))) s)"
| go_kill: "drv_step env nom (F, s) (F, exec (forceKillTask env hid) s)"
| go_pprof: "p < length (d_servers s) \<Longrightarrow> drv_step env nom (F, s) (F, exec (pprofGoroutine p) s)"
| go_poll: "drv_step env nom (F, s) (F, exec (pollGoroutine env hid) s)"
| go_stats: "drv_step env nom (F, s) (F, exec (statsLoop env hid stats) s)"
| go_wake: "drv_step env nom (F, s) (F, exec (with_mgr mid (recvWake w)) s)"
| go_dispatch: "drv_step env nom (F, s) (F, exec (with_mgr mid (propertiesDispatchLoop updates)) s)"
| go_reconnect: "drv_step env nom (F, s) (F, exec (with_mgr mid (reconnectTick env backoff)) s)"
| go_reader: "drv_step env nom (F, s) (F, exec (with_mgr mid (finishReader r)) s)"

inductive drv_run :: "env \<Rightarrow> nomad \<Rightarrow> flights \<Rightarrow> sys \<Rightarrow> bool" for env nom where
  drv_new: "drv_run env nom (\<lambda>_. None) New"
| drv_more: "drv_run env nom F s \<Longrightarrow> drv_step env nom (F, s) (G, t) \<Longrightarrow> drv_run env nom G t"

text \<open>The states the driver reaches, whatever is in flight.\<close>

definition drv_reachable :: "env \<Rightarrow> nomad \<Rightarrow> sys \<Rightarrow> bool" where
  "drv_reachable env nom s \<longleftrightarrow> (\<exists>F. drv_run env nom F s)"

lemma run_steps: "(drv_step env nom)\<^sup>*\<^sup>* x y \<Longrightarrow> drv_run env nom (fst x) (snd x) \<Longrightarrow> drv_run env nom (fst y) (snd y)"
  by (induction rule: rtranclp_induct) (auto intro: drv_more)

section \<open>The invariant of the transition system\<close>

definition run_inv :: "flights \<Rightarrow> sys \<Rightarrow> bool" where
  "run_inv F s \<longleftrightarrow> drv_inv s \<and> (\<forall>i f. F i = Some f \<longrightarrow> flight_ok s i f) \<and>
     (\<not> d_done s \<longrightarrow> (\<forall>i. claims_of s i (Option.bind (F i) flight_unit)))"

lemma bind_in_flight: "Option.bind (in_flight r) flight_unit = (case r of Inl g \<Rightarrow> flight_unit g | Inr _ \<Rightarrow> None)"
  by (simp add: in_flight_def split: sum.split)

lemma run_inv_rpc:
  assumes inv: "run_inv F s" and t: "steps_to i held s r t" "held = Option.bind (F i) flight_unit"
  shows "run_inv (F(i := in_flight r)) t"
proof -
  have fr: "frames j s t" if "j \<noteq> i" for j
    using t(1) that by (simp add: steps_to_def)
  have "flight_ok t j f" if "(F(i := in_flight r)) j = Some f" for j f
  proof (cases "j = i")
    case True
    then show ?thesis
      using that t(1) by (cases r) (auto simp: steps_to_def)
  next
    case False
    then show ?thesis
      using that inv flight_ok_minds [OF frames_minds [OF fr]] by (auto simp: run_inv_def)
  qed
  moreover have "claims_of t j (Option.bind ((F(i := in_flight r)) j) flight_unit)" if "\<not> d_done t" for j
  proof (cases "j = i")
    case True
    have "\<not> d_done s"
      using that fr [of "i @ ''x''"] by (simp add: frames_def)
    then show ?thesis
      using True inv t by (simp add: run_inv_def steps_to_def bind_in_flight)
  next
    case False
    then show ?thesis
      using that inv claims_frames [OF fr [OF False]] fr [OF False] by (simp add: run_inv_def frames_def)
  qed
  ultimately show ?thesis
    using t(1) by (simp add: run_inv_def steps_to_def)
qed

lemma run_inv_frames:
  assumes "run_inv F s" "drv_inv t" "\<And>j. frames j s t"
  shows "run_inv F t"
proof -
  have "flight_ok t i f" if "F i = Some f" for i f
    using assms(1) that by (auto simp: run_inv_def intro: flight_ok_minds [OF frames_minds [OF assms(3)]])
  moreover have "claims_of t i (Option.bind (F i) flight_unit)" if "\<not> d_done t" for i
    using assms(1) that assms(3) [of i] claims_frames [OF assms(3) [of i]] by (simp add: run_inv_def frames_def)
  ultimately show ?thesis
    using assms(2) by (simp add: run_inv_def)
qed

lemma run_inv_quietly: "quietly s t \<Longrightarrow> run_inv F s \<Longrightarrow> run_inv F t"
  by (intro run_inv_frames [of F s t] drv_inv_quietly [of s t] frames_quietly) (simp_all add: run_inv_def)

lemma recvWake_quietly: "state_io_rel quietly (with_mgr mid (recvWake w))"
  by (intro quietly_rules)

lemma dispatch_quietly: "state_io_rel quietly (with_mgr mid (propertiesDispatchLoop updates))"
  by (intro quietly_rules)

lemma reconnectTick_quietly: "state_io_rel quietly (with_mgr mid (reconnectTick env backoff))"
  by (intro quietly_rules)

lemma finishReader_quietly: "state_io_rel quietly (with_mgr mid (finishReader r))"
  by (intro quietly_rules)

lemma StopUnit_quietly: "state_io_rel quietly (with_hnd hid (Handler_StopUnit (mgr_ctl env)))"
  by (intro quietly_rules)

lemmas background_quietly = StopTask_quietly handleFingerprint_quietly pollGoroutine_quietly
  statsLoop_quietly recvWake_quietly dispatch_quietly reconnectTick_quietly finishReader_quietly
  StopUnit_quietly forceKillTask_quietly

lemma run_inv_step: "drv_step env nom (F, s) (G, t) \<Longrightarrow> run_inv F s \<Longrightarrow> run_inv G t"
proof (induction "(F, s)" "(G, t)" arbitrary: F s G t rule: drv_step.induct)
  case (rpc_begin F r s)
  then have "steps_to (rpc_task r) None s (result (rpcBegin env nom r) s) (exec (rpcBegin env nom r) s)"
    using rpcBegin_wp [of s env nom r] by (simp add: run_inv_def wp_def)
  then show ?case
    using rpc_begin(1) by (intro run_inv_rpc [OF rpc_begin(2)]) simp_all
next
  case (rpc_next F i f s)
  then have "steps_to i (flight_unit f) s (result (rpcNext env nom f) s) (exec (rpcNext env nom f) s)"
    using rpcNext_wp [of s i f env nom] by (simp add: run_inv_def wp_def)
  then show ?case
    using rpc_next(1) by (intro run_inv_rpc [OF rpc_next(2)]) simp_all
next
  case (rpc_SetConfig F s cfg)
  then show ?case
    using SetConfig_frames [of s env nom cfg]
    by (intro run_inv_frames [OF rpc_SetConfig(1)]) (simp_all add: run_inv_def)
next
  case (rpc_Shutdown F s stages)
  then show ?case
    by (simp add: run_inv_def Shutdown_inv Shutdown_minds(2) flight_ok_minds [OF Shutdown_minds(1)])
next
  case (go_pprof p s F)
  then show ?case
    using pprof_only_inv [OF pprofGoroutine_only] pprof_only_frames [OF pprofGoroutine_only]
    by (intro run_inv_frames [OF go_pprof(2)]) (simp_all add: run_inv_def)
qed (erule run_inv_quietly [rotated], rule io_exec, rule background_quietly)+

lemma drv_run_inv: "drv_run env nom F s \<Longrightarrow> run_inv F s"
proof (induction rule: drv_run.induct)
  case drv_new
  show ?case
    by (simp add: run_inv_def claims_of_def drv_inv_def pprof_ok_None New_def mgrs_ok_def tracked_def NewStore_def
        Store_Get_def owner_def)
qed (rule run_inv_step)

lemma drv_inv_reachable: "drv_reachable env nom s \<Longrightarrow> drv_inv s"
  using drv_run_inv by (auto simp: drv_reachable_def run_inv_def)

section \<open>RPCs without interruption\<close>

lemma drive_steps:
  "run_state (rpcDrive env nom n f) s = (Inr r, t) \<Longrightarrow> F i = Some f \<Longrightarrow>
   (drv_step env nom)\<^sup>*\<^sup>* (F, s) (F(i := None), t)"
proof (induction n arbitrary: f s F)
  case (Suc n)
  note step = rpc_next [where F = F and i = i and f = f and env = env and nom = nom and s = s, OF Suc.prems(2)]
  show ?case
  proof (cases "result (rpcNext env nom f) s")
    case (Inl g)
    have "(drv_step env nom)\<^sup>*\<^sup>* (F(i := Some g), exec (rpcNext env nom f) s) (F(i := Some g, i := None), t)"
      using Suc.prems(1) Inl by (intro Suc.IH [of g]) (simp_all add: run_eq exec_bind result_bind del: run_state_bind)
    then show ?thesis
      using step Inl by (simp add: converse_rtranclp_into_rtranclp del: fun_upd_apply)
  next
    case (Inr r')
    then show ?thesis
      using step Suc.prems(1) by (auto simp: run_eq exec_bind result_bind simp del: run_state_bind fun_upd_apply)
  qed
qed simp

lemma atomic_steps:
  assumes "F (rpc_task r) = None"
  shows "(drv_step env nom)\<^sup>*\<^sup>* (F, s) (F, exec (rpcAtomic env nom r) s)"
proof -
  note step = rpc_begin [where F = F and r = r and env = env and nom = nom and s = s, OF assms]
  have run: "result (rpcRun env nom r) s = Inr (result (rpcAtomic env nom r) s)"
    "exec (rpcRun env nom r) s = exec (rpcAtomic env nom r) s"
    by (simp_all add: rpcRun_is_atomic)
  show ?thesis
  proof (cases "result (rpcBegin env nom r) s")
    case (Inl f)
    let ?F = "F(rpc_task r := Some f)"
    have "(drv_step env nom)\<^sup>*\<^sup>* (?F, exec (rpcBegin env nom r) s) (?F(rpc_task r := None), exec (rpcAtomic env nom r) s)"
      using run Inl by (intro drive_steps [of _ _ "places f" f])
        (simp_all add: rpcRun_def run_eq exec_bind result_bind del: run_state_bind)
    then show ?thesis
      using step Inl assms by (simp add: converse_rtranclp_into_rtranclp fun_upd_idem)
  next
    case (Inr reply)
    then show ?thesis
      using step run assms by (simp add: rpcRun_def exec_bind result_bind fun_upd_idem r_into_rtranclp del: run_state_bind)
  qed
qed

text \<open>Nothing in flight.\<close>

definition drv_idle :: "env \<Rightarrow> nomad \<Rightarrow> sys \<Rightarrow> bool" where
  "drv_idle env nom s \<longleftrightarrow> drv_run env nom (\<lambda>_. None) s"

lemma idle_New: "drv_idle env nom New"
  by (simp add: drv_idle_def drv_new)

lemma idle_reachable: "drv_idle env nom s \<Longrightarrow> drv_reachable env nom s"
  by (auto simp: drv_idle_def drv_reachable_def)

lemma idle_SetConfig: "drv_idle env nom s \<Longrightarrow> drv_idle env nom (exec (SetConfig env nom cfg) s)"
  unfolding drv_idle_def by (erule drv_more) (rule rpc_SetConfig)

lemma idle_rpc: "drv_idle env nom s \<Longrightarrow> drv_idle env nom (exec (rpcAtomic env nom r) s)"
  using run_steps [OF atomic_steps [of "\<lambda>_. None"]] by (simp add: drv_idle_def)

end
