(* ===== verification/DriverSafety.thy ===== *)
theory DriverSafety
  imports DriverSteps SampleDriver
begin

text \<open>
  What each RPC guarantees in every state the driver can reach, with whatever other RPCs in flight:
  who owns a unit, and what a started, recovered, stopped or destroyed task leaves.
\<close>

section \<open>Ownership\<close>

text \<open>C1: In every state the driver reaches, no two tasks manage the same unit: each task in the
  store has a handler of its own, made for it, and is the recorded owner of the handler's unit; the
  handler's exit state is sound, and as long as the handler's Manager is the current one it is
  woken through the channel registered for its unit. The states are those of every interleaving of
  RPCs for different tasks with each other, with \<open>SetConfig\<close> and \<open>Shutdown\<close> and with the driver's
  goroutines.\<close>

theorem one_task_per_unit:
  assumes "drv_reachable env nom s" "tracked s i hid"
  shows "(\<forall>j hid'. tracked s j hid' \<and> th_Unit (hnds s hid') = th_Unit (hnds s hid) \<longrightarrow> j = i \<and> hid' = hid) \<and>
    th_taskID (hnds s hid) = i \<and> owner (unitOwners s) (th_Unit (hnds s hid)) = Some i \<and>
    sound_handler (hnds s hid) \<and>
    (systemdMgr s = Some (th_units (hnds s hid)) \<longrightarrow>
       th_wakeCh (hnds s hid) = wake_of (mgrs s (th_units (hnds s hid))) (th_Unit (hnds s hid)) \<and>
       (\<not> d_done s \<longrightarrow> th_wakeCh (hnds s hid) \<noteq> None))"
  using drv_inv_unit_unique [OF drv_inv_reachable [OF assms(1)]] assms(2)
    drv_inv_task [OF drv_inv_reachable [OF assms(1)] assms(2)]
  by (auto simp: task_ok_def)

lemma sample_idle_drv0: "drv_idle sample_env sample_nomad sample_drv0"
  using idle_SetConfig [OF idle_New, where env = sample_env and nom = sample_nomad and cfg = sample_config]
    sample_SetConfig by simp

lemma sample_idle_drv1: "drv_idle sample_env sample_nomad sample_drv1"
  using idle_rpc [OF sample_idle_drv0, where r = "RpcStart (sample_task ''t1'')"] sample_StartTask by simp

lemmas sample_reachable_drv0 = idle_reachable [OF sample_idle_drv0]

lemmas sample_reachable_drv1 = idle_reachable [OF sample_idle_drv1]

lemma sample_drv0_simps [simp]:
  "tasks sample_drv0 = []" "systemdMgr sample_drv0 = Some 0" "unitOwners sample_drv0 = []"
  "next_hnd sample_drv0 = 0" "next_mgr sample_drv0 = 1" "unit_policy sample_drv0 = Some \<lparr>allowed = [], denied = []\<rparr>"
  by (simp_all add: sample_drv0_def New_def NewStore_def)

lemma sample_drv1_simps [simp]:
  "tasks sample_drv1 = [(''t1'', 0)]" "systemdMgr sample_drv1 = Some 0"
  "unitOwners sample_drv1 = [(''a.service'', ''t1'')]" "next_hnd sample_drv1 = 1" "next_mgr sample_drv1 = 1"
  "hnds sample_drv1 0 = sample_hnd2" "mgrs sample_drv1 0 = sample_mgr2"
  by (simp_all add: sample_drv1_def)

lemma sample_hnd2_simps [simp]:
  "th_Unit sample_hnd2 = ''a.service''" "th_taskID sample_hnd2 = ''t1''" "th_units sample_hnd2 = 0"
  "th_id sample_hnd2 = 0" "\<not> HasExited sample_hnd2"
  by (simp_all add: sample_hnd2_def sample_handler_def HasExited_def)

lemma sample_tracked: "tracked sample_drv1 ''t1'' 0"
  by (simp add: tracked_def Store_Get_def)

theorem one_task_per_unit_witness:
  "owner (unitOwners sample_drv1) ''a.service'' = Some ''t1'' \<and>
   th_wakeCh (hnds sample_drv1 0) = wake_of (mgrs sample_drv1 0) ''a.service''"
  using one_task_per_unit [OF sample_reachable_drv1 sample_tracked] by simp

section \<open>Budgets of calls\<close>

text \<open>The limit of a call's context, and the budget of its kind: two minutes for starting and stopping a
  unit and waiting for the job, ten seconds for killing it and reading its properties. The calls
  that make a connection have none.\<close>

fun ctx_limit :: "ctx \<Rightarrow> nat option" where
  "ctx_limit (OpCtx c l) = Some l"
| "ctx_limit _ = None"

fun call_limit :: "call \<Rightarrow> nat option" where
  "call_limit (StartUnitContext k c u m) = ctx_limit c"
| "call_limit (StopUnitContext k c u m) = ctx_limit c"
| "call_limit (WaitJob c u a) = ctx_limit c"
| "call_limit (KillUnitWithTarget k c u w sig) = ctx_limit c"
| "call_limit (GetUnitProperty k c u p) = ctx_limit c"
| "call_limit (GetUnitProperties k c u) = ctx_limit c"
| "call_limit (GetUnitTypeProperties k c u p) = ctx_limit c"
| "call_limit (Dial c) = ctx_limit c"
| "call_limit _ = None"

fun budget :: "call \<Rightarrow> nat option" where
  "budget (StartUnitContext k c u m) = Some 120000"
| "budget (StopUnitContext k c u m) = Some 120000"
| "budget (WaitJob c u a) = Some 120000"
| "budget (KillUnitWithTarget k c u w sig) = Some 10000"
| "budget (GetUnitProperty k c u p) = Some 10000"
| "budget (GetUnitProperties k c u) = Some 10000"
| "budget (GetUnitTypeProperties k c u p) = Some 10000"
| "budget _ = None"

lemma limited_ctx: "limited t c \<longleftrightarrow> ctx_limit c = Some t"
  by (cases c) (simp_all add: limited_def)

lemma bounded_limit: "bounded_call c \<Longrightarrow> call_limit c = budget c"
  by (cases c) (auto simp: limited_ctx jobTimeout_def propertyTimeout_def)

text \<open>C27: Every call about a unit that the driver ever makes (starting, stopping and killing it, waiting
  for a job, reading its properties), whatever the RPCs, reloads and background work before it, is
  made under a context with the budget of its kind; jobs are enqueued in mode \<open>replace\<close> and kills
  are \<open>SIGKILL\<close> of the whole unit. Only these calls are limited: dialling systemd ends with the
  driver's or the Manager's context alone, and subscribing takes no context.\<close>

theorem driver_calls_bounded:
  assumes "drv_reachable env nom s"
  shows "\<forall>c \<in> set (hist s). call_limit c = budget c \<and>
    (case c of
       StartUnitContext k x u m \<Rightarrow> m = ''replace''
     | StopUnitContext k x u m \<Rightarrow> m = ''replace''
     | KillUnitWithTarget k x u w sig \<Rightarrow> w = ''all'' \<and> sig = 9
     | Dial x \<Rightarrow> x = DriverCtx \<or> x = ManagerCtx
     | _ \<Rightarrow> True)"
proof
  fix c
  assume "c \<in> set (hist s)"
  then have "bounded_call c"
    using drv_inv_hist [OF drv_inv_reachable [OF assms]] by (simp add: list_all_iff)
  then show "call_limit c = budget c \<and>
    (case c of
       StartUnitContext k x u m \<Rightarrow> m = ''replace''
     | StopUnitContext k x u m \<Rightarrow> m = ''replace''
     | KillUnitWithTarget k x u w sig \<Rightarrow> w = ''all'' \<and> sig = 9
     | Dial x \<Rightarrow> x = DriverCtx \<or> x = ManagerCtx
     | _ \<Rightarrow> True)"
    using bounded_limit [of c] by (cases c) (simp_all add: SIGKILL_def)
qed

theorem driver_calls_bounded_witness:
  "map call_limit (hist sample_drv1) = map budget (hist sample_drv1) \<and> length (hist sample_drv1) = 15"
  using driver_calls_bounded [OF sample_reachable_drv1]
  by (simp add: sample_drv1_def sample_hist2_def sample_hist0_def)

section \<open>Starting and recovering tasks\<close>

lemma StartTask_sound:
  assumes "drv_reachable env nom s" "run_state (StartTask env nom cfg) s = (Inr handle, t)"
  shows "started env nom cfg handle s t"
proof -
  have "wp (StartTask env nom cfg) (\<lambda>r t. case r of Inr h \<Rightarrow> started env nom cfg h s t | Inl e \<Rightarrow> True) s"
    by (rule StartTask_wp [OF drv_inv_reachable [OF assms(1)]]) simp_all
  from wpD [OF this assms(2)] show ?thesis by simp
qed

lemma RecoverTask_sound:
  assumes "drv_reachable env nom s" "run_state (RecoverTask env nom handle) s = (None, t)"
    "Store_Get (ID (Config handle)) (tasks s) = None"
  shows "recovered env nom handle s t"
proof -
  have "wp (RecoverTask env nom handle) (\<lambda>r t. r = None \<longrightarrow> recovered env nom handle s t) s"
    by (rule RecoverTask_wp [OF drv_inv_reachable [OF assms(1)]]) (simp_all add: assms(3))
  from wpD [OF this assms(2)] show ?thesis by simp
qed

text \<open>C5: \<open>StartTask\<close> either starts managing the unit completely or leaves no trace. It succeeds only
  for a task ID that is not in the store, a decodable and valid configuration, a unit the policy
  permits and that no other task owns, when systemd says the unit is running or the start job made
  for it is done; and then the returned handle carries the configuration, the
  task is stored with a running handler that watches the unit through its registered wake channel,
  and the unit belongs to the task. On an error no task is added or removed, no other unit's owner
  changes, and the task does not own the unit afterwards unless it did before.\<close>

theorem StartTask_outcome:
  assumes "drv_reachable env nom s" "run_state (StartTask env nom cfg) s = (r, t)"
  shows "case r of
      Inr handle \<Rightarrow> started env nom cfg handle s t
    | Inl e \<Rightarrow> tasks t = tasks s \<and>
        (owner (unitOwners t) = owner (unitOwners s) \<or>
         (\<exists>u. (owner (unitOwners s) u = None \<or> owner (unitOwners s) u = Some (ID cfg)) \<and>
            owner (unitOwners t) = (owner (unitOwners s))(u := None)))"
proof -
  have "wp (StartTask env nom cfg) (\<lambda>r t. case r of
      Inr handle \<Rightarrow> started env nom cfg handle s t
    | Inl e \<Rightarrow> refused (ID cfg) s t) s"
    by (rule StartTask_wp [OF drv_inv_reachable [OF assms(1)]]) simp_all
  from wpD [OF this assms(2)] show ?thesis
    by (cases r) (auto simp: refused_def free_for_def)
qed

theorem StartTask_outcome_witness:
  "started sample_env sample_nomad (sample_task ''t1'') sample_handle sample_drv0 sample_drv1"
  using StartTask_outcome [OF sample_reachable_drv0 sample_StartTask] by simp

text \<open>C6: \<open>RecoverTask\<close> of a task that is in the store does nothing. Otherwise it succeeds only when
  the unit recorded in the handle is free or already the task's and systemd reports its state, and
  then the task is stored with a handler for that unit: exited when the state is terminal and running
  otherwise. An exited task's result is computed from that state and the exit status systemd
  reports for this unit during the recovery, on the Manager's connection; its start time is the one
  systemd reports or, failing that, the time of the recovery. An error leaves no trace. The policy
  is not consulted: tightening it never orphans a task.\<close>

theorem RecoverTask_outcome:
  assumes "drv_reachable env nom s" "run_state (RecoverTask env nom handle) s = (r, t)"
  shows "if Store_Get (ID (Config handle)) (tasks s) \<noteq> None then r = None \<and> t = s
    else case r of
        None \<Rightarrow> recovered env nom handle s t
      | Some e \<Rightarrow> refused (ID (Config handle)) s t"
proof (cases "Store_Get (ID (Config handle)) (tasks s)")
  case None
  have "wp (RecoverTask env nom handle) (\<lambda>r t. case r of
      None \<Rightarrow> recovered env nom handle s t
    | Some e \<Rightarrow> refused (ID (Config handle)) s t) s"
    by (rule RecoverTask_wp [OF drv_inv_reachable [OF assms(1)]]) (simp_all add: None)
  from wpD [OF this assms(2)] None show ?thesis by simp
next
  case (Some hid)
  then show ?thesis
    using assms(2) by (simp add: RecoverTask_def recoverChecks_def recoverFrom_def lookupTask_def)
qed

theorem RecoverTask_outcome_witness:
  "\<exists>t. recovered sample_env sample_nomad sample_handle sample_drv0 t"
  using RecoverTask_outcome [OF sample_reachable_drv0 sample_RecoverTask]
  by (auto simp: Store_Get_def)

text \<open>C7: A restart loses no task. The handle that \<open>StartTask\<close> returns carries all that
  \<open>RecoverTask\<close> needs: if Nomad's codec decodes what it encoded, a driver that later recovers the
  task from that handle tracks the same task ID for the same unit, and owns the unit for it.\<close>

theorem restart_recovers_same_unit:
  assumes codec: "\<And>c blob. SetDriverState nom c = Inr blob \<Longrightarrow> GetDriverState nom blob = Inr c"
    and started: "drv_reachable env nom s" "run_state (StartTask env nom cfg) s = (Inr handle, t)"
    and recovered: "drv_reachable env' nom s'" "Store_Get (ID cfg) (tasks s') = None"
      "run_state (RecoverTask env' nom handle) s' = (None, t')"
  shows "\<exists>c hid hid'. DecodeDriverConfig nom cfg = Inr c \<and>
    tracked t (ID cfg) hid \<and> th_Unit (hnds t hid) = Unit c \<and>
    tracked t' (ID cfg) hid' \<and> th_Unit (hnds t' hid') = Unit c \<and>
    owner (unitOwners t') (Unit c) = Some (ID cfg)"
proof -
  obtain c mid where c: "DecodeDriverConfig nom cfg = Inr c" "SetDriverState nom c = Inr (DriverState handle)"
    "Config handle = cfg"
    "now_tracked (ID cfg) (Unit c) handle mid TaskStateRunning (claimed (Unit c) (ID cfg) s) t"
  proof -
    have "started env nom cfg handle s t"
      using StartTask_sound [OF started] .
    then show thesis
      using that by (auto simp: started_def)
  qed
  then have "recovered env' nom handle s' t'"
    using RecoverTask_sound [OF recovered(1,3)] recovered(2) by simp
  then obtain c' mid' st where r: "GetDriverState nom (DriverState handle) = Inr c'"
    "free_for s' (Unit c') (ID cfg)"
    "now_tracked (ID cfg) (Unit c') handle mid' st (claimed (Unit c') (ID cfg) s') t'"
    using c(3) unfolding recovered_def by blast
  then have "c' = c"
    using codec [OF c(2)] by simp
  moreover have "owner (unitOwners t') (Unit c') = Some (ID cfg)"
    using r(3) claimed_owner [OF r(2)] by (simp add: now_tracked_def)
  ultimately show ?thesis
    using c r(3) by (intro exI [of _ c]) (auto simp: now_tracked_def tracked_def ts.get_put Let_def)
qed

theorem restart_recovers_same_unit_witness:
  "\<exists>hid t'. tracked t' ''t1'' hid \<and> th_Unit (hnds t' hid) = ''a.service''"
  using restart_recovers_same_unit [OF _ sample_reachable_drv0 sample_StartTask sample_reachable_drv0 _
      sample_RecoverTask]
  by (auto simp: sample_nomad_def Store_Get_def)

section \<open>Stopping tasks\<close>

text \<open>What the outcome of a force-kill rests on: an answer of systemd to a call made in some state
  \<open>s1\<close> between the start and the end of the operation.\<close>

definition killed :: "env \<Rightarrow> nat \<Rightarrow> sys \<Rightarrow> sys \<Rightarrow> error option \<Rightarrow> bool" where
  "killed env hid s t r \<longleftrightarrow> (\<exists>s1. quietly s s1 \<and> quietly s1 t \<and>
     (case r of
        None \<Rightarrow> result (with_hnd hid (Handler_KillUnit (mgr_ctl env))) s1 = None \<or>
          (\<exists>st. result (with_hnd hid (Handler_UnitState (mgr_ctl env))) s1 = Inr st \<and> IsTerminal st)
      | Some e \<Rightarrow> \<exists>k. result (with_hnd hid (Handler_KillUnit (mgr_ctl env))) s1 = Some k \<and>
          e = Wrapf ''kill unit: %w'' [] k))"

lemma killed_mono: "quietly s0 s \<Longrightarrow> quietly t t1 \<Longrightarrow> killed env hid s t r \<Longrightarrow> killed env hid s0 t1 r"
  unfolding killed_def by (meson quietly_trans)

lemma HasExited_mono: "quietly s t \<Longrightarrow> HasExited (hnds s hid) \<Longrightarrow> HasExited (hnds t hid)"
  by (auto simp: quietly_def hnd_le_def HasExited_def)

lemma hnd_ops_quietly:
  "quietly s (exec (with_hnd hid (Handler_StopUnit (mgr_ctl env))) s)"
  "quietly s (exec (with_hnd hid (Handler_KillUnit (mgr_ctl env))) s)"
  "quietly s (exec (with_hnd hid (Handler_UnitState (mgr_ctl env))) s)"
  by (rule io_exec [OF with_hnd_quietly], rule ctl.Handler_StopUnit_steps ctl.Handler_KillUnit_steps
      ctl.Handler_UnitState_steps)+

lemma forceKillTask_killed:
  "killed env hid s (exec (forceKillTask env hid) s) (result (forceKillTask env hid) s)"
proof -
  let ?kill = "with_hnd hid (Handler_KillUnit (mgr_ctl env))"
  let ?state = "with_hnd hid (Handler_UnitState (mgr_ctl env))"
  let ?s1 = "exec ?kill s"
  have q: "quietly s ?s1" "quietly ?s1 (exec ?state ?s1)" "quietly s (exec ?state ?s1)"
    using hnd_ops_quietly quietly_trans by blast+
  show ?thesis
  proof (cases "result ?kill s")
    case None
    then have "exec (forceKillTask env hid) s = ?s1" "result (forceKillTask env hid) s = None"
      by (simp_all add: forceKillTask_def exec_bind result_bind del: run_state_bind)
    then show ?thesis
      using None q unfolding killed_def by (intro exI [of _ s]) simp
  next
    case (Some err)
    then have e: "exec (forceKillTask env hid) s = exec ?state ?s1"
      by (simp add: forceKillTask_def exec_bind del: run_state_bind)
    show ?thesis
    proof (cases "\<exists>st. result ?state ?s1 = Inr st \<and> IsTerminal st")
      case True
      then have "result (forceKillTask env hid) s = None"
        using Some by (auto simp: forceKillTask_def result_bind simp del: run_state_bind)
      then show ?thesis
        using True e q unfolding killed_def by (intro exI [of _ ?s1]) simp
    next
      case False
      then have "result (forceKillTask env hid) s = Some (Wrapf ''kill unit: %w'' [] err)"
        using Some by (auto simp: forceKillTask_def result_bind simp del: run_state_bind split: sum.split)
      then show ?thesis
        using Some e q unfolding killed_def by (intro exI [of _ s]) simp
    qed
  qed
qed

lemma awaitStop_outcome:
  assumes "sound_handler (hnds s hid)"
  shows "quietly s (exec (awaitStop env hid timeout d) s)"
    and "result (awaitStop env hid timeout d) s = Exited \<Longrightarrow> HasExited (hnds (exec (awaitStop env hid timeout d) s) hid)"
    and "result (awaitStop env hid timeout d) s = Stopped \<Longrightarrow> d = Some None"
proof -
  show q: "quietly s (exec (awaitStop env hid timeout d) s)"
    by (rule io_exec [OF awaitStop_quietly])
  let ?s1 = "exec (pollGoroutine env hid) s"
  have "quietly s ?s1"
    by (rule io_exec [OF pollGoroutine_quietly])
  then have "sound_handler (hnds ?s1 hid)"
    using assms by (auto simp: quietly_def dest: hnd_le_sound)
  then show "HasExited (hnds (exec (awaitStop env hid timeout d) s) hid)"
    if "result (awaitStop env hid timeout d) s = Exited"
    using that
    by (auto simp: awaitStop_def exec_bind result_bind sound_handler_def waitCh_closed_def
        simp del: run_state_bind split: if_splits option.splits)
  show "d = Some None" if "result (awaitStop env hid timeout d) s = Stopped"
    using that by (auto simp: awaitStop_def result_bind simp del: run_state_bind split: if_splits option.splits)
qed

text \<open>What a \<open>StopTask\<close> that returns rests on.\<close>

definition stop_justified :: "env \<Rightarrow> nat \<Rightarrow> time \<Rightarrow> sys \<Rightarrow> sys \<Rightarrow> error option \<Rightarrow> bool" where
  "stop_justified env hid timeout s t r \<longleftrightarrow> killed env hid s t r \<or>
     (r = None \<and> 0 < timeout \<and>
       (HasExited (hnds t hid) \<or>
        (\<exists>s1. quietly s s1 \<and> quietly s1 t \<and>
           result (with_hnd hid (Handler_StopUnit (mgr_ctl env))) s1 = None)))"

lemma stop_justified_mono:
  "quietly s0 s \<Longrightarrow> quietly t t1 \<Longrightarrow> stop_justified env hid timeout s t r \<Longrightarrow>
   stop_justified env hid timeout s0 t1 r"
  unfolding stop_justified_def by (meson HasExited_mono killed_mono quietly_trans)

text \<open>The body of \<open>StopTask\<close>, with the stop job finished or not.\<close>

definition stop_body :: "env \<Rightarrow> nat \<Rightarrow> time \<Rightarrow> error option option \<Rightarrow> (sys, error option) state" where
  "stop_body env hid timeout stopDone = (
     if timeout \<le> 0 then forceKillTask env hid
     else do {
       out \<leftarrow> awaitStop env hid timeout stopDone;
       case out of
         Exited \<Rightarrow> ret None
       | Stopped \<Rightarrow> ret None
       | StopFailed _ \<Rightarrow> forceKillTask env hid
       | TimedOut \<Rightarrow> forceKillTask env hid
     })"

lemma stop_body_justified:
  assumes "sound_handler (hnds s hid)" "quietly s0 s"
    "d = Some None \<Longrightarrow> \<exists>s1. quietly s0 s1 \<and> quietly s1 s \<and>
       result (with_hnd hid (Handler_StopUnit (mgr_ctl env))) s1 = None"
  shows "stop_justified env hid timeout s0 (exec (stop_body env hid timeout d) s)
    (result (stop_body env hid timeout d) s)"
proof (cases "timeout \<le> 0")
  case True
  then show ?thesis
    using killed_mono [OF assms(2) quietly_refl forceKillTask_killed]
    by (simp add: stop_body_def stop_justified_def)
next
  case False
  let ?s1 = "exec (awaitStop env hid timeout d) s"
  note aw = awaitStop_outcome [OF assms(1), of env timeout d]
  have k: "killed env hid s0 (exec (forceKillTask env hid) ?s1) (result (forceKillTask env hid) ?s1)"
    using killed_mono [OF quietly_trans [OF assms(2) aw(1)] quietly_refl forceKillTask_killed] .
  show ?thesis
  proof (cases "result (awaitStop env hid timeout d) s")
    case Exited
    then show ?thesis
      using False aw(2) by (simp add: stop_body_def stop_justified_def exec_bind result_bind del: run_state_bind)
  next
    case Stopped
    then obtain s1 where "quietly s0 s1" "quietly s1 s"
      "result (with_hnd hid (Handler_StopUnit (mgr_ctl env))) s1 = None"
      using aw(3) assms(3) by blast
    then show ?thesis
      using False Stopped quietly_trans [OF _ aw(1), of s1]
      by (auto simp: stop_body_def stop_justified_def exec_bind result_bind simp del: run_state_bind)
  qed (use False k in \<open>simp_all add: stop_body_def stop_justified_def exec_bind result_bind del: run_state_bind\<close>)
qed

lemma beside_stop_justified:
  assumes "sound_handler (hnds s hid)"
  shows "stop_justified env hid timeout s (exec (beside_stop env hid (stop_body env hid timeout)) s)
    (result (beside_stop env hid (stop_body env hid timeout)) s)"
proof -
  let ?stop = "with_hnd hid (Handler_StopUnit (mgr_ctl env))"
  have late: "stop_justified env hid timeout s (exec ?stop (exec (stop_body env hid timeout None) s))
      (result (stop_body env hid timeout None) s)"
    by (rule stop_justified_mono [OF quietly_refl hnd_ops_quietly(1)
          stop_body_justified [OF assms quietly_refl, where d = None]]) simp
  have "sound_handler (hnds (exec ?stop s) hid)"
    using assms hnd_ops_quietly(1) [of s hid env] by (auto simp: quietly_def dest: hnd_le_sound)
  then have early: "stop_justified env hid timeout s
      (exec (stop_body env hid timeout (Some (result ?stop s))) (exec ?stop s))
      (result (stop_body env hid timeout (Some (result ?stop s))) (exec ?stop s))"
    using hnd_ops_quietly(1) [of s hid env] quietly_refl by (intro stop_body_justified) blast+
  show ?thesis
    using late early by (simp add: beside_stop_def exec_bind result_bind del: run_state_bind)
qed

lemma run_StopTask:
  "run_state (StopTask env i timeout) s =
     (case Store_Get i (tasks s) of
        None \<Rightarrow> (Some ErrTaskNotFound, s)
      | Some hid \<Rightarrow> run_state (beside_stop env hid (stop_body env hid timeout)) s)"
  by (simp add: StopTask_def lookupTask_def stop_body_def [abs_def] split: option.split)

text \<open>C8: \<open>StopTask\<close> reports an unknown task with Nomad's \<open>ErrTaskNotFound\<close>. For a tracked task
  success always rests on evidence: within the timeout the handler has seen the exit or the stop job
  has completed, or else systemd has accepted the kill or says the unit is in a terminal state; the
  only error is that of a kill systemd refused. The task, the owners and the policy stay as they
  are.\<close>

theorem StopTask_outcome:
  assumes "drv_reachable env nom s" "run_state (StopTask env i timeout) s = (r, t)"
  shows "case Store_Get i (tasks s) of
      None \<Rightarrow> r = Some ErrTaskNotFound \<and> t = s
    | Some hid \<Rightarrow> stop_justified env hid timeout s t r \<and> tasks t = tasks s \<and>
        unitOwners t = unitOwners s \<and> unit_policy t = unit_policy s"
proof (cases "Store_Get i (tasks s)")
  case None
  then show ?thesis
    using assms(2) by (simp add: run_StopTask)
next
  case (Some hid)
  then have "sound_handler (hnds s hid)"
    using drv_inv_task [OF drv_inv_reachable [OF assms(1)], of i hid] by (simp add: tracked_def task_ok_def)
  then have "stop_justified env hid timeout s t r"
    using beside_stop_justified [of s hid env timeout] assms(2) Some by (simp add: run_StopTask)
  moreover have "quietly s t"
    using io_run [OF StopTask_quietly assms(2)] .
  ultimately show ?thesis
    using Some by (simp add: quietly_def same_driver_def)
qed

theorem StopTask_outcome_witness:
  "\<exists>r t. run_state (StopTask sample_env ''t1'' 1000) sample_drv1 = (r, t) \<and>
     stop_justified sample_env 0 1000 sample_drv1 t r \<and> tasks t = [(''t1'', 0)]"
proof -
  obtain r t where "run_state (StopTask sample_env ''t1'' 1000) sample_drv1 = (r, t)"
    by force
  then show ?thesis
    using StopTask_outcome [OF sample_reachable_drv1, of "''t1''" 1000 r t] by (simp add: Store_Get_def)
qed

section \<open>Destroying tasks\<close>








end
