(* ===== verification/DriverReload.thy ===== *)
theory DriverReload
  imports DriverSafety
begin

text \<open>
  The life cycle of the driver itself: what a \<open>SetConfig\<close> changes when it succeeds and when it
  fails, what a reload does to the tasks already under management, and what a shutdown releases.
\<close>

section \<open>Configuration\<close>

lemma with_pprof_keeps [simp]:
  "systemdMgr (exec (with_pprof m) s) = systemdMgr s" "unit_policy (exec (with_pprof m) s) = unit_policy s"
  by (simp_all add: with_pprof_def)

lemma newManager_keeps [simp]:
  "systemdMgr (exec (newManager env) s) = systemdMgr s" "unit_policy (exec (newManager env) s) = unit_policy s"
  by (simp_all add: newManager_def NewManager_def subscribeToPropertyChanges_def exec_bind result_bind
      del: run_state_bind split: sum.split option.split)

lemma with_mgr_keeps [simp]:
  "systemdMgr (exec (with_mgr mid m) s) = systemdMgr s" "unit_policy (exec (with_mgr mid m) s) = unit_policy s"
  by (simp_all add: exec_with_mgr put_mgr_def)

lemma installManager_policy [simp]: "unit_policy (exec (installManager mid) s) = unit_policy s"
  by (simp add: installManager_def exec_bind result_bind del: run_state_bind split: option.split)

text \<open>Which policy is in force after \<open>SetConfig\<close>, and whether it can have succeeded.\<close>

definition policy_after :: "env \<Rightarrow> nomad \<Rightarrow> base_Config \<Rightarrow> sys \<Rightarrow> (bool \<times> unitPolicy option)" where
  "policy_after env nom cfg s =
     (case decodeConfig nom cfg of
        Inl _ \<Rightarrow> (False, unit_policy s)
      | Inr config \<Rightarrow>
          (if AgentConfig cfg = None then (False, unit_policy s)
           else case compileUnitPolicy env (AllowedUnits config) (DeniedUnits config) of
               Inl _ \<Rightarrow> (False, unit_policy s)
             | Inr policy \<Rightarrow> (True, Some policy)))"

lemma SetConfig_policy:
  "unit_policy (exec (SetConfig env nom cfg) s) = snd (policy_after env nom cfg s)"
  "\<not> fst (policy_after env nom cfg s) \<Longrightarrow> result (SetConfig env nom cfg) s \<noteq> None"
  by (auto simp: SetConfig_def applyConfig_def replaceManager_def policy_after_def exec_bind result_bind simp del: run_state_bind
      split: sum.splits option.splits)

text \<open>C20: A successful \<open>SetConfig\<close> puts the decoded configuration into force: the compiled policy,
  the CPU capacity, and a new, running Manager without registrations, and it stops the Manager it
  replaces; it touches no task and no ownership. A failed one keeps the Manager, the tasks and the
  owners; a configuration that does not decode, lacks the agent's part or has an invalid pattern
  leaves the policy as it was, but a failure after that (of pprof or of systemd) is reported with
  the new policy already in force.\<close>

theorem SetConfig_outcome:
  assumes "drv_reachable env nom s" "run_state (SetConfig env nom cfg) s = (r, t)"
  shows "(case r of None \<Rightarrow> reconfigured env nom cfg s t | Some e \<Rightarrow> not_reconfigured s t) \<and>
    unit_policy t = snd (policy_after env nom cfg s) \<and>
    (\<not> fst (policy_after env nom cfg s) \<longrightarrow> r \<noteq> None)"
proof -
  have "wp (SetConfig env nom cfg) (\<lambda>r t. case r of
      None \<Rightarrow> reconfigured env nom cfg s t | Some e \<Rightarrow> not_reconfigured s t) s"
    by (rule SetConfig_wp [OF drv_inv_reachable [OF assms(1)]]) simp_all
  from wpD [OF this assms(2)] show ?thesis
    using SetConfig_policy [where env = env and nom = nom and cfg = cfg and s = s] assms(2) by simp
qed

theorem SetConfig_outcome_witness:
  "reconfigured sample_env sample_nomad sample_config New sample_drv0 \<and>
   unit_policy sample_drv0 = snd (policy_after sample_env sample_nomad sample_config New)"
  using SetConfig_outcome [OF idle_reachable [OF idle_New] sample_SetConfig] by simp

section \<open>Tasks across a reload\<close>

text \<open>
  The documented behaviour of the D-Bus client that the next theorem needs: a connection that has
  been closed does not report itself connected again.
\<close>

definition closing_is_final :: "env \<Rightarrow> bool" where
  "closing_is_final env \<longleftrightarrow> (\<forall>h k. CloseConn k \<in> set h \<longrightarrow> \<not> e_connected env h k)"

text \<open>A Manager whose connection, if it has one, has been closed.\<close>

definition severed :: "mstate \<Rightarrow> bool" where
  "severed u \<longleftrightarrow> (\<forall>k. conn (mgr u) = Some k \<longrightarrow> CloseConn k \<in> set (hist u))"

abbreviation no_connection :: error where
  "no_connection \<equiv> NewError ''no systemd dbus connection available''"

lemma severed_getConn:
  assumes "closing_is_final env" "severed u"
  shows "result (getConn env) u = Inl no_connection \<and> severed (exec (getConn env) u)"
  using assms by (auto simp: run_getConn severed_def closing_is_final_def split: option.split)

lemma severed_wakeUnit: "severed u \<Longrightarrow> severed (exec (wakeUnit unit) u)"
  by (auto simp: wakeUnit_def severed_def exec_bind result_bind simp del: run_state_bind split: option.split)

lemma severed_ops:
  assumes "closing_is_final env" "severed u"
  shows "result (StopUnit env ctx unit) u = Some no_connection" "severed (exec (StopUnit env ctx unit) u)"
    "result (KillUnit env ctx unit) u = Some no_connection" "severed (exec (KillUnit env ctx unit) u)"
    "result (UnitState env ctx unit) u = Inl no_connection" "severed (exec (UnitState env ctx unit) u)"
  using severed_getConn [OF assms] severed_wakeUnit
  by (simp_all add: StopUnit_def KillUnit_def UnitState_def exec_bind result_bind del: run_state_bind)

lemma severed_Manager_Stop: "severed (exec Manager_Stop u)"
proof -
  have "\<exists>v. exec Manager_Stop u = exec (case conn (mgr v) of
      None \<Rightarrow> ret () | Some k \<Rightarrow> outcall (CloseConn k) (\<lambda>_. ())) v"
    by (auto simp: Manager_Stop_def exec_bind result_bind simp del: run_state_bind)
  then obtain v where "exec Manager_Stop u = exec (case conn (mgr v) of
      None \<Rightarrow> ret () | Some k \<Rightarrow> outcall (CloseConn k) (\<lambda>_. ())) v" ..
  then show ?thesis
    by (auto simp: severed_def split: option.splits)
qed

lemma SetConfig_installs:
  assumes "run_state (SetConfig env nom cfg) s = (None, t)"
  obtains mid s1 where "t = exec (installManager mid) s1" "systemdMgr s1 = systemdMgr s"
  using assms
  by (auto simp: SetConfig_def applyConfig_def replaceManager_def run_eq exec_bind result_bind simp del: run_state_bind
      split: sum.splits option.splits)

lemma SetConfig_severs:
  assumes "run_state (SetConfig env nom cfg) s = (None, t)" "systemdMgr s = Some old"
  shows "severed (get_mgr old t)"
proof -
  obtain mid s1 where t: "t = exec (installManager mid) s1" "systemdMgr s1 = systemdMgr s"
    using SetConfig_installs [OF assms(1)] .
  then obtain v where "t = exec (with_mgr old Manager_Stop) v"
    using assms(2) by (auto simp: installManager_def exec_bind result_bind simp del: run_state_bind)
  then have "get_mgr old t = exec Manager_Stop (get_mgr old v)"
    by (simp add: exec_with_mgr put_mgr_def get_mgr_def)
  then show ?thesis
    by (simp add: severed_Manager_Stop)
qed

text \<open>A task whose handler still has the severed Manager, and what no operation gets it out of.\<close>

definition stranded :: "nat \<Rightarrow> sys \<Rightarrow> bool" where
  "stranded hid s \<longleftrightarrow> severed (get_mgr (th_units (hnds s hid)) s) \<and>
     sound_handler (hnds s hid) \<and> \<not> HasExited (hnds s hid)"

abbreviation keeps_stranded :: "nat \<Rightarrow> sys \<Rightarrow> sys \<Rightarrow> bool" where
  "keeps_stranded hid s t \<equiv> stranded hid s \<longrightarrow> stranded hid t"

lemma stranded_with_hnd:
  assumes "\<And>h. severed (ctrl h) \<Longrightarrow> \<not> HasExited (hnd h) \<Longrightarrow>
    hnd (exec m h) = hnd h \<and> severed (ctrl (exec m h))"
  shows "state_io_rel (keeps_stranded hid) (with_hnd hid m)"
proof -
  have "stranded hid (put_hnd hid t s)"
    if "hnd t = hnds s hid \<and> severed (ctrl t)" "stranded hid s" for s t
    using that by (simp add: stranded_def severed_def put_hnd_def put_mgr_def get_mgr_def)
  then show ?thesis
    using assms by (simp add: state_io_rel_def with_hnd_def get_hnd_def stranded_def)
qed

lemma result_with_hnd: "result (with_hnd hid m) s = result m (get_hnd hid s)"
  by (simp add: with_hnd_def)

lemma hstate_ops:
  assumes final: "closing_is_final env" and h: "severed (ctrl h)"
  shows "hnd (exec (Handler_StopUnit (mgr_ctl env)) h) = hnd h \<and> severed (ctrl (exec (Handler_StopUnit (mgr_ctl env)) h))"
    "hnd (exec (Handler_KillUnit (mgr_ctl env)) h) = hnd h \<and> severed (ctrl (exec (Handler_KillUnit (mgr_ctl env)) h))"
    "hnd (exec (Handler_UnitState (mgr_ctl env)) h) = hnd h \<and> severed (ctrl (exec (Handler_UnitState (mgr_ctl env)) h))"
    "result (Handler_StopUnit (mgr_ctl env)) h = Some no_connection"
    "result (Handler_KillUnit (mgr_ctl env)) h = Some no_connection"
    "result (Handler_UnitState (mgr_ctl env)) h = Inl no_connection"
  using severed_ops [OF final h]
  by (simp_all add: Handler_StopUnit_def Handler_KillUnit_def Handler_UnitState_def mgr_ctl_def)

lemma hstate_poll:
  assumes final: "closing_is_final env"
  shows "severed (ctrl h) \<Longrightarrow> \<not> HasExited (hnd h) \<Longrightarrow>
   hnd (exec (pollLoop (mgr_ctl env) evs) h) = hnd h \<and> severed (ctrl (exec (pollLoop (mgr_ctl env) evs) h))"
proof (induction evs arbitrary: h)
  case (Cons e evs)
  let ?h = "exec (Handler_UnitState (mgr_ctl env)) h"
  note ops = hstate_ops(3,6) [OF final Cons.prems(1)]
  have c: "result (checkTaskState (mgr_ctl env)) h = False" "exec (checkTaskState (mgr_ctl env)) h = ?h"
    using Cons.prems ops by (simp_all add: checkTaskState_def exec_bind result_bind del: run_state_bind)
  have "severed (ctrl ?h)" "\<not> HasExited (hnd ?h)" "hnd ?h = hnd h"
    using ops Cons.prems(2) by auto
  from Cons.IH [OF this(1,2)] this(3) show ?case
    using Cons.prems by (cases e) (simp_all add: exec_bind c del: run_state_bind)
qed simp

lemma stranded_ops:
  assumes "closing_is_final env"
  shows "state_io_rel (keeps_stranded hid) (with_hnd hid (Handler_StopUnit (mgr_ctl env)))"
    and "state_io_rel (keeps_stranded hid) (with_hnd hid (Handler_KillUnit (mgr_ctl env)))"
    and "state_io_rel (keeps_stranded hid) (with_hnd hid (Handler_UnitState (mgr_ctl env)))"
    and "state_io_rel (keeps_stranded hid) (with_hnd hid (pollLoop (mgr_ctl env) evs))"
  by (rule stranded_with_hnd, (rule hstate_ops hstate_poll; (rule assms | assumption)))+

lemma strandedD: "state_io_rel (keeps_stranded hid) m \<Longrightarrow> stranded hid s \<Longrightarrow> stranded hid (exec m s)"
  by (drule io_exec) blast

lemma stranded_outcall: "state_io_rel (keeps_stranded hid) (outcall c f)"
  by (auto simp: state_io_rel_def stranded_def severed_def get_mgr_def)

lemmas stranded_rules = io_rules preorder_rel_imp stranded_ops stranded_outcall

lemma stranded_ctrl: "stranded hid s \<Longrightarrow> severed (ctrl (get_hnd hid s))"
  by (simp add: stranded_def get_hnd_def)

lemma stranded_forceKill:
  assumes "closing_is_final env" "stranded hid s"
  shows "result (forceKillTask env hid) s = Some (Wrapf ''kill unit: %w'' [] no_connection)"
    and "stranded hid (exec (forceKillTask env hid) s)"
proof -
  note s = stranded_ctrl [OF assms(2)] and t = stranded_ctrl [OF strandedD [OF stranded_ops(2) [OF assms(1)] assms(2)]]
  show "result (forceKillTask env hid) s = Some (Wrapf ''kill unit: %w'' [] no_connection)"
    using hstate_ops(5) [OF assms(1) s] hstate_ops(6) [OF assms(1) t]
    by (simp add: forceKillTask_def result_bind result_with_hnd del: run_state_bind)
  show "stranded hid (exec (forceKillTask env hid) s)"
    unfolding forceKillTask_def by (rule strandedD [OF _ assms(2)]) (intro stranded_rules assms(1))
qed

lemma stranded_await:
  assumes "closing_is_final env" "stranded hid s" "d \<noteq> Some None"
  shows "stranded hid (exec (awaitStop env hid timeout d) s)"
    "result (awaitStop env hid timeout d) s \<noteq> Exited" "result (awaitStop env hid timeout d) s \<noteq> Stopped"
proof -
  show t: "stranded hid (exec (awaitStop env hid timeout d) s)"
    unfolding awaitStop_def pollGoroutine_def
    by (rule strandedD [OF _ assms(2)]) (intro stranded_rules assms(1))
  show "result (awaitStop env hid timeout d) s \<noteq> Exited" "result (awaitStop env hid timeout d) s \<noteq> Stopped"
    using t assms(2,3) awaitStop_outcome(2,3) [of s hid env timeout d] by (auto simp: stranded_def)
qed

lemma stranded_stop_body:
  assumes "closing_is_final env" "stranded hid s" "d \<noteq> Some None"
  shows "result (stop_body env hid timeout d) s = Some (Wrapf ''kill unit: %w'' [] no_connection)"
    "stranded hid (exec (stop_body env hid timeout d) s)"
proof -
  note aw = stranded_await [OF assms, of timeout]
  note k = stranded_forceKill [OF assms(1,2)] stranded_forceKill [OF assms(1) aw(1)]
  show "result (stop_body env hid timeout d) s = Some (Wrapf ''kill unit: %w'' [] no_connection)"
    using aw(2,3) k by (cases "result (awaitStop env hid timeout d) s")
      (simp_all add: stop_body_def result_bind del: run_state_bind)
  show "stranded hid (exec (stop_body env hid timeout d) s)"
    using aw(2,3) k by (cases "result (awaitStop env hid timeout d) s")
      (simp_all add: stop_body_def exec_bind del: run_state_bind)
qed

lemma stranded_beside_stop:
  assumes "closing_is_final env" "stranded hid s"
  shows "result (beside_stop env hid (stop_body env hid timeout)) s =
      Some (Wrapf ''kill unit: %w'' [] no_connection)"
    "stranded hid (exec (beside_stop env hid (stop_body env hid timeout)) s)"
proof -
  note stop = strandedD [OF stranded_ops(1) [OF assms(1)]]
  note body = stranded_stop_body [OF assms, of None timeout]
    stranded_stop_body [OF assms(1) stop [OF assms(2)], of "Some (Some no_connection)" timeout]
  show "result (beside_stop env hid (stop_body env hid timeout)) s =
      Some (Wrapf ''kill unit: %w'' [] no_connection)"
    "stranded hid (exec (beside_stop env hid (stop_body env hid timeout)) s)"
    using body stop [OF body(2)] hstate_ops(4) [OF assms(1) stranded_ctrl [OF assms(2)]]
    by (simp_all add: beside_stop_def exec_bind result_bind result_with_hnd del: run_state_bind)
qed

text \<open>C21: A reload strands the tasks already running. Their handlers keep the Manager they were
  created with, which \<open>SetConfig\<close> has just stopped: from then on \<open>StopTask\<close> of such a task fails
  with \<open>no systemd dbus connection available\<close>, whatever state its unit is in, although the new
  Manager has a connection, and the task never exits in its handler's eyes.\<close>

theorem reload_strands_tasks:
  assumes "closing_is_final env" "drv_reachable env nom s" "tracked s i hid" "\<not> HasExited (hnds s hid)"
    and "systemdMgr s = Some (th_units (hnds s hid))"
    and "run_state (SetConfig env nom cfg) s = (None, t)" "run_state (StopTask env i timeout) t = (r, v)"
  shows "r = Some (Wrapf ''kill unit: %w'' [] no_connection) \<and> tracked v i hid \<and>
    systemdMgr v \<noteq> Some (th_units (hnds v hid)) \<and> \<not> HasExited (hnds v hid)"
proof -
  have inv: "drv_inv s"
    using drv_inv_reachable [OF assms(2)] .
  then have old: "th_units (hnds s hid) < next_mgr s" and sound: "sound_handler (hnds s hid)"
    using drv_inv_task [OF inv assms(3)] by (auto simp: task_ok_def)
  have "wp (SetConfig env nom cfg) (\<lambda>r t. r = None \<longrightarrow> reconfigured env nom cfg s t) s"
    by (rule SetConfig_wp [OF inv]) simp_all
  from wpD [OF this assms(6)] have t: "tasks t = tasks s" "hnds t = hnds s" "systemdMgr t = Some (next_mgr s)"
    by (auto simp: reconfigured_def)
  have "stranded hid t"
    using SetConfig_severs [OF assms(6,5)] sound assms(4) t
    by (simp add: stranded_def)
  from stranded_beside_stop [OF assms(1) this, of timeout]
  have r: "r = Some (Wrapf ''kill unit: %w'' [] no_connection)" "stranded hid v"
    using assms(3,7) t by (simp_all add: run_StopTask tracked_def)
  have "quietly t v"
    using io_run [OF StopTask_quietly assms(7)] .
  then show ?thesis
    using r assms(3) t old
    by (auto simp: quietly_def same_driver_def tracked_def stranded_def hnd_le_def same_task_def)
qed

lemma sample_closing: "closing_is_final sample_env"
  by (simp add: closing_is_final_def)

lemma sample_reload:
  "d_pprof s = None \<Longrightarrow> run_state (SetConfig sample_env sample_nomad sample_config) s =
     (None, exec (SetConfig sample_env sample_nomad sample_config) s)"
  by (simp add: SetConfig_def applyConfig_def replaceManager_def sample_config_def decodeConfig_def compileUnitPolicy_def newManager_def
      NewManager_def subscribeToPropertyChanges_def with_pprof_def configurePprof_def dropPprof_def run_eq exec_bind
      result_bind del: run_state_bind)

theorem reload_strands_tasks_witness:
  "result (StopTask sample_env ''t1'' 1000)
     (exec (SetConfig sample_env sample_nomad sample_config) sample_drv1) \<noteq> None"
proof -
  have "d_pprof sample_drv1 = None"
    by (simp add: sample_drv1_def sample_drv0_def New_def)
  from reload_strands_tasks [OF sample_closing sample_reachable_drv1 sample_tracked _ _
      sample_reload [OF this] surjective_pairing, where timeout = 1000]
  show ?thesis
    by simp
qed

section \<open>Shutdown\<close>

text \<open>A call that does not act on a unit.\<close>

fun leaves_units :: "call \<Rightarrow> bool" where
  "leaves_units (StartUnitContext _ _ _ _) = False"
| "leaves_units (StopUnitContext _ _ _ _) = False"
| "leaves_units (KillUnitWithTarget _ _ _ _ _) = False"
| "leaves_units _ = True"

lemma leaves_Manager_Stop: "calls leaves_units Manager_Stop"
  unfolding Manager_Stop_def waitLoops_def waitJournal_def cancelReader_def finishReader_def
  by (intro calls_rules) simp_all

lemma leaves_dropPprof: "calls leaves_units dropPprof"
  unfolding dropPprof_def stop_def set_pprof_def by (intro calls_rules calls_modify) simp_all

lemma exec_upd_handler: "exec (upd_handler hid f) s = s\<lparr>hnds := (hnds s)(hid := f (hnds s hid))\<rparr>"
  by (simp add: upd_handler_def)

lemma stop_handlers_hnds:
  "hnds (exec (for_each (\<lambda>hid. upd_handler hid Handler_Stop) hs) s) x =
     (if x \<in> set hs then Handler_Stop (hnds s x) else hnds s x)"
proof (induction hs arbitrary: s)
  case (Cons h hs)
  have "Handler_Stop (Handler_Stop y) = Handler_Stop y" for y
    by (simp add: Handler_Stop_def)
  then show ?case
    by (simp add: exec_bind Cons.IH exec_upd_handler del: run_state_bind)
qed simp

lemma stop_handlers_frame:
  "hist (exec (for_each (\<lambda>hid. upd_handler hid Handler_Stop) hs) s) = hist s"
  "unitOwners (exec (for_each (\<lambda>hid. upd_handler hid Handler_Stop) hs) s) = unitOwners s"
  "systemdMgr (exec (for_each (\<lambda>hid. upd_handler hid Handler_Stop) hs) s) = systemdMgr s"
  by (induction hs arbitrary: s) (simp_all add: exec_bind exec_upd_handler del: run_state_bind)

lemma stopHandlers_stops:
  "tracked s i hid \<Longrightarrow> th_canceled (hnds (exec stopHandlers s) hid) \<and> th_wg (hnds (exec stopHandlers s) hid) = 0"
  "hist (exec stopHandlers s) = hist s" "unitOwners (exec stopHandlers s) = unitOwners s"
  "systemdMgr (exec stopHandlers s) = systemdMgr s"
proof -
  have "hid \<in> set (fst (Store_Drain (tasks s)))" if "tracked s i hid"
    using that by (force simp: tracked_def Store_Get_def Store_Drain_def dest: map_of_SomeD)
  then show "tracked s i hid \<Longrightarrow> th_canceled (hnds (exec stopHandlers s) hid) \<and> th_wg (hnds (exec stopHandlers s) hid) = 0"
    by (simp add: stopHandlers_def exec_bind result_bind stop_handlers_hnds Handler_Stop_def del: run_state_bind)
qed (simp_all add: stopHandlers_def exec_bind result_bind stop_handlers_frame del: run_state_bind)

lemma stopManager_frame:
  "hnds (exec stopManager s) = hnds s" "unitOwners (exec stopManager s) = unitOwners s"
  "extends leaves_units s (exec stopManager s)"
proof -
  have "extends leaves_units s (exec (with_mgr mid Manager_Stop) s)" for mid
    using callsD [OF leaves_Manager_Stop, of "get_mgr mid s"]
    by (simp add: exec_with_mgr put_mgr_def extends_def get_mgr_def)
  then show "extends leaves_units s (exec stopManager s)"
    by (auto simp: stopManager_def exec_bind extends_def simp del: run_state_bind split: option.split)
qed (auto simp: stopManager_def exec_bind exec_with_mgr put_mgr_def simp del: run_state_bind split: option.split)

lemma stopPprof_frame:
  "hnds (exec stopPprof s) = hnds s" "unitOwners (exec stopPprof s) = unitOwners s"
  "tasks (exec stopPprof s) = tasks s" "mgrs (exec stopPprof s) = mgrs s"
  "d_pprof (exec stopPprof s) = None" "extends leaves_units s (exec stopPprof s)"
  "drv_inv s \<Longrightarrow> list_all stopped (d_servers (exec stopPprof s))"
proof -
  let ?p = "\<lparr>hist = hist s, servers = d_servers s, pprof = d_pprof s\<rparr>"
  show "extends leaves_units s (exec stopPprof s)"
    using callsD [OF leaves_dropPprof, of ?p] by (simp add: stopPprof_def with_pprof_def extends_def)
  show "d_pprof (exec stopPprof s) = None"
    by (simp add: stopPprof_def with_pprof_def run_dropPprof)
  show "list_all stopped (d_servers (exec stopPprof s))" if "drv_inv s"
    using pprof_ok_dropped [of ?p] drv_inv_pprof [OF that]
    by (simp add: stopPprof_def with_pprof_def run_dropPprof pprof_ok_None)
qed (simp_all add: stopPprof_def with_pprof_def)

text \<open>C25: A shutdown that is not cut short by its timeout leaves nothing running: every handler's
  goroutines and every goroutine of the Manager have returned, no task is stored and every
  pprof server ever made is stopped; the driver's context is cancelled in every case. It acts on no unit: no start,
  stop or kill is sent to systemd, so the units outlive the plugin.\<close>

theorem Shutdown_releases:
  assumes "drv_reachable env nom s" "3 \<le> stages"
  defines "t \<equiv> exec (Shutdown stages) s"
  shows "tasks t = [] \<and> d_pprof t = None \<and> list_all stopped (d_servers t) \<and> d_done t \<and> unitOwners t = unitOwners s \<and>
    (\<forall>i hid. tracked s i hid \<longrightarrow> th_canceled (hnds t hid) \<and> th_wg (hnds t hid) = 0) \<and>
    (\<forall>mid. systemdMgr s = Some mid \<longrightarrow> quiet (mgrs t mid)) \<and>
    extends leaves_units s t"
proof -
  let ?s1 = "exec stopHandlers s" and ?s2 = "exec stopManager (exec stopHandlers s)"
  note inv1 = stopHandlers_inv [OF drv_inv_reachable [OF assms(1)]]
  have inv2: "drv_inv ?s2" "tasks ?s2 = []" "\<forall>mid. systemdMgr ?s1 = Some mid \<longrightarrow> quiet (mgrs ?s2 mid)"
    using stopManager_inv [of ?s1] inv1 by auto
  have "t = signalShutdown (exec stopPprof ?s2)"
    using assms(2) by (simp add: t_def Shutdown_stages)
  moreover have "extends leaves_units ?s1 (exec stopPprof ?s2)"
    using stopManager_frame(3) [of ?s1] stopPprof_frame(6) [of ?s2] by (auto simp: extends_def)
  ultimately show ?thesis
    using inv2 stopHandlers_stops [of s] by (auto simp: stopPprof_frame stopManager_frame extends_def)
qed

theorem Shutdown_releases_witness:
  "tasks (exec (Shutdown 3) sample_drv1) = [] \<and> quiet (mgrs (exec (Shutdown 3) sample_drv1) 0) \<and>
   th_wg (hnds (exec (Shutdown 3) sample_drv1) 0) = 0"
  using Shutdown_releases [OF sample_reachable_drv1, of 3] sample_tracked by auto

end
