(* ===== verification/DriverObserve.thy ===== *)
theory DriverObserve
  imports DriverReload CgroupProps
begin

text \<open>
  What Nomad observes of a task: the exit of a task, once a waiter can see it, stays what it is
  through every later step of the driver; the errors for unknown tasks; the stream of resource
  samples; the fingerprint.
\<close>

section \<open>Handlers across steps\<close>

text \<open>The handlers that exist only move forward.\<close>

definition forward :: "nat \<Rightarrow> sys \<Rightarrow> sys \<Rightarrow> bool" where
  "forward n s t \<longleftrightarrow> n \<le> next_hnd s \<longrightarrow>
     n \<le> next_hnd t \<and> (\<forall>hid < n. hnd_le (hnds s hid) (hnds t hid))"

lemma forward_pre: "preorder_rel (forward n)"
  by (rule preorder_relI) (auto simp: forward_def intro: hnd_le_trans)

lemma forward_quietly: "state_io_rel quietly m \<Longrightarrow> state_io_rel (forward n) m"
  by (auto simp: state_io_rel_def quietly_def same_driver_def forward_def)

lemma forward_same: "(\<And>s. hnds (exec m s) = hnds s \<and> next_hnd (exec m s) = next_hnd s) \<Longrightarrow> state_io_rel (forward n) m"
  by (simp add: state_io_rel_def forward_def)

lemma forward_with_mgr: "state_io_rel (forward n) (with_mgr mid m)"
  by (rule forward_same) (simp add: exec_with_mgr put_mgr_def)

lemma forward_plain:
  "state_io_rel (forward n) (claim u i)" "state_io_rel (forward n) (release u)"
  "state_io_rel (forward n) (set_task i hid)" "state_io_rel (forward n) (with_pprof p)"
  "state_io_rel (forward n) (newManager env)" "state_io_rel (forward n) (outcall c f)"
  "state_io_rel (forward n) (now env)" "state_io_rel (forward n) (lookupTask i)"
  "state_io_rel (forward n) getManager" "state_io_rel (forward n) (pprofGoroutine q)"
  by (rule forward_same; simp add: claim_def release_def set_task_def with_pprof_def newManager_def
      NewManager_def subscribeToPropertyChanges_def exec_bind result_bind now_def lookupTask_def getManager_def pprofGoroutine_def
      del: run_state_bind split: sum.split option.split)+

lemma forward_modify: "(\<And>s. hnds (f s) = hnds s \<and> next_hnd (f s) = next_hnd s) \<Longrightarrow> state_io_rel (forward n) (modify f)"
  by (rule forward_same) simp

lemma forward_new: "state_io_rel (forward n) (newTaskHandler env i u handle mid st)"
proof -
  have "wp (newTaskHandler env i u handle mid st) (\<lambda>_ t. forward n s t) s" for s
    by (rule newTaskHandler_wp) (auto simp: allocates_def forward_def)
  then show ?thesis
    by (simp add: state_io_rel_def wp_def)
qed

lemma forward_Start: "state_io_rel (forward n) (with_hnd hid (Handler_Start (mgr_ctl env)))"
  by (rule forward_quietly) (intro quietly_rules)

lemmas forward_rules = io_rules forward_pre forward_with_mgr forward_plain forward_new forward_Start

lemma forward_attach:
  "state_io_rel (forward n) (attachTask env mid cfg u handle st)"
  "state_io_rel (forward n) (attachRecovered env mid i u handle st)"
proof -
  have "forward n s (t\<lparr>tasks := Store_Set i (next_hnd s) (tasks t)\<rparr>)" if "attaching (next_hnd s) s t" for s t i
    using that by (auto simp: forward_def attaching_def)
  then have "wp (attachTask env mid cfg u handle st) (\<lambda>_. forward n s) s"
    "wp (attachRecovered env mid i u handle st) (\<lambda>_. forward n s) s" for s
    by (intro attachTask_wp attachRecovered_wp; blast)+
  then show "state_io_rel (forward n) (attachTask env mid cfg u handle st)"
    "state_io_rel (forward n) (attachRecovered env mid i u handle st)"
    by (simp_all add: state_io_rel_def wp_def)
qed

lemma forward_forgetTask: "state_io_rel (forward n) (forgetTask i u)"
  unfolding forgetTask_def by (intro forward_rules forward_modify) simp_all

lemma forward_rpcNext: "state_io_rel (forward n) (rpcNext env nom f)"
proof (cases f)
  case (StartRollBack u mid err)
  then show ?thesis
    by (auto intro!: forward_rules forward_quietly [OF rollBack_quietly])
next
  case (DestroyStop i hid u)
  then show ?thesis
    by (auto intro!: forward_rules forward_quietly [OF stopForDestroy_quietly])
next
  case (DestroyDetach i hid u)
  then show ?thesis
    by (auto intro!: forward_rules forward_quietly [OF Handler_Stop_quietly])
qed (auto intro!: forward_rules forward_attach forward_forgetTask split: sum.split)

lemma forward_rpcBegin: "state_io_rel (forward n) (rpcBegin env nom r)"
  by (cases r) (auto simp: startChecks_def recoverChecks_def intro!: forward_rules split: sum.split)

lemma forward_SetConfig: "state_io_rel (forward n) (SetConfig env nom cfg)"
  unfolding SetConfig_def applyConfig_def replaceManager_def installManager_def
  by (intro forward_rules forward_modify) simp_all

lemma forward_Shutdown: "state_io_rel (forward n) (Shutdown stages)"
proof -
  have "state_io_rel (forward n) stopHandlers" "state_io_rel (forward n) stopManager" "state_io_rel (forward n) stopPprof"
    unfolding stopHandlers_def stopManager_def stopPprof_def
    by (intro forward_rules forward_modify forward_quietly [OF Handler_Stop_quietly]; simp)+
  then have "state_io_rel (forward n) (for_each (\<lambda>m. m) (take stages [stopHandlers, stopManager, stopPprof]))"
    by (auto simp: take_Cons io_bind io_ret forward_pre split: nat.split)
  then show ?thesis
    unfolding Shutdown_def by (intro io_bind forward_pre forward_modify) simp_all
qed

lemma step_forward: "drv_step env nom x y \<Longrightarrow> forward n (snd x) (snd y)"
proof (induction rule: drv_step.induct)
  case (rpc_Shutdown F s stages)
  then show ?case
    using io_exec [OF forward_Shutdown] by simp
qed (simp_all add: io_exec [OF forward_rpcBegin] io_exec [OF forward_rpcNext] io_exec [OF forward_SetConfig]
    io_exec [OF forward_with_mgr] io_exec [OF forward_quietly] io_exec [OF forward_plain(10)] background_quietly)

section \<open>Waiting for a task\<close>

lemma steps_forward: "(drv_step env nom)\<^sup>*\<^sup>* x y \<Longrightarrow> forward n (snd x) (snd y)"
proof (induction rule: rtranclp_induct)
  case base
  then show ?case
    by (simp add: forward_def)
next
  case (step t v)
  then show ?case
    using forward_pre [of n] step_forward by (meson preorder_rel_def transpD)
qed

lemma waitGoroutine_sound:
  "sound_handler h \<Longrightarrow> waitGoroutine False h =
     (case th_exitResult h of Some r \<Rightarrow> WaitSent r | None \<Rightarrow> WaitBlocked)"
  by (auto simp: waitGoroutine_def sound_handler_def waitCh_closed_def TaskStatus_def split: option.splits)

text \<open>An exit that a handler holds is what its waiters and its status show ever after.\<close>

lemma exit_stays:
  assumes "hid < next_hnd s" "sound_handler (hnds s hid)" "th_exitResult (hnds s hid) = Some r"
    and "(drv_step env nom)\<^sup>*\<^sup>* (F, s) (G, t)"
  shows "waitGoroutine False (hnds t hid) = WaitSent r \<and> ts_State (TaskStatus (hnds t hid)) = TaskStateExited \<and>
    ts_ExitResult (TaskStatus (hnds t hid)) = Some r"
proof -
  have le: "hnd_le (hnds s hid) (hnds t hid)"
    using steps_forward [OF assms(4), of "Suc hid"] assms(1) by (auto simp: forward_def)
  then have "th_exitResult (hnds t hid) = Some r" "th_state (hnds t hid) = TaskStateExited"
    using assms(2,3) by (auto simp: hnd_le_def HasExited_def sound_handler_def)
  then show ?thesis
    using hnd_le_sound [OF le assms(2)] by (simp add: waitGoroutine_sound TaskStatus_def)
qed

text \<open>C11: All waiters of a task learn the same exit. Once \<open>WaitTask\<close>'s goroutine can deliver a
  result for a handler it took from the store, every waiter on that handler, at any later time and
  whatever RPCs, reloads, polls and restarts of the unit happen in between, is delivered exactly
  that result, and the task's status shows it: a Nomad task cannot revive.\<close>

theorem waiters_agree:
  assumes "drv_reachable env nom s" "tracked s i hid" "(drv_step env nom)\<^sup>*\<^sup>* (F, s) (G, t)" "(drv_step env nom)\<^sup>*\<^sup>* (G, t) (H, v)"
    and "waitGoroutine False (hnds t hid) = WaitSent r"
  shows "waitGoroutine False (hnds v hid) = WaitSent r \<and> ts_State (TaskStatus (hnds v hid)) = TaskStateExited \<and>
    ts_ExitResult (TaskStatus (hnds v hid)) = Some r"
proof -
  have s: "hid < next_hnd s" "sound_handler (hnds s hid)"
    using drv_inv_task [OF drv_inv_reachable [OF assms(1)] assms(2)] by (auto simp: task_ok_def)
  then have t: "hid < next_hnd t" "hnd_le (hnds s hid) (hnds t hid)"
    using steps_forward [OF assms(3), of "Suc hid"] by (auto simp: forward_def)
  then have "sound_handler (hnds t hid)"
    using s(2) by (auto dest: hnd_le_sound)
  moreover from this have "th_exitResult (hnds t hid) = Some r"
    using assms(5) by (auto simp: waitGoroutine_sound split: option.splits)
  ultimately show ?thesis
    using exit_stays [OF t(1) _ _ assms(4)] by blast
qed

text \<open>A world in which the unit has stopped, and the task recovered in it.\<close>

definition stopped_env :: env where
  "stopped_env = sample_env\<lparr>e_get_property := (\<lambda>_ _ _ p. Inr (if p = ''ActiveState'' then VString ''inactive'' else VUint64 1000))\<rparr>"

lemma stopped_env_simps [simp]:
  "e_dial stopped_env h = Inr (length h)" "e_subscribe stopped_env h k = None"
  "e_connected stopped_env h k = (CloseConn k \<notin> set h)"
  "e_get_property stopped_env h k u p = Inr (if p = ''ActiveState'' then VString ''inactive'' else VUint64 1000)"
  by (simp_all add: stopped_env_def)

definition stopped_drv :: sys where
  "stopped_drv = exec (RecoverTask stopped_env sample_nomad sample_handle) sample_drv0"

lemma stopped_SetConfig:
  "run_state (SetConfig stopped_env sample_nomad sample_config) New = (None, sample_drv0)"
  by (simp add: SetConfig_eval)

lemma stopped_idle0: "drv_idle stopped_env sample_nomad sample_drv0"
  using idle_SetConfig [OF idle_New, where env = stopped_env and nom = sample_nomad and cfg = sample_config]
    stopped_SetConfig by simp

lemma stopped_RecoverTask:
  "run_state (RecoverTask stopped_env sample_nomad sample_handle) sample_drv0 = (None, stopped_drv)"
proof -
  have "result (RecoverTask stopped_env sample_nomad sample_handle) sample_drv0 = None"
    by (simp add: RecoverTask_eval del: run_state_bind)
  then show ?thesis
    by (simp add: prod_eq_iff stopped_drv_def)
qed

lemma stopped_reachable: "drv_reachable stopped_env sample_nomad stopped_drv"
  using idle_reachable [OF idle_rpc [OF stopped_idle0, where r = "RpcRecover sample_handle"]]
  by (simp add: stopped_drv_def exec_bind del: run_state_bind)

lemma stopped_tracked: "tracked stopped_drv ''t1'' 0" "HasExited (hnds stopped_drv 0)"
proof -
  have "recovered stopped_env sample_nomad sample_handle sample_drv0 stopped_drv"
    by (rule RecoverTask_sound [OF idle_reachable [OF stopped_idle0] stopped_RecoverTask]) (simp add: Store_Get_def)
  moreover have "result (UnitState stopped_env DriverCtx ''a.service'') (get_mgr 0 sample_drv0) = Inr ''inactive''"
    by (simp add: UnitState_def run_getConn ParseUnitState_def get_mgr_def sample_drv0_def sample_mgr_def)
  ultimately show "tracked stopped_drv ''t1'' 0" "HasExited (hnds stopped_drv 0)"
    by (auto simp: recovered_def now_tracked_def tracked_def ts.get_put HasExited_def Let_def sample_nomad_def
        IsTerminal_def unit_state_defs)
qed

theorem waiters_agree_witness:
  "\<exists>r. waitGoroutine False (hnds stopped_drv 0) = WaitSent r \<and>
     ts_ExitResult (TaskStatus (hnds stopped_drv 0)) = Some r"
proof -
  have "sound_handler (hnds stopped_drv 0)"
    using drv_inv_task [OF drv_inv_reachable [OF stopped_reachable] stopped_tracked(1)] by (simp add: task_ok_def)
  then obtain r where r: "waitGoroutine False (hnds stopped_drv 0) = WaitSent r"
    using stopped_tracked(2) by (auto simp: waitGoroutine_sound sound_handler_def)
  show ?thesis
    using waiters_agree [OF stopped_reachable stopped_tracked(1) rtranclp.rtrancl_refl rtranclp.rtrancl_refl r] r
    by blast
qed

section \<open>The status of a task\<close>

text \<open>C28: What an RPC about a task sees. For an ID that is not in the store, \<open>InspectTask\<close>,
  \<open>WaitTask\<close>, \<open>TaskStats\<close>, \<open>StopTask\<close> and \<open>DestroyTask\<close> all answer Nomad's \<open>ErrTaskNotFound\<close>.
  For a stored task the snapshot \<open>InspectTask\<close> returns names the task and its unit and is
  consistent: it is in the state exited exactly if it has an exit result, exactly if it has a
  completion time, and exactly then \<open>WaitTask\<close>'s goroutine can deliver, and delivers that result:
  its zero fallback is never sent.\<close>

theorem task_status_consistent:
  assumes "drv_reachable env nom s"
  shows "case Store_Get i (tasks s) of
      None \<Rightarrow> result (InspectTask i) s = Inl ErrTaskNotFound \<and> result (WaitTask i) s = Inl ErrTaskNotFound \<and>
        result (TaskStats i) s = Inl ErrTaskNotFound \<and> result (StopTask env i timeout) s = Some ErrTaskNotFound \<and>
        result (DestroyTask env i force) s = Some ErrTaskNotFound
    | Some hid \<Rightarrow> (\<exists>st. result (InspectTask i) s = Inr st \<and> result (WaitTask i) s = Inr hid \<and>
        ts_ID st = i \<and> owner (unitOwners s) (ts_Name st) = Some i \<and>
        (ts_State st = TaskStateExited) = (ts_ExitResult st \<noteq> None) \<and>
        (ts_CompletedAt st \<noteq> None) = (ts_ExitResult st \<noteq> None) \<and>
        waitGoroutine False (hnds s hid) =
          (case ts_ExitResult st of None \<Rightarrow> WaitBlocked | Some r \<Rightarrow> WaitSent r))"
proof (cases "Store_Get i (tasks s)")
  case None
  then show ?thesis
    by (simp add: InspectTask_def WaitTask_def TaskStats_def StopTask_def DestroyTask_def lookupTask_def)
next
  case (Some hid)
  then have "task_ok s i hid"
    using drv_inv_task [OF drv_inv_reachable [OF assms]] by (simp add: tracked_def)
  then show ?thesis
    using Some waitGoroutine_sound [of "hnds s hid"]
    by (simp add: InspectTask_def WaitTask_def task_ok_def TaskStatus_def)
       (auto simp: sound_handler_def HasExited_def split: option.splits)
qed

theorem task_status_consistent_witness:
  "\<exists>st. result (InspectTask ''t1'') stopped_drv = Inr st \<and> ts_ID st = ''t1'' \<and>
     owner (unitOwners stopped_drv) (ts_Name st) = Some ''t1''"
  using task_status_consistent [OF stopped_reachable, where i = "''t1''"] stopped_tracked(1)
  by (auto simp: tracked_def)

section \<open>Resource samples\<close>

lemma result_ResourceStats:
  "isl (result (ResourceStats env ctx u) s) \<longleftrightarrow> unitLocked u (mgr s) = None"
  "result (ResourceStats env ctx u) s = Inl e \<Longrightarrow> error_is e ErrUnitNotRegistered"
  using ResourceStats_result [where env = env and ctx = ctx and u = u and s = s] by (auto split: sum.splits)

text \<open>The registration that the stats stream of a handler depends on.\<close>

abbreviation watched :: "nat \<Rightarrow> sys \<Rightarrow> bool" where
  "watched hid s \<equiv> wake_of (mgrs s (th_units (hnds s hid))) (th_Unit (hnds s hid)) \<noteq> None"

lemma watched_quietly: "quietly s t \<Longrightarrow> watched hid t = watched hid s"
  by (simp add: quietly_def hnd_le_def same_task_def)

lemma sendTaskStats_result:
  "fst (result (sendTaskStats env hid d) s) \<longleftrightarrow> watched hid s"
  "length (snd (result (sendTaskStats env hid d) s)) = (if watched hid s \<and> d then 1 else 0)"
proof -
  let ?m = "Handler_ResourceStats (mgr_ctl env) CallerCtx" and ?h = "get_hnd hid s"
  have r: "result (with_hnd hid ?m) s = result (ResourceStats env CallerCtx (th_Unit (hnds s hid))) (ctrl ?h)"
    by (simp add: result_with_hnd Handler_ResourceStats_def mgr_ctl_def get_hnd_def)
  have "isl (result (with_hnd hid ?m) s) \<longleftrightarrow> \<not> watched hid s"
    "result (with_hnd hid ?m) s = Inl e \<Longrightarrow> error_is e ErrUnitNotRegistered" for e
    unfolding r using result_ResourceStats
    by (auto simp: wake_of_def get_hnd_def get_mgr_def)
  then show "fst (result (sendTaskStats env hid d) s) \<longleftrightarrow> watched hid s"
    "length (snd (result (sendTaskStats env hid d) s)) = (if watched hid s \<and> d then 1 else 0)"
    by (auto simp: sendTaskStats_def result_bind simp del: run_state_bind split: sum.split)
qed

fun ticks :: "stats_event list \<Rightarrow> bool list" where
  "ticks (StatsTick d # evs) = d # ticks evs"
| "ticks _ = []"

text \<open>C36: The stream of \<open>TaskStats\<close> carries one sample for every tick of its timer whose sample the
  caller receives, measured or zeroed, without a gap: a failed read never ends or thins it. It ends,
  and its channel is closed, exactly when the caller's context ends or the task exits, or at the
  first tick at which the unit is no longer registered with the handler's Manager, which sends
  nothing.\<close>

theorem stats_stream:
  "if watched hid s then
     length (fst (result (statsLoop env hid evs) s)) = length (filter (\<lambda>d. d) (ticks evs)) \<and>
     snd (result (statsLoop env hid evs) s) = (length (ticks evs) < length evs)
   else fst (result (statsLoop env hid evs) s) = [] \<and> snd (result (statsLoop env hid evs) s) = (evs \<noteq> [])"
proof (induction evs arbitrary: s)
  case (Cons e evs)
  show ?case
  proof (cases e)
    case (StatsTick d)
    let ?m = "sendTaskStats env hid d" and ?t = "exec (sendTaskStats env hid d) s"
    have "watched hid ?t = watched hid s"
      by (rule watched_quietly, rule io_exec [OF sendTaskStats_quietly])
    then show ?thesis
      using sendTaskStats_result [of env hid d s] Cons.IH [of ?t]
      by (auto simp: StatsTick result_bind case_prod_beta simp del: run_state_bind)
  qed simp_all
qed simp

section \<open>Fingerprints\<close>

text \<open>What a fingerprint says about the driver in the state \<open>s\<close>.\<close>

definition fingerprint_of :: "env \<Rightarrow> sys \<Rightarrow> Fingerprint \<Rightarrow> bool" where
  "fingerprint_of env s fp \<longleftrightarrow>
     (case systemdMgr s of
        None \<Rightarrow> fp_Health fp = HealthStateUndetected \<and> Attributes fp = []
      | Some mid \<Rightarrow>
          (if result (Healthy env) (get_mgr mid s) then
             fp_Health fp = HealthStateHealthy \<and>
             map_of (Attributes fp) ''driver.systemd'' = Some (BoolAttribute True) \<and>
             (\<exists>h. map_of (Attributes fp) ''driver.systemd.stats'' = Some (BoolAttribute
                (e_stat env h (Join [cgroupRoot (mgrs s mid), ''cgroup.controllers'']) = None)))
           else fp_Health fp = HealthStateUnhealthy \<and> Attributes fp = []))"

lemma buildFingerprint_of: "fingerprint_of env s (result (buildFingerprint env) s)"
  by (auto simp: fingerprint_of_def buildFingerprint_def getManager_def result_bind exec_bind with_mgr_def
      CgroupV2Available_def get_mgr_def put_mgr_def Healthy_def simp del: run_state_bind split: option.split)

text \<open>The fingerprint channel carries one fingerprint for every tick whose value the client
  receives and is closed exactly when a context ends. Each of them reports the driver as it was
  when the fingerprint was built: undetected before a \<open>SetConfig\<close>, unhealthy and without
  attributes while the connection to systemd is down, and otherwise healthy, with the stats
  attribute telling whether the host has cgroup v2.\<close>

lemma fingerprints_truthful:
  "list_all (\<lambda>fp. \<exists>t. quietly s t \<and> fingerprint_of env t fp) (fst (result (handleFingerprint env evs) s)) \<and>
   length (fst (result (handleFingerprint env evs) s)) =
     length (takeWhile (\<lambda>e. e = FingerprintTick True) evs) \<and>
   snd (result (handleFingerprint env evs) s) = (\<not> list_all (\<lambda>e. e = FingerprintTick True) evs)"
proof (induction evs arbitrary: s)
  case (Cons e evs)
  show ?case
  proof (cases "e = FingerprintTick True")
    case True
    let ?t = "exec (buildFingerprint env) s"
    have q: "quietly s ?t"
      by (rule io_exec [OF buildFingerprint_quietly])
    have "list_all (\<lambda>fp. \<exists>t. quietly s t \<and> fingerprint_of env t fp)
        (fst (result (handleFingerprint env evs) ?t))"
      by (rule list.pred_mono_strong [OF conjunct1 [OF Cons.IH]]) (use quietly_trans [OF q] in blast)
    moreover have "\<exists>t. quietly s t \<and> fingerprint_of env t (result (buildFingerprint env) s)"
      by (rule exI [of _ s]) (simp add: buildFingerprint_of)
    ultimately show ?thesis
      using Cons.IH [of ?t]
      by (auto simp: True result_bind case_prod_beta simp del: run_state_bind)
  next
    case False
    then show ?thesis
      by (cases e) (auto simp: result_bind simp del: run_state_bind)
  qed
qed simp

end
