(* ===== verification/DriverRaces.thy ===== *)
theory DriverRaces
  imports DriverSafety
begin

text \<open>
  What the interleaving of RPCs means for the ownership of units: every claim is accounted for by a
  task in the store or an RPC in flight, as long as the RPCs of one task do not overlap; and what
  happens when two of them do.
\<close>

section \<open>Claims\<close>

lemma flight_owner: "flight_ok s i f \<Longrightarrow> flight_unit f = Some u \<Longrightarrow> owner (unitOwners s) u = Some i"
  by (cases f) (auto simp: holds_def leaving_def)

lemma claims_accounted_run:
  assumes "drv_run env nom F s"
  shows "(\<forall>i f u. F i = Some f \<and> flight_unit f = Some u \<longrightarrow> owner (unitOwners s) u = Some i) \<and>
    (\<not> d_done s \<longrightarrow> (\<forall>u i. owner (unitOwners s) u = Some i \<longleftrightarrow>
       (\<exists>hid. tracked s i hid \<and> th_Unit (hnds s hid) = u) \<or>
       (\<exists>f. F i = Some f \<and> flight_unit f = Some u)))"
proof -
  have inv: "run_inv F s"
    using drv_run_inv [OF assms] .
  then have held: "owner (unitOwners s) u = Some i" if "F i = Some f" "flight_unit f = Some u" for i f u
    using that by (auto simp: run_inv_def intro: flight_owner)
  have "owner (unitOwners s) (th_Unit (hnds s hid)) = Some i" if "tracked s i hid" for i hid
    using inv drv_inv_task [OF _ that] by (auto simp: run_inv_def task_ok_def)
  moreover have "(\<exists>hid. tracked s i hid \<and> th_Unit (hnds s hid) = u) \<or> (\<exists>f. F i = Some f \<and> flight_unit f = Some u)"
    if "\<not> d_done s" "owner (unitOwners s) u = Some i" for u i
    using inv that by (auto simp: run_inv_def claims_of_def bind_eq_Some_conv)
  ultimately show ?thesis
    using held by blast
qed

text \<open>C3: No claim leaks, whichever RPCs of different tasks overlap and wherever they fail. An RPC in
  flight that holds a unit is its task's claim, so no two of them hold the same unit; and until the
  driver is shut down, a unit that a task owns is the one its handler manages or the one its RPC in
  flight holds: with nothing in flight, a unit is refused to other tasks exactly when a task in the
  store manages it.\<close>

theorem claims_accounted:
  assumes "drv_run env nom F s"
  shows "(\<forall>i f u. F i = Some f \<and> flight_unit f = Some u \<longrightarrow> owner (unitOwners s) u = Some i) \<and>
    (\<not> d_done s \<longrightarrow> (\<forall>u i. owner (unitOwners s) u = Some i \<longleftrightarrow>
       (\<exists>hid. tracked s i hid \<and> th_Unit (hnds s hid) = u) \<or>
       (\<exists>f. F i = Some f \<and> flight_unit f = Some u)))"
  by (rule claims_accounted_run [OF assms])

theorem claims_accounted_witness:
  "\<forall>u i. owner (unitOwners sample_drv1) u = Some i \<longleftrightarrow> (\<exists>hid. tracked sample_drv1 i hid \<and> th_Unit (hnds sample_drv1 hid) = u)"
  using claims_accounted [OF sample_idle_drv1 [unfolded drv_idle_def]] by (simp add: sample_drv1_def sample_drv0_def New_def)

section \<open>Replies\<close>











section \<open>Two starts of one task\<close>

lemma startClaimed_effect:
  assumes ok: "\<And>s1 s2 t handle. aside s s1 \<Longrightarrow> reregisters mid (Unit c) s1 s2 \<Longrightarrow> attaching (next_hnd s2) s2 t \<Longrightarrow>
      running_handler (ID cfg) (Unit c) handle mid TaskStateRunning (wake_of (mgrs s2 mid) (Unit c)) (next_hnd s2) None
        (hnds t (next_hnd s2)) \<Longrightarrow>
      Q (Inr handle) (t\<lparr>tasks := Store_Set (ID cfg) (next_hnd s2) (tasks t)\<rparr>)"
    and bad: "\<And>e t. aside s t \<Longrightarrow> Q (Inl e) (t\<lparr>unitOwners := releaseUnit (Unit c) (unitOwners t)\<rparr>)"
  shows "wp (startClaimed env nom mid cfg c) Q s"
proof -
  let ?handle = "\<lambda>blob. \<lparr>Version = taskHandleVersion, Config = cfg, DriverState = blob\<rparr>"
  have "wp (manageTask env mid cfg (Unit c) (?handle blob) st) (\<lambda>_. wp (ret (Inr (?handle blob))) Q) s1"
    if "aside s s1" for s1 blob st
    unfolding manageTask_def wp_bind
    by (intro RegisterUnit_wp attachTask_wp) (simp add: wp_ret ok [OF that])
  then have "wp (do {
      r \<leftarrow> ensureRunning env mid (Unit c);
      case r of
        Inl err \<Rightarrow> ret (Inl err)
      | Inr activeState \<Rightarrow> do { manageTask env mid cfg (Unit c) (?handle blob) activeState; ret (Inr (?handle blob)) }
    }) Q s" for blob
    unfolding wp_bind by (intro ensureRunning_wp) (simp_all add: wp_simps bad)
  then show ?thesis
    unfolding startClaimed_def using bad [OF aside_refl] by (simp add: wp_simps Let_def split: sum.split)
qed

lemma startChecks_result:
  assumes "run_state (startChecks env nom cfg) s = (Inr (mid, c), t)"
  shows "t = s \<and> DecodeDriverConfig nom cfg = Inr c \<and> systemdMgr s = Some mid"
proof -
  have "wp (startChecks env nom cfg) (\<lambda>r t. t = s \<and> (\<forall>mid c. r = Inr (mid, c) \<longrightarrow>
      DecodeDriverConfig nom cfg = Inr c \<and> systemdMgr s = Some mid)) s"
    by (rule startChecks_wp) simp_all
  from wpD [OF this assms] show ?thesis by simp
qed

text \<open>The second of two starts, in the state the first one left.\<close>

lemma second_start:
  assumes inv: "drv_inv t" and i: "tracked t i hid" "th_Unit (hnds t hid) = Unit c" "ID cfg = i"
    and run: "run_state (startFrom env nom mid cfg c) t = (r, v)"
  shows "case r of
      Inr handle \<Rightarrow> (\<forall>j. \<not> tracked v j hid) \<and> hnds v hid = hnds t hid
    | Inl e \<Rightarrow> tracked v i hid \<and> hnds v hid = hnds t hid \<and> owner (unitOwners v) (Unit c) = None"
proof -
  have hid: "hid < next_hnd t" "th_taskID (hnds t hid) = i" "free_for t (Unit c) i"
    using drv_inv_task [OF inv i(1)] i(2) by (auto simp: task_ok_def free_for_def)
  have other: "\<not> tracked t j hid" if "j \<noteq> i" for j
    using drv_inv_task [OF inv, of j hid] hid(2) that by (auto simp: task_ok_def)
  have "wp (startFrom env nom mid cfg c) (\<lambda>r v. case r of
      Inr handle \<Rightarrow> (\<forall>j. \<not> tracked v j hid) \<and> hnds v hid = hnds t hid
    | Inl e \<Rightarrow> tracked v i hid \<and> hnds v hid = hnds t hid \<and> owner (unitOwners v) (Unit c) = None) t"
    unfolding startFrom_def wp_bind i(3)
  proof (rule claim_wp)
    let ?Q = "\<lambda>r v. case r of
      Inr handle \<Rightarrow> (\<forall>j. \<not> tracked v j hid) \<and> hnds v hid = hnds t hid
    | Inl e \<Rightarrow> tracked v i hid \<and> hnds v hid = hnds t hid \<and> owner (unitOwners v) (Unit c) = None"
    have "wp (startClaimed env nom mid cfg c) ?Q (claimed (Unit c) i t)"
    proof (rule startClaimed_effect)
      fix s1 s2 w handle
      assume s: "aside (claimed (Unit c) i t) s1" "reregisters mid (Unit c) s1 s2" "attaching (next_hnd s2) s2 w"
      let ?v = "w\<lparr>tasks := Store_Set (ID cfg) (next_hnd s2) (tasks w)\<rparr>"
      have "hid \<noteq> next_hnd s2" "tasks w = tasks t" "hnds ?v hid = hnds t hid"
        using s hid(1) by (auto simp: aside_def quietly_def same_driver_def reregisters_def attaching_def)
      then show "?Q (Inr handle) ?v"
        using other i(3) by (auto simp: tracked_def ts.get_put)
    next
      fix e w
      assume "aside (claimed (Unit c) i t) w"
      then show "?Q (Inl e) (w\<lparr>unitOwners := releaseUnit (Unit c) (unitOwners w)\<rparr>)"
        using i(1) by (simp add: aside_def quietly_def same_driver_def tracked_def own.holder_release)
    qed
    then show "wp (case None of Some err \<Rightarrow> ret (Inl err) | None \<Rightarrow> startClaimed env nom mid cfg c) ?Q
        (claimed (Unit c) i t)"
      by simp
  qed (simp add: hid(3))
  from wpD [OF this run] show ?thesis .
qed

text \<open>C23: RPCs of the same task must not overlap. When two \<open>StartTask\<close> calls for one task ID and unit
  have both passed their checks before either claims the unit, both claims are granted, since a
  task may claim its own unit again. If the second start succeeds as well, it replaces the handler
  of the first in the store, whose goroutines keep running with nothing left to stop them; if it
  fails, it gives back the claim that the first start relies on, and the unit of a stored, running
  task is free for any other task.\<close>

theorem overlapping_starts:
  assumes "drv_reachable env nom s"
    and begun: "run_state (rpcBegin env nom (RpcStart cfg)) s = (Inl (StartClaim cfg c mid), s)"
      "run_state (rpcBegin env nom (RpcStart cfg')) s = (Inl (StartClaim cfg' c' mid'), s)"
    and same: "ID cfg' = ID cfg" "Unit c' = Unit c"
    and first: "run_state (rpcDrive env nom 5 (StartClaim cfg c mid)) s = (Inr (StartReply (Inr handle)), t)"
    and second: "run_state (rpcDrive env nom 5 (StartClaim cfg' c' mid')) t = (Inr (StartReply r), v)"
  shows "case r of
      Inr handle' \<Rightarrow> \<exists>hid. tracked t (ID cfg) hid \<and> (\<forall>j. \<not> tracked v j hid) \<and>
        th_wg (hnds v hid) = 2 \<and> \<not> th_canceled (hnds v hid)
    | Inl e \<Rightarrow> \<exists>hid. tracked v (ID cfg) hid \<and> th_Unit (hnds v hid) = Unit c \<and> th_wg (hnds v hid) = 2 \<and>
        owner (unitOwners v) (Unit c) = None"
proof -
  have checks: "run_state (startChecks env nom cfg) s = (Inr (mid, c), s)"
    using begun(1) by (auto simp: run_eq exec_bind result_bind simp del: run_state_bind split: sum.splits)
  have "run_state (StartTask env nom cfg) s = (Inr handle, t)"
    using checks first by (simp add: StartTask_def drive_start run_eq exec_bind result_bind del: run_state_bind)
  then have started: "started env nom cfg handle s t" and inv: "drv_inv t"
    using StartTask_wp [OF drv_inv_reachable [OF assms(1)], where env = env and nom = nom and cfg = cfg
        and Q = "\<lambda>r t. drv_inv t \<and> (\<forall>h. r = Inr h \<longrightarrow> started env nom cfg h s t)"]
    by (auto simp: wp_def)
  then have t: "tracked t (ID cfg) (next_hnd s)" "th_Unit (hnds t (next_hnd s)) = Unit c"
    "th_wg (hnds t (next_hnd s)) = 2" "\<not> th_canceled (hnds t (next_hnd s))"
    using startChecks_result [OF checks] by (auto simp: started_def now_tracked_def tracked_def ts.get_put Let_def)
  have "run_state (startFrom env nom mid' cfg' c') t = (r, v)"
    using second by (simp add: drive_start run_eq)
  from second_start [OF inv t(1) _ same(1) this] show ?thesis
    using t same by (cases r) auto
qed

text \<open>Two starts of the task \<open>t1\<close> in the sample world.\<close>

abbreviation sample_rest :: "(sys, flight + reply) state" where
  "sample_rest \<equiv> rpcDrive sample_env sample_nomad 5 (StartClaim (sample_task ''t1'') \<lparr>Unit = ''a.service''\<rparr> 0)"

lemma sample_begun:
  "run_state (rpcBegin sample_env sample_nomad (RpcStart (sample_task ''t1''))) sample_drv0 =
     (Inl (StartClaim (sample_task ''t1'') \<lparr>Unit = ''a.service''\<rparr> 0), sample_drv0)"
  by (simp add: startChecks_def lookupTask_def sample_valid Store_Get_def check_def getManager_def)

lemma sample_first:
  "run_state sample_rest sample_drv0 =
     (Inr (StartReply (Inr sample_handle)), sample_drv1)"
  using sample_StartTask sample_begun
  by (simp add: StartTask_def drive_start run_eq exec_bind result_bind del: run_state_bind split: sum.splits)

lemma sample_second:
  "run_state sample_rest sample_drv1 = (Inr (StartReply (Inr sample_handle)), exec sample_rest sample_drv1)"
proof -
  have "result (UnitState sample_env DriverCtx ''a.service'') (get_mgr 0 (claimed ''a.service'' ''t1'' sample_drv1)) = Inr UnitStateActive"
    by (simp add: get_mgr_def UnitState_def run_getConn ParseUnitState_def sample_drv1_def sample_hist2_def
        sample_hist0_def sample_mgr2_def sample_mgr_def unit_state_defs)
  then have "result (ensureRunning sample_env 0 ''a.service'') (claimed ''a.service'' ''t1'' sample_drv1) = Inr UnitStateActive"
    by (simp add: ensureRunning_def result_bind result_with_mgr ToTaskState_def unit_state_defs del: run_state_bind)
  moreover have "run_state (claim ''a.service'' ''t1'') sample_drv1 = (None, claimed ''a.service'' ''t1'' sample_drv1)"
    by (simp add: claim_def claimUnit_def claimed_def)
  ultimately show ?thesis
    by (simp add: run_eq drive_start startFrom_def startClaimed_def Let_def sample_handle_def
        taskHandleVersion_def result_bind exec_bind del: run_state_bind)
qed

theorem overlapping_starts_witness:
  "\<exists>hid. tracked sample_drv1 ''t1'' hid \<and> (\<forall>j. \<not> tracked (exec sample_rest sample_drv1) j hid) \<and>
     th_wg (hnds (exec sample_rest sample_drv1) hid) = 2"
  using overlapping_starts [OF sample_reachable_drv0 sample_begun sample_begun refl refl sample_first sample_second]
  by auto

end
