(* ===== verification/ReloadRaces.thy ===== *)
theory ReloadRaces
  imports DriverReload DriverRaces
begin

text \<open>
  A start that is in flight while the configuration is reloaded. It goes on with the Manager it was
  given when it began.
\<close>

section \<open>A severed Manager\<close>

lemma later_severed: "later mid s t \<Longrightarrow> severed (get_mgr mid s) \<Longrightarrow> severed (get_mgr mid t)"
  by (auto simp: later_def conn_rel_def severed_def extends_def)

section \<open>A start across a reload\<close>

text \<open>C22: A start in flight survives a reload as a stranded task. When \<open>SetConfig\<close> replaces the Manager
  after a \<open>StartTask\<close> has found or made its unit running and before it registers it, the start goes
  on with the Manager that has just been stopped. Nomad is told that it succeeded, and the stored
  task can neither be stopped nor does it ever exit in its handler's eyes: the Manager has no
  connection to systemd, although the new one has.\<close>

theorem start_across_reload:
  assumes "closing_is_final env" "drv_run env nom F s"
    and "F i = Some (StartRegister cfg u mid handle st)" "systemdMgr s = Some mid"
    and "run_state (SetConfig env nom cfg') s = (None, t)"
    and "run_state (rpcDrive env nom 2 (StartRegister cfg u mid handle st)) t = (Inr (StartReply r), v)"
    and "run_state (StopTask env i timeout) v = (q, w)"
  shows "r = Inr handle \<and> q = Some (Wrapf ''kill unit: %w'' [] no_connection) \<and>
    (\<exists>hid. tracked w i hid \<and> th_Unit (hnds w hid) = u \<and> \<not> HasExited (hnds w hid) \<and>
       th_units (hnds w hid) = mid \<and> systemdMgr w \<noteq> Some mid)"
proof -
  have inv: "drv_inv s" and i: "ID cfg = i" "mid < next_mgr s"
  proof -
    have "run_inv F s"
      by (rule drv_run_inv [OF assms(2)])
    then show "drv_inv s" and "ID cfg = i" "mid < next_mgr s"
      using assms(3) unfolding run_inv_def by (fastforce simp: usable_def)+
  qed
  have "wp (SetConfig env nom cfg') (\<lambda>r t. r = None \<longrightarrow> reconfigured env nom cfg' s t) s"
    by (rule SetConfig_wp [OF inv]) simp_all
  from wpD [OF this assms(5)] have t: "systemdMgr t = Some (next_mgr s)"
    by (simp add: reconfigured_def)
  define t1 where "t1 = exec (with_mgr mid (RegisterUnit env DriverCtx u)) t"
  have t1: "severed (get_mgr mid t1)" "systemdMgr t1 = systemdMgr t"
    using later_severed [OF io_exec [OF later_register]] SetConfig_severs [OF assms(5,4)] by (simp_all add: t1_def)
  have rv: "r = Inr handle" "v = exec (attachTask env mid cfg u handle st) t1"
    using assms(6) by (simp_all add: run_eq exec_bind result_bind numeral_2_eq_2 t1_def del: run_state_bind)
  have "severed (get_mgr mid v)"
    using later_severed [OF io_exec [OF later_attachTask]] t1(1) by (simp add: rv(2))
  moreover have "wp (attachTask env mid cfg u handle st) (\<lambda>_ v. tracked v i (next_hnd t1) \<and>
      systemdMgr v = systemdMgr t1 \<and> th_units (hnds v (next_hnd t1)) = mid \<and> th_Unit (hnds v (next_hnd t1)) = u \<and>
      sound_handler (hnds v (next_hnd t1)) \<and> \<not> HasExited (hnds v (next_hnd t1))) t1"
    by (rule attachTask_wp)
       (auto simp: attaching_def running_handler_def ready_handler_def tracked_def ts.get_put i(1) sound_handler_def
          HasExited_def)
  ultimately have v: "tracked v i (next_hnd t1)" "systemdMgr v = Some (next_mgr s)" "stranded (next_hnd t1) v"
    "th_units (hnds v (next_hnd t1)) = mid" "th_Unit (hnds v (next_hnd t1)) = u"
    using t t1(2) by (simp_all add: wp_def rv(2) stranded_def)
  have q: "q = Some (Wrapf ''kill unit: %w'' [] no_connection)" "stranded (next_hnd t1) w"
    using stranded_beside_stop [OF assms(1) v(3), of timeout] assms(7) v(1) by (simp_all add: run_StopTask tracked_def)
  have "quietly v w"
    using io_run [OF StopTask_quietly assms(7)] .
  then have "tracked w i (next_hnd t1)" "th_Unit (hnds w (next_hnd t1)) = u" "th_units (hnds w (next_hnd t1)) = mid"
    "systemdMgr w = Some (next_mgr s)"
    using v by (simp_all add: quietly_def same_driver_def tracked_def hnd_le_def same_task_def)
  then show ?thesis
    using rv(1) q i(2) by (auto simp: stranded_def)
qed

text \<open>A start of \<open>t1\<close> in the sample world, up to the place where it registers the unit.\<close>

definition sample_read :: sys where
  "sample_read = exec (rpcNext sample_env sample_nomad (StartRead (sample_task ''t1'') \<lparr>Unit = ''a.service''\<rparr> 0))
     (claimed ''a.service'' ''t1'' sample_drv0)"

abbreviation sample_registering :: flight where
  "sample_registering \<equiv> StartRegister (sample_task ''t1'') ''a.service'' 0 sample_handle UnitStateActive"

lemma sample_reads:
  "result (rpcNext sample_env sample_nomad (StartRead (sample_task ''t1'') \<lparr>Unit = ''a.service''\<rparr> 0))
     (claimed ''a.service'' ''t1'' sample_drv0) = Inl sample_registering"
proof -
  have "result (UnitState sample_env DriverCtx ''a.service'') (get_mgr 0 (claimed ''a.service'' ''t1'' sample_drv0)) =
      Inr UnitStateActive"
    by (simp add: get_mgr_def UnitState_def run_getConn ParseUnitState_def sample_drv0_def
        sample_hist0_def sample_mgr_def unit_state_defs)
  then show ?thesis
    by (simp add: result_bind result_with_mgr startUnlessRunning_def ToTaskState_def unit_state_defs sample_handle_def
        taskHandleVersion_def del: run_state_bind)
qed

lemma sample_read_run: "drv_run sample_env sample_nomad ((\<lambda>_. None)(''t1'' := Some sample_registering)) sample_read"
proof -
  let ?rest = "StartClaim (sample_task ''t1'') \<lparr>Unit = ''a.service''\<rparr> 0"
  let ?F = "\<lambda>f. (\<lambda>_. None)(''t1'' := Some f)"
  note run = sample_idle_drv0 [unfolded drv_idle_def]
  have "drv_step sample_env sample_nomad (\<lambda>_. None, sample_drv0) (?F ?rest, sample_drv0)"
    using rpc_begin [where F = "\<lambda>_. None" and r = "RpcStart (sample_task ''t1'')" and env = sample_env
        and nom = sample_nomad and s = sample_drv0] sample_begun by simp
  note run = drv_more [OF run this]
  have "run_state (claim ''a.service'' ''t1'') sample_drv0 = (None, claimed ''a.service'' ''t1'' sample_drv0)"
    by (simp add: claim_def claimUnit_def claimed_def)
  then have "drv_step sample_env sample_nomad (?F ?rest, sample_drv0)
      (?F (StartRead (sample_task ''t1'') \<lparr>Unit = ''a.service''\<rparr> 0), claimed ''a.service'' ''t1'' sample_drv0)"
    using rpc_next [where F = "?F ?rest" and i = "''t1''" and env = sample_env and nom = sample_nomad and s = sample_drv0]
    by simp
  note run = drv_more [OF run this]
  show ?thesis
    using drv_more [OF run rpc_next [where i = "''t1''"]] sample_reads by (simp add: sample_read_def)
qed

abbreviation sample_late :: sys where
  "sample_late \<equiv> exec (rpcDrive sample_env sample_nomad 2 sample_registering)
     (exec (SetConfig sample_env sample_nomad sample_config) sample_read)"

theorem start_across_reload_witness:
  "result (StopTask sample_env ''t1'' 1000) sample_late \<noteq> None \<and>
   (\<exists>hid. tracked (exec (StopTask sample_env ''t1'' 1000) sample_late) ''t1'' hid)"
proof -
  have "d_pprof sample_read = None" "systemdMgr sample_read = Some 0"
    by (simp_all add: sample_read_def exec_bind exec_with_mgr put_mgr_def claimed_def sample_drv0_def New_def del: run_state_bind)
  note s = sample_reload [OF this(1)] this(2)
  have drive: "run_state (rpcDrive sample_env sample_nomad 2 sample_registering)
      (exec (SetConfig sample_env sample_nomad sample_config) sample_read) =
      (Inr (StartReply (Inr sample_handle)), sample_late)"
    by (simp add: run_eq exec_bind result_bind numeral_2_eq_2 del: run_state_bind)
  show ?thesis
    using start_across_reload [OF sample_closing sample_read_run _ s(2) s(1) drive surjective_pairing, where i = "''t1''"
        and timeout = 1000] by auto
qed

end
