(* ===== verification/Assignment.thy ===== *)
theory Assignment
  imports DriverSafety
begin

text \<open>
  What the driver promises Nomad, without Managers, handlers, claims or goroutines: a ledger of the
  tasks, each with the unit it manages and the exit it has reported. The driver refines it.
\<close>

section \<open>The specification\<close>

text \<open>A task's unit and, once it has exited, its exit result.\<close>

type_synonym ledger = "string \<rightharpoonup> string \<times> ExitResult option"

text \<open>Time passes: tasks exit, at most once each, and nothing else changes.\<close>

definition entry_le :: "(string \<times> ExitResult option) option \<Rightarrow> (string \<times> ExitResult option) option \<Rightarrow> bool" where
  "entry_le a b \<longleftrightarrow> (case (a, b) of
     (None, None) \<Rightarrow> True
   | (Some (u, r), Some (v, q)) \<Rightarrow> u = v \<and> (r \<noteq> None \<longrightarrow> q = r)
   | _ \<Rightarrow> False)"

definition manages :: "ledger \<Rightarrow> string \<Rightarrow> bool" where
  "manages A u \<longleftrightarrow> (\<exists>i r. A i = Some (u, r))"

inductive ledger_step :: "ledger \<Rightarrow> ledger \<Rightarrow> bool" where
  assign: "A i = None \<Longrightarrow> \<not> manages A u \<Longrightarrow> ledger_step A (A(i \<mapsto> (u, r)))"
| exits: "(\<And>i. entry_le (A i) (B i)) \<Longrightarrow> ledger_step A B"
| drop: "ledger_step A (A(i := None))"
| clear: "ledger_step A Map.empty"

inductive_cases ledger_stepE: "ledger_step A B"

text \<open>What follows for every ledger: a unit has one task, and an entry stays what it is until it is
  dropped, except for the exit that is filled in once.\<close>

definition one_task_each :: "ledger \<Rightarrow> bool" where
  "one_task_each A \<longleftrightarrow> (\<forall>i j u r q. A i = Some (u, r) \<longrightarrow> A j = Some (u, q) \<longrightarrow> i = j)"

lemma entry_leE:
  assumes "entry_le a b" "b = Some (u, q)"
  obtains r where "a = Some (u, r)" "r \<noteq> None \<longrightarrow> q = r"
  using assms by (cases a) (auto simp: entry_le_def)

lemma entry_le_refl [simp]: "entry_le a a"
  by (cases a) (auto simp: entry_le_def)

lemma ledger_step_one_task: "ledger_step A B \<Longrightarrow> one_task_each A \<Longrightarrow> one_task_each B"
proof (induction rule: ledger_step.induct)
  case (exits A B)
  have "i = j" if "B i = Some (u, r)" "B j = Some (u, q)" for i j u r q
    using entry_leE [OF exits(1) that(1)] entry_leE [OF exits(1) that(2)] exits(2)
    unfolding one_task_each_def by metis
  then show ?case
    by (simp add: one_task_each_def)
qed (auto simp: one_task_each_def manages_def split: if_splits)

lemma ledger_step_entry:
  assumes "ledger_step A B" "A i = Some (u, r)"
  shows "B i = None \<or> (\<exists>q. B i = Some (u, q) \<and> (r \<noteq> None \<longrightarrow> q = r))"
  using assms
proof (induction rule: ledger_step.induct)
  case (exits A B)
  then show ?case
    using exits(1) [of i] by (auto simp: entry_le_def split: option.splits)
qed auto

section \<open>Refinement\<close>

text \<open>A transition system refines another: every step from a good state is a step of the other.\<close>

locale refinement =
  fixes step :: "'s \<Rightarrow> 's \<Rightarrow> bool" and spec :: "'a \<Rightarrow> 'a \<Rightarrow> bool" and abs :: "'s \<Rightarrow> 'a" and good :: "'s \<Rightarrow> bool"
  assumes good_step: "good s \<Longrightarrow> step s t \<Longrightarrow> good t"
    and simulates: "good s \<Longrightarrow> step s t \<Longrightarrow> spec (abs s) (abs t)"
begin

lemma steps: "step\<^sup>*\<^sup>* s t \<Longrightarrow> good s \<Longrightarrow> good t \<and> spec\<^sup>*\<^sup>* (abs s) (abs t)"
proof (induction rule: rtranclp_induct)
  case (step t v)
  then show ?case
    using good_step simulates by (meson rtranclp.rtrancl_into_rtrancl)
qed simp

lemma transfer:
  assumes "\<And>A B. P A \<Longrightarrow> spec A B \<Longrightarrow> P B" "P (abs s)" "good s" "step\<^sup>*\<^sup>* s t"
  shows "P (abs t)"
proof -
  have "P B" if "spec\<^sup>*\<^sup>* (abs s) B" for B
    using that by induction (use assms(1,2) in auto)
  then show ?thesis
    using steps [OF assms(4,3)] by blast
qed

end

section \<open>The driver's ledger\<close>

definition ledger_of :: "sys \<Rightarrow> ledger" where
  "ledger_of s i = map_option (\<lambda>hid. (th_Unit (hnds s hid), th_exitResult (hnds s hid))) (Store_Get i (tasks s))"

lemma ledger_same: "tasks t = tasks s \<Longrightarrow> hnds t = hnds s \<Longrightarrow> ledger_step (ledger_of s) (ledger_of t)"
  by (rule exits) (simp add: ledger_of_def)

lemma ledger_quietly:
  assumes "drv_inv s" "quietly s t"
  shows "ledger_step (ledger_of s) (ledger_of t)"
proof (rule exits)
  fix i
  show "entry_le (ledger_of s i) (ledger_of t i)"
  proof (cases "Store_Get i (tasks s)")
    case (Some hid)
    then have "sound_handler (hnds s hid)" "hnd_le (hnds s hid) (hnds t hid)"
      using drv_inv_task [OF assms(1)] assms(2) by (auto simp: task_ok_def tracked_def quietly_def)
    then show ?thesis
      using Some assms(2) by (auto simp: entry_le_def ledger_of_def quietly_def same_driver_def hnd_le_def same_task_def
          sound_handler_def)
  qed (use assms(2) in \<open>simp add: ledger_of_def quietly_def same_driver_def\<close>)
qed

lemma ledger_attach:
  assumes inv: "drv_inv s" and i: "holds s i u"
    and t: "attaching hid s t" "running_handler i u handle mid st w hid er (hnds t hid)"
  shows "ledger_step (ledger_of s) (ledger_of (t\<lparr>tasks := Store_Set i hid (tasks t)\<rparr>))"
proof -
  have other: "hnds t h = hnds s h" if "tracked s j h" for j h
    using drv_inv_task [OF inv that] t(1) by (auto simp: task_ok_def attaching_def)
  have "ledger_of (t\<lparr>tasks := Store_Set i hid (tasks t)\<rparr>) = (ledger_of s)(i \<mapsto> (u, er))"
    using t other by (auto simp: fun_eq_iff ledger_of_def ts.get_put attaching_def running_handler_def ready_handler_def
        tracked_def split: option.split intro!: option.map_cong)
  moreover have "\<not> manages (ledger_of s) u"
    using holds_unmanaged [OF inv i] by (auto simp: manages_def ledger_of_def unmanaged_def tracked_def)
  ultimately show ?thesis
    using i by (simp add: assign holds_def ledger_of_def)
qed

lemma ledger_refl [simp]: "ledger_step A A"
  by (rule exits) simp

lemma ledger_reregisters: "reregisters mid u s t \<Longrightarrow> ledger_step (ledger_of s) (ledger_of t)"
  by (intro ledger_same) (simp_all add: reregisters_def same_driver_def)

lemma ledger_owners [simp]: "ledger_of (s\<lparr>unitOwners := os\<rparr>) = ledger_of s"
  by (simp add: ledger_of_def fun_eq_iff)

lemma ledger_claimed [simp]: "ledger_of (claimed u i s) = ledger_of s"
  by (simp add: claimed_def)

lemma ledger_forget: "wp (forgetTask i u) (\<lambda>_ t. ledger_step (ledger_of s) (ledger_of t)) s"
proof -
  have "ledger_of (v\<lparr>tasks := Store_Delete i (tasks v), unitOwners := os\<rparr>) = (ledger_of s)(i := None)"
    if "tasks v = tasks s" "hnds v = hnds s" for v os
    using that by (auto simp: fun_eq_iff ledger_of_def ts.get_del)
  moreover have "tasks (exec (with_mgr mid (UnregisterUnit u)) s) = tasks s"
    "hnds (exec (with_mgr mid (UnregisterUnit u)) s) = hnds s" for mid
    by (simp_all add: exec_with_mgr put_mgr_def)
  ultimately show ?thesis
    using drop [of "ledger_of s" i]
    by (simp add: forgetTask_def wp_simps getManager_def wp_def [of "with_mgr mid m" for mid m] split: option.split)
qed

lemma ledger_rpcNext:
  assumes inv: "drv_inv s" and f: "flight_ok s i f"
  shows "wp (rpcNext env nom f) (\<lambda>_ t. ledger_step (ledger_of s) (ledger_of t)) s"
proof -
  note quiet = ledger_quietly [OF inv]
  show ?thesis
  proof (cases f)
    case (StartRead cfg c mid)
    then show ?thesis
      by (auto simp: wp_ret wp_bind intro!: quietly_wp [OF unit_calls_quietly(1)] quiet split: sum.split)
  next
    case (StartAttach cfg u mid handle st)
    then show ?thesis
      using f by (auto simp: wp_ret wp_bind intro!: attachTask_wp ledger_attach [OF inv])
  next
    case (RecoverAttach handle u mid st)
    then show ?thesis
      using f by (auto simp: wp_ret wp_bind intro!: attachRecovered_wp ledger_attach [OF inv])
  next
    case (StartRegister cfg u mid handle st)
    then show ?thesis
      by (auto simp: wp_ret wp_bind intro!: RegisterUnit_wp ledger_reregisters)
  next
    case (RecoverRegister handle u mid st)
    then show ?thesis
      by (auto simp: wp_ret wp_bind intro!: RegisterUnit_wp ledger_reregisters)
  qed (auto simp: wp_simps wp_ret wp_bind intro!: claim_wp quiet
      quietly_wp [OF unit_calls_quietly(1)] quietly_wp [OF unit_calls_quietly(2)] quietly_wp [OF rollBack_quietly]
      quietly_wp [OF stopForDestroy_quietly] io_exec [OF Handler_Stop_quietly, unfolded upd_handler_def, simplified]
      wp_mono [OF ledger_forget])
qed

lemma rpcBegin_same: "exec (rpcBegin env nom r) s = s"
proof (cases r)
  case (RpcStart cfg)
  have "wp (startChecks env nom cfg) (\<lambda>_ t. t = s) s"
    by (rule startChecks_wp) simp_all
  then show ?thesis
    using RpcStart by (simp add: wp_def exec_bind del: run_state_bind)
next
  case (RpcRecover handle)
  have "wp (recoverChecks nom handle) (\<lambda>_ t. t = s) s"
    by (rule recoverChecks_wp) simp_all
  then show ?thesis
    using RpcRecover by (simp add: wp_def exec_bind del: run_state_bind)
next
  case (RpcDestroy i force)
  then show ?thesis
    by (simp add: lookupTask_def exec_bind result_bind del: run_state_bind split: option.split)
qed

lemma ledger_SetConfig: "drv_inv s \<Longrightarrow> ledger_step (ledger_of s) (ledger_of (exec (SetConfig env nom cfg) s))"
proof -
  assume "drv_inv s"
  then have "wp (SetConfig env nom cfg) (\<lambda>_ t. tasks t = tasks s \<and> hnds t = hnds s) s"
    by (rule SetConfig_wp) (simp_all add: reconfigured_def not_reconfigured_def)
  then show ?thesis
    by (simp add: wp_def ledger_same)
qed

lemma ledger_Shutdown: "drv_inv s \<Longrightarrow> ledger_step (ledger_of s) (ledger_of (exec (Shutdown stages) s))"
proof (cases stages)
  case (Suc n)
  assume inv: "drv_inv s"
  have "shuts t (exec stopManager t)" "shuts t (exec stopPprof t)" for t
    by (rule io_exec, rule stages_shut)+
  then have "shuts t (exec stopManager t)" "shuts t (exec stopPprof (exec stopManager t))" for t
    using shuts_preorder unfolding preorder_rel_def by (blast dest: transpD)+
  then have "shuts (exec stopHandlers s) ((exec (Shutdown stages) s)\<lparr>d_done := False\<rparr>)"
    using Suc by (auto simp: Shutdown_stages Let_def) (simp_all add: shuts_def)
  then have "tasks (exec (Shutdown stages) s) = []"
    using stopHandlers_inv [OF inv] by (auto simp: shuts_def)
  then have "ledger_of (exec (Shutdown stages) s) = Map.empty"
    by (simp add: fun_eq_iff ledger_of_def Store_Get_def)
  then show ?thesis
    by (simp add: clear)
qed (auto simp: Shutdown_stages intro!: ledger_same)

section \<open>The simulation\<close>

lemma ledger_drv_step:
  "drv_step env nom (F, s) (G, t) \<Longrightarrow> run_inv F s \<Longrightarrow> ledger_step (ledger_of s) (ledger_of t)"
proof (induction "(F, s)" "(G, t)" arbitrary: F s G t rule: drv_step.induct)
  case (rpc_next F i f s)
  then show ?case
    using ledger_rpcNext [of s i f env nom] by (simp add: wp_def run_inv_def)
next
  case (rpc_SetConfig F s cfg)
  then show ?case
    by (simp add: ledger_SetConfig run_inv_def)
next
  case (rpc_Shutdown F s stages)
  then show ?case
    by (simp add: ledger_Shutdown run_inv_def)
next
  case (go_pprof p s F)
  then show ?case
    using pprofGoroutine_only [of s p] by (auto simp: pprof_only_def intro: ledger_same)
qed (simp add: rpcBegin_same, (rule ledger_quietly, simp add: run_inv_def, rule io_exec, rule background_quietly)+)

interpretation assignment: refinement "drv_step env nom" ledger_step "\<lambda>x. ledger_of (snd x)" "\<lambda>x. run_inv (fst x) (snd x)"
  for env nom
  by unfold_locales (auto simp: run_inv_step ledger_drv_step)

lemma ledger_New: "ledger_of New = Map.empty"
  by (simp add: fun_eq_iff ledger_of_def New_def NewStore_def Store_Get_def)

lemma drv_run_steps: "drv_run env nom F s \<Longrightarrow> (drv_step env nom)\<^sup>*\<^sup>* (\<lambda>_. None, New) (F, s)"
  by (induction rule: drv_run.induct) (auto intro: rtranclp.rtrancl_into_rtrancl)

text \<open>C2: The driver refines the ledger of tasks: each of its steps, whatever RPCs of other tasks are in
  flight, is a step of the specification, in which a unit is only given to a task while no other
  manages it, an entry keeps its unit until it is dropped, and an exit is filled in once. So every
  state shows a ledger the specification reaches, a unit has one task in it, and across any step a
  stored task either is dropped or keeps its unit and, once reported, its exit.\<close>

theorem driver_refines_ledger:
  assumes "drv_run env nom F s"
  shows "ledger_step\<^sup>*\<^sup>* Map.empty (ledger_of s) \<and> one_task_each (ledger_of s) \<and>
    (\<forall>G t. drv_step env nom (F, s) (G, t) \<longrightarrow> ledger_step (ledger_of s) (ledger_of t) \<and>
       (\<forall>i u r. ledger_of s i = Some (u, r) \<longrightarrow>
          ledger_of t i = None \<or> (\<exists>q. ledger_of t i = Some (u, q) \<and> (r \<noteq> None \<longrightarrow> q = r))))"
proof -
  note steps = drv_run_steps [OF assms]
  have New: "run_inv (\<lambda>_. None) New"
    using drv_run_inv [OF drv_new] .
  have "one_task_each (ledger_of s)"
    using assignment.transfer [where P = one_task_each, OF ledger_step_one_task _ _ steps] New
    by (simp add: ledger_New one_task_each_def)
  moreover have "ledger_step\<^sup>*\<^sup>* Map.empty (ledger_of s)"
    using assignment.steps [OF steps] New by (simp add: ledger_New)
  moreover have "ledger_step (ledger_of s) (ledger_of t)" if "drv_step env nom (F, s) (G, t)" for G t
    using ledger_drv_step [OF that drv_run_inv [OF assms]] .
  ultimately show ?thesis
    using ledger_step_entry by (intro conjI allI impI) blast+
qed

theorem driver_refines_ledger_witness:
  "ledger_step\<^sup>*\<^sup>* Map.empty (ledger_of sample_drv1) \<and> ledger_of sample_drv1 ''t1'' = Some (''a.service'', None)"
  using driver_refines_ledger [OF sample_idle_drv1 [unfolded drv_idle_def]]
  by (simp add: ledger_of_def Store_Get_def sample_hnd2_def sample_handler_def)

end
