(* ===== verification/ExitPath.thy ===== *)
theory ExitPath
  imports DriverObserve
begin

text \<open>
  The path of an exit through the components: systemd's answer to a Manager's read, the handler's
  poll, the waiters of the task.
\<close>

lemma checked_exit:
  assumes "\<not> HasExited (hnd s)" "reported_state uc s = Inr st" "IsTerminal st"
  shows "result (checkTaskState uc) s"
    "th_exitResult (hnd (exec (checkTaskState uc) s)) =
       Some (exit_of st (exit_status uc (exec (Handler_UnitState uc) s)))"
proof -
  show "result (checkTaskState uc) s"
    using assms by (simp add: checkTaskState_exited)
  have "th_state (hnd s) \<noteq> TaskStateExited"
    using assms(1) by (simp add: HasExited_def)
  then show "th_exitResult (hnd (exec (checkTaskState uc) s)) =
      Some (exit_of st (exit_status uc (exec (Handler_UnitState uc) s)))"
    using assms by (simp add: checkTaskState_def exec_bind result_bind run_Handler_UnitState hnd_handleStateChange
        publish_exit_def close_wait_def del: run_state_bind)
qed

lemma polled_exit:
  assumes "\<not> HasExited (hnd s)" "reported_state uc s = Inr st" "IsTerminal st" "e \<noteq> PollCtxDone"
  shows "exec (pollLoop uc (e # evs)) s = exec (checkTaskState uc) s"
  using assms(4) checked_exit(1) [OF assms(1-3)]
  by (cases e) (simp_all add: exec_bind del: run_state_bind)

text \<open>C10: An exit of the unit reaches everyone who waits for the task. When the polling goroutine of
  a stored, running task receives a wake-up or a tick, and systemd's answer to its read is a
  terminal state, then every \<open>WaitTask\<close> on the task, at once and in every state the driver goes
  through later, is delivered the exit result computed from that state and from the exit status
  systemd reports next, and the task's status is exited.\<close>

theorem exit_reaches_waiters:
  assumes "drv_reachable env nom s" "tracked s i hid" "\<not> HasExited (hnds s hid)"
    and "0 < th_wg (hnds s hid)" "\<not> th_canceled (hnds s hid)"
    and "e_poll_events env (hist s) hid = e # evs" "e \<noteq> PollCtxDone"
    and "run_state (UnitState env (HandlerCtx (th_id (hnds s hid))) (th_Unit (hnds s hid)))
           (get_mgr (th_units (hnds s hid)) s) = (Inr st, m)" "IsTerminal st"
    and "(drv_step env nom)\<^sup>*\<^sup>* (F, exec (pollGoroutine env hid) s) (G, t)"
  defines "r \<equiv> exit_of st (result (UnitExitStatus env (HandlerCtx (th_id (hnds s hid))) (th_Unit (hnds s hid))) m)"
  shows "waitGoroutine False (hnds t hid) = WaitSent r \<and> ts_State (TaskStatus (hnds t hid)) = TaskStateExited \<and>
    ts_ExitResult (TaskStatus (hnds t hid)) = Some r"
proof -
  let ?h = "get_hnd hid s" and ?uc = "mgr_ctl env"
  have h: "\<not> HasExited (hnd ?h)" "reported_state ?uc ?h = Inr st"
    using assms(3,8) by (simp_all add: get_hnd_def reported_state_def mgr_ctl_def)
  have r: "exit_status ?uc (exec (Handler_UnitState ?uc) ?h) = result (UnitExitStatus env (HandlerCtx (th_id (hnds s hid)))
      (th_Unit (hnds s hid))) m"
    using assms(8) by (simp add: exit_status_def run_Handler_UnitState get_hnd_def mgr_ctl_def)
  have "hnds (exec (pollGoroutine env hid) s) hid = hnd (exec (checkTaskState ?uc) ?h)"
    using assms(4-7) polled_exit [OF h assms(9,7), of evs]
    by (simp add: pollGoroutine_def exec_bind result_bind with_hnd_def put_hnd_def put_mgr_def del: run_state_bind)
  then have exit: "th_exitResult (hnds (exec (pollGoroutine env hid) s) hid) = Some r"
    using checked_exit(2) [OF h assms(9)] r by (simp add: r_def)
  have q: "quietly s (exec (pollGoroutine env hid) s)"
    by (rule io_exec [OF pollGoroutine_quietly])
  moreover have "hid < next_hnd s" "sound_handler (hnds s hid)"
    using drv_inv_task [OF drv_inv_reachable [OF assms(1)] assms(2)] by (auto simp: task_ok_def)
  ultimately have "hid < next_hnd (exec (pollGoroutine env hid) s)" "sound_handler (hnds (exec (pollGoroutine env hid) s) hid)"
    by (auto simp: quietly_def same_driver_def hnd_le_def)
  from exit_stays [OF this exit assms(10)] show ?thesis .
qed

text \<open>A world in which the unit fails right after it was put under management.\<close>

definition late_env :: env where
  "late_env = sample_env\<lparr>
     e_get_property := (\<lambda>h _ _ p. Inr (if p = ''ActiveState''
       then VString (if length h < 15 then ''active'' else ''failed'') else VUint64 1000)),
     e_poll_events := (\<lambda>_ _. [PollTick])\<rparr>"

lemma late_env_simps [simp]:
  "e_now late_env h = int (length h)" "e_dial late_env h = Inr (length h)"
  "e_connected late_env h k = (CloseConn k \<notin> set h)" "e_subscribe late_env h k = None"
  "e_get_property late_env h k u p = Inr (if p = ''ActiveState''
     then VString (if length h < 15 then ''active'' else ''failed'') else VUint64 1000)"
  "e_get_properties late_env h k u = Inr [(''ControlGroup'', VString ''/a'')]"
  "e_get_type_properties late_env h k u t = Inr [(''ExecMainCode'', VInt32 1), (''ExecMainStatus'', VInt32 3)]"
  "e_stat late_env h path = None" "e_new_journal late_env h = Inr (length h)"
  "e_add_match late_env h j str = None" "e_seek_realtime late_env h j = None" "e_seek_tail late_env h j = None"
  "e_emit_event late_env h i = None" "e_poll_events late_env h hid = [PollTick]"
  by (simp_all add: late_env_def)

lemma late_SetConfig:
  "run_state (SetConfig late_env sample_nomad sample_config) New = (None, sample_drv0)"
  by (simp add: SetConfig_eval)

lemma late_StartTask:
  "run_state (StartTask late_env sample_nomad (sample_task ''t1'')) sample_drv0 =
     (Inr sample_handle, sample_drv1)"
  by (simp add: StartTask_eval)

lemma late_idle0: "drv_idle late_env sample_nomad sample_drv0"
  using idle_SetConfig [OF idle_New, where env = late_env and nom = sample_nomad and cfg = sample_config]
    late_SetConfig by simp

lemma late_reachable: "drv_reachable late_env sample_nomad sample_drv1"
  using idle_reachable [OF idle_rpc [OF late_idle0, where r = "RpcStart (sample_task ''t1'')"]] late_StartTask
  by simp

theorem exit_reaches_waiters_witness:
  "waitGoroutine False (hnds (exec (pollGoroutine late_env 0) sample_drv1) 0) =
     WaitSent \<lparr>ExitCode = 3, Signal = 0, Err = Some (Errorf ''systemd unit exited with code %d'' [AInt 3])\<rparr>"
proof -
  let ?m = "get_mgr 0 sample_drv1"
  have state: "run_state (UnitState late_env (HandlerCtx 0) ''a.service'') ?m =
      (Inr ''failed'', exec (UnitState late_env (HandlerCtx 0) ''a.service'') ?m)"
    by (simp add: run_eq UnitState_def run_getConn ParseUnitState_def get_mgr_def sample_drv1_def sample_hist2_def
        sample_hist0_def sample_mgr2_def)
  have status: "result (UnitExitStatus late_env (HandlerCtx 0) ''a.service'') (exec (UnitState late_env (HandlerCtx 0) ''a.service'') ?m) =
      Inr \<lparr>Code = 1, Status = 3\<rparr>"
    by (simp add: UnitState_def UnitExitStatus_def run_getConn get_mgr_def sample_drv1_def sample_hist2_def
        sample_hist0_def sample_mgr2_def)
  have "IsTerminal ''failed''"
    by (simp add: IsTerminal_def unit_state_defs)
  note exit = exit_reaches_waiters [OF late_reachable sample_tracked, where e = PollTick and evs = "[]", OF _ _ _ _ _ _ this
      rtranclp.rtrancl_refl]
  have "\<not> HasExited (hnds sample_drv1 0)" "0 < th_wg (hnds sample_drv1 0)" "\<not> th_canceled (hnds sample_drv1 0)"
    "e_poll_events late_env (hist sample_drv1) 0 = [PollTick]" "PollTick \<noteq> PollCtxDone"
    by (simp_all add: sample_hnd2_def sample_handler_def HasExited_def)
  from exit [OF this] show ?thesis
    using state status by (simp add: exit_of_def ExitResultFromStatus_def cld_defs)
qed

end
