(* ===== verification/Logs.thy ===== *)
theory Logs
  imports Journal
begin

text \<open>
  \<open>pkg/task/logs.go\<close>: the goroutine that copies a task's journal entries to the FIFOs Nomad made
  for its stdout and stderr. The files are reached through the calls recorded in \<open>file_ops\<close>;
  opening one is a function of the calls so far, so a FIFO may appear between two attempts. What a
  write answers is only logged by the source, so it is not modelled.
\<close>

section \<open>Files\<close>

datatype file_call =
    OpenFile string
  | SleepFor nat
  | WriteTo nat string
  | CloseFile nat

record file_world =
  file_ops :: "file_call list"

type_synonym open_env = "file_call list \<Rightarrow> string \<Rightarrow> error + nat"

definition file_op :: "file_call \<Rightarrow> (file_world, unit) state" where
  "file_op c = modify (\<lambda>w. w\<lparr>file_ops := file_ops w @ [c]\<rparr>)"

definition openFile :: "open_env \<Rightarrow> string \<Rightarrow> (file_world, error + nat) state" where
  "openFile opens path = do {
     r \<leftarrow> gets (\<lambda>w. opens (file_ops w) path);
     file_op (OpenFile path);
     ret r
   }"

section \<open>Entries\<close>

definition maxStdoutOpenRetries :: nat where
  "maxStdoutOpenRetries = 5"

text \<open>\<open>stdoutRetryBackoffUnit\<close>, in milliseconds.\<close>

definition stdoutRetryBackoffUnit :: nat where
  "stdoutRetryBackoffUnit = 100"

definition mapPriorityToLevel :: "string \<Rightarrow> string" where
  "mapPriorityToLevel priority =
     (if priority = ''0'' then ''EMERG''
      else if priority = ''1'' then ''ALERT''
      else if priority = ''2'' then ''CRIT''
      else if priority = ''3'' then ''ERR''
      else if priority = ''4'' then ''WARN''
      else if priority = ''5'' then ''NOTICE''
      else if priority = ''6'' then ''INFO''
      else if priority = ''7'' then ''DEBUG''
      else ''UNKNOWN'')"

text \<open>\<open>fmt.Fprintf\<close> with the two formats of the source.\<close>

definition entryText :: "LogEntry \<Rightarrow> string" where
  "entryText e =
     (let priorityLevel = mapPriorityToLevel (Priority e) in
      if SyslogIdentifier e \<noteq> ''''
      then ''['' @ priorityLevel @ ''] ['' @ SyslogIdentifier e @ ''] '' @ Message e @ [CHR 0x0A]
      else ''['' @ priorityLevel @ ''] '' @ Message e @ [CHR 0x0A])"

definition writeLogEntry :: "LogEntry \<Rightarrow> nat \<Rightarrow> nat \<Rightarrow> (file_world, unit) state" where
  "writeLogEntry e stdout stderr =
     (let writer = (if Priority e = ''0'' \<or> Priority e = ''1'' \<or> Priority e = ''2'' \<or> Priority e = ''3''
                    then stderr else stdout)
      in file_op (WriteTo writer (entryText e)))"

section \<open>The goroutine\<close>

text \<open>
  The loop over the attempts to open stdout: \<open>i\<close> is the attempt, \<open>n\<close> how many are left, \<open>r\<close> the
  outcome of the last one (\<open>None\<close> before the first).
\<close>

fun openStdout :: "open_env \<Rightarrow> string \<Rightarrow> nat \<Rightarrow> nat \<Rightarrow> (error + nat) option \<Rightarrow>
    (file_world, (error + nat) option) state" where
  "openStdout opens path i 0 r = ret r"
| "openStdout opens path i (Suc n) r = do {
     q \<leftarrow> openFile opens path;
     case q of
       Inr f \<Rightarrow> ret (Some (Inr f))
     | Inl err \<Rightarrow> do {
         (if i < maxStdoutOpenRetries - 1 then file_op (SleepFor ((i + 1) * stdoutRetryBackoffUnit))
          else ret ());
         openStdout opens path (i + 1) n (Some (Inl err))
       }
   }"

text \<open>What the \<open>select\<close> of the loop receives.\<close>

datatype log_event = LogCtxDone | LogChClosed | LogReceived LogEntry

fun writeLoop :: "nat \<Rightarrow> nat \<Rightarrow> log_event list \<Rightarrow> (file_world, bool) state" where
  "writeLoop stdout stderr [] = ret False"
| "writeLoop stdout stderr (LogCtxDone # evs) = ret True"
| "writeLoop stdout stderr (LogChClosed # evs) = ret True"
| "writeLoop stdout stderr (LogReceived e # evs) = do {
     writeLogEntry e stdout stderr;
     writeLoop stdout stderr evs
   }"

text \<open>
  \<open>streamLogs\<close> with the task's two paths; the result is whether it has returned, having run its
  deferred \<open>Close\<close> calls.
\<close>

definition streamLogs ::
    "open_env \<Rightarrow> string \<Rightarrow> string \<Rightarrow> log_event list \<Rightarrow> (file_world, bool) state" where
  "streamLogs opens stdoutPath stderrPath evs = do {
     r \<leftarrow> openStdout opens stdoutPath 0 maxStdoutOpenRetries None;
     case r of
       None \<Rightarrow> ret True
     | Some (Inl err) \<Rightarrow> ret True
     | Some (Inr stdout) \<Rightarrow> do {
         q \<leftarrow> openFile opens stderrPath;
         let stderr = (case q of Inl _ \<Rightarrow> stdout | Inr f \<Rightarrow> f);
         returned \<leftarrow> writeLoop stdout stderr evs;
         (if returned then do {
            (case q of Inl _ \<Rightarrow> ret () | Inr f \<Rightarrow> file_op (CloseFile f));
            file_op (CloseFile stdout)
          } else ret ());
         ret returned
       }
   }"

end
