(* ===== verification/Pipeline.thy ===== *)
theory Pipeline
  imports Logs
begin

text \<open>
  The way of a unit's log entries as it runs: the journal reader's goroutine
  (\<open>pkg/systemd/journal.go\<close>), the handler's bounded channel (\<open>pkg/task/task.go\<close>) and the goroutine
  that writes the files (\<open>pkg/task/logs.go\<close>), each with a context of its own, step by step and in
  every order. An iteration of the reader's loop and an event of the writer's are recorded when
  they are over; run over them, \<open>journalReader\<close> and \<open>writeLoop\<close> say what has been sent and written.
\<close>

definition logChannelBufferSize :: nat where
  "logChannelBufferSize = 100"

section \<open>The goroutines\<close>

text \<open>Where the reader is: about to ask the journal, in the backoff after an error, at the \<open>select\<close>
  that sends an entry, or returned. The writer opens the files first.\<close>

datatype reader_at = ReadNext | InBackoff error | AtSend JournalEntry | ReaderGone

datatype writer_at = OpeningFiles | Writing | WriterGone

text \<open>What the journal answers: \<open>Next\<close> fails, there is nothing new, \<open>GetEntry\<close> fails, or an entry.\<close>

datatype journal_reply =
    JournalNextError error
  | JournalNothing
  | JournalEntryError error
  | JournalRead JournalEntry

record pipe =
  reader :: reader_at
  iterations :: "iteration list"
  unitCtxDone :: bool
  logCh :: "LogEntry list"
  writer :: writer_at
  log_events :: "log_event list"
  handlerCtxDone :: bool

definition new_pipe :: pipe where
  "new_pipe = \<lparr>reader = ReadNext, iterations = [], unitCtxDone = False, logCh = [],
     writer = OpeningFiles, log_events = [], handlerCtxDone = False\<rparr>"

text \<open>An iteration is over and the reader is at \<open>a\<close>.\<close>

definition ends_iteration :: "iteration \<Rightarrow> reader_at \<Rightarrow> pipe \<Rightarrow> pipe" where
  "ends_iteration it a p = p\<lparr>reader := a, iterations := iterations p @ [it]\<rparr>"

text \<open>The top of the reader's loop: the end of the context is seen first, then the journal is asked.\<close>

definition readNext :: "journal_reply \<Rightarrow> pipe \<Rightarrow> pipe" where
  "readNext r p =
     (if unitCtxDone p then ends_iteration IterDone ReaderGone p
      else case r of
          JournalNextError err \<Rightarrow> p\<lparr>reader := InBackoff err\<rparr>
        | JournalNothing \<Rightarrow> ends_iteration IterNoEntry ReadNext p
        | JournalEntryError err \<Rightarrow> ends_iteration (IterEntryError err) ReadNext p
        | JournalRead e \<Rightarrow>
            (if map_of (Fields e) ''MESSAGE'' = None then ends_iteration (IterEntry e False) ReadNext p
             else p\<lparr>reader := AtSend e\<rparr>))"

text \<open>A send to the channel, which has room.\<close>

definition sendEntry :: "JournalEntry \<Rightarrow> pipe \<Rightarrow> pipe" where
  "sendEntry e p = (case map_of (Fields e) ''MESSAGE'' of
     None \<Rightarrow> p
   | Some message \<Rightarrow> ends_iteration (IterEntry e False) ReadNext (p\<lparr>logCh := logCh p @ [logEntry e message]\<rparr>))"

section \<open>Every order of their steps\<close>

text \<open>Where a \<open>select\<close> has several cases ready, it may take any of them.\<close>

inductive reader_step :: "pipe \<Rightarrow> pipe \<Rightarrow> bool" where
  reads: "reader p = ReadNext \<Longrightarrow> reader_step p (readNext r p)"
| retries: "reader p = InBackoff err \<Longrightarrow> reader_step p (ends_iteration (IterNextError err False) ReadNext p)"
| gives_up: "reader p = InBackoff err \<Longrightarrow> unitCtxDone p \<Longrightarrow>
     reader_step p (ends_iteration (IterNextError err True) ReaderGone p)"
| sends: "reader p = AtSend e \<Longrightarrow> length (logCh p) < logChannelBufferSize \<Longrightarrow> reader_step p (sendEntry e p)"
| drops: "reader p = AtSend e \<Longrightarrow> unitCtxDone p \<Longrightarrow> reader_step p (ends_iteration (IterEntry e True) ReaderGone p)"

inductive writer_step :: "pipe \<Rightarrow> pipe \<Rightarrow> bool" where
  opens: "writer p = OpeningFiles \<Longrightarrow> writer_step p (p\<lparr>writer := Writing\<rparr>)"
| cannot_open: "writer p = OpeningFiles \<Longrightarrow> writer_step p (p\<lparr>writer := WriterGone\<rparr>)"
| receives: "writer p = Writing \<Longrightarrow> logCh p = l # ls \<Longrightarrow>
     writer_step p (p\<lparr>logCh := ls, log_events := log_events p @ [LogReceived l]\<rparr>)"
| quits: "writer p = Writing \<Longrightarrow> handlerCtxDone p \<Longrightarrow>
     writer_step p (p\<lparr>writer := WriterGone, log_events := log_events p @ [LogCtxDone]\<rparr>)"

inductive pipe_step :: "pipe \<Rightarrow> pipe \<Rightarrow> bool" where
  by_reader: "reader_step p q \<Longrightarrow> pipe_step p q"
| by_writer: "writer_step p q \<Longrightarrow> pipe_step p q"
| unit_ends: "pipe_step p (p\<lparr>unitCtxDone := True\<rparr>)"
| handler_ends: "pipe_step p (p\<lparr>handlerCtxDone := True\<rparr>)"

inductive_cases reader_stepE: "reader_step p q"
inductive_cases writer_stepE: "writer_step p q"
inductive_cases pipe_stepE: "pipe_step p q"

end
