(* ===== verification/LogsProps.thy ===== *)
theory LogsProps
  imports Logs
begin

text \<open>
  Where a task's log entries end up: the attempts to open the FIFOs, the order and the target of
  the writes.
\<close>

section \<open>Opening stdout\<close>

lemma exec_file_op [simp]: "exec (file_op c) w = w\<lparr>file_ops := file_ops w @ [c]\<rparr>"
  by (simp add: file_op_def)

lemma run_openFile [simp]:
  "result (openFile opens path) w = opens (file_ops w) path"
  "exec (openFile opens path) w = w\<lparr>file_ops := file_ops w @ [OpenFile path]\<rparr>"
  by (simp_all add: openFile_def result_bind exec_bind del: run_state_bind)

text \<open>The calls of \<open>n\<close> failed attempts from attempt \<open>i\<close> on.\<close>

fun attempts :: "string \<Rightarrow> nat \<Rightarrow> nat \<Rightarrow> file_call list" where
  "attempts path i 0 = []"
| "attempts path i (Suc n) =
     OpenFile path # (if i < maxStdoutOpenRetries - 1 then [SleepFor ((i + 1) * stdoutRetryBackoffUnit)] else []) @
     attempts path (i + 1) n"

text \<open>None of the first \<open>n\<close> attempts from attempt \<open>i\<close> on opens the file, the calls made before being \<open>ops\<close>.\<close>

definition fails :: "open_env \<Rightarrow> string \<Rightarrow> nat \<Rightarrow> nat \<Rightarrow> file_call list \<Rightarrow> bool" where
  "fails opens path i n ops \<longleftrightarrow> (\<forall>k < n. isl (opens (ops @ attempts path i k) path))"

lemma fails_Suc:
  "fails opens path i (Suc n) ops \<longleftrightarrow> isl (opens ops path) \<and>
     fails opens path (i + 1) n (ops @ OpenFile path #
       (if i < maxStdoutOpenRetries - 1 then [SleepFor ((i + 1) * stdoutRetryBackoffUnit)] else []))"
  by (auto simp: fails_def less_Suc_eq_0_disj)

text \<open>Stdout is opened by the first attempt that succeeds, or every attempt has failed.\<close>

lemma openStdout_cases:
  "(\<exists>k f. k < n \<and> result (openStdout opens path i n r) w = Some (Inr f) \<and> fails opens path i k (file_ops w) \<and>
      opens (file_ops w @ attempts path i k) path = Inr f \<and>
      exec (openStdout opens path i n r) w = w\<lparr>file_ops := file_ops w @ attempts path i k @ [OpenFile path]\<rparr>) \<or>
   (fails opens path i n (file_ops w) \<and> (0 < n \<longrightarrow> (\<exists>e. result (openStdout opens path i n r) w = Some (Inl e))) \<and>
      (n = 0 \<longrightarrow> result (openStdout opens path i n r) w = r) \<and>
      exec (openStdout opens path i n r) w = w\<lparr>file_ops := file_ops w @ attempts path i n\<rparr>)"
proof (induction n arbitrary: i r w)
  case (Suc n)
  show ?case
  proof (cases "opens (file_ops w) path")
    case (Inr f)
    then show ?thesis
      by (intro disjI1 exI [of _ 0] exI [of _ f]) (simp add: fails_def result_bind exec_bind del: run_state_bind)
  next
    case (Inl e)
    let ?sleep = "if i < maxStdoutOpenRetries - 1 then [SleepFor ((i + 1) * stdoutRetryBackoffUnit)] else []"
    let ?w = "w\<lparr>file_ops := file_ops w @ OpenFile path # ?sleep\<rparr>"
    have step: "result (openStdout opens path i (Suc n) r) w = result (openStdout opens path (i + 1) n (Some (Inl e))) ?w"
      "exec (openStdout opens path i (Suc n) r) w = exec (openStdout opens path (i + 1) n (Some (Inl e))) ?w"
      using Inl by (simp_all add: result_bind exec_bind del: run_state_bind)
    from Suc.IH [of "i + 1" "Some (Inl e)" ?w] show ?thesis
    proof (elim disjE exE conjE)
      fix k f
      assume "k < n" "fails opens path (i + 1) k (file_ops ?w)" "result (openStdout opens path (i + 1) n (Some (Inl e))) ?w = Some (Inr f)"
        "opens (file_ops ?w @ attempts path (i + 1) k) path = Inr f"
        "exec (openStdout opens path (i + 1) n (Some (Inl e))) ?w =
          ?w\<lparr>file_ops := file_ops ?w @ attempts path (i + 1) k @ [OpenFile path]\<rparr>"
      then show ?thesis
        unfolding step using Inl by (intro disjI1 exI [of _ "Suc k"] exI [of _ f]) (simp add: fails_Suc)
    next
      assume "fails opens path (i + 1) n (file_ops ?w)" "0 < n \<longrightarrow> (\<exists>e'. result (openStdout opens path (i + 1) n (Some (Inl e))) ?w = Some (Inl e'))"
        "n = 0 \<longrightarrow> result (openStdout opens path (i + 1) n (Some (Inl e))) ?w = Some (Inl e)"
        "exec (openStdout opens path (i + 1) n (Some (Inl e))) ?w = ?w\<lparr>file_ops := file_ops ?w @ attempts path (i + 1) n\<rparr>"
      then show ?thesis
        unfolding step using Inl by (intro disjI2) (cases n; auto simp: fails_Suc)
    qed
  qed
qed (simp add: fails_def)

section \<open>Writing\<close>

text \<open>The severities of syslog, the gravest least, and last what is not a priority.\<close>

datatype severity =
    SevEmerg
  | SevAlert
  | SevCrit
  | SevErr
  | SevWarn
  | SevNotice
  | SevInfo
  | SevDebug
  | SevUnknown

primrec rank :: "severity \<Rightarrow> nat" where
  "rank SevEmerg = 0"
| "rank SevAlert = 1"
| "rank SevCrit = 2"
| "rank SevErr = 3"
| "rank SevWarn = 4"
| "rank SevNotice = 5"
| "rank SevInfo = 6"
| "rank SevDebug = 7"
| "rank SevUnknown = 8"

lemma rank_inj [simp]: "rank a = rank b \<longleftrightarrow> a = b"
  by (cases a; cases b) simp_all

instantiation severity :: linorder
begin

definition less_eq_severity :: "severity \<Rightarrow> severity \<Rightarrow> bool" where
  "less_eq_severity a b \<longleftrightarrow> rank a \<le> rank b"

definition less_severity :: "severity \<Rightarrow> severity \<Rightarrow> bool" where
  "less_severity a b \<longleftrightarrow> rank a < rank b"

instance
  by standard (auto simp: less_eq_severity_def less_severity_def)

end

definition severity_of :: "string \<Rightarrow> severity" where
  "severity_of p =
     (case map_of [(''0'', SevEmerg), (''1'', SevAlert), (''2'', SevCrit), (''3'', SevErr), (''4'', SevWarn),
        (''5'', SevNotice), (''6'', SevInfo), (''7'', SevDebug)] p of None \<Rightarrow> SevUnknown | Some v \<Rightarrow> v)"

primrec level_name :: "severity \<Rightarrow> string" where
  "level_name SevEmerg = ''EMERG''"
| "level_name SevAlert = ''ALERT''"
| "level_name SevCrit = ''CRIT''"
| "level_name SevErr = ''ERR''"
| "level_name SevWarn = ''WARN''"
| "level_name SevNotice = ''NOTICE''"
| "level_name SevInfo = ''INFO''"
| "level_name SevDebug = ''DEBUG''"
| "level_name SevUnknown = ''UNKNOWN''"

lemma level_name_inj: "level_name a = level_name b \<longleftrightarrow> a = b"
  by (cases a; cases b) simp_all

lemma level_of_severity: "mapPriorityToLevel p = level_name (severity_of p)"
  by (simp add: mapPriorityToLevel_def severity_of_def)

definition grave :: "string \<Rightarrow> bool" where
  "grave p \<longleftrightarrow> severity_of p \<le> SevErr"

lemma grave_iff: "grave p \<longleftrightarrow> p = ''0'' \<or> p = ''1'' \<or> p = ''2'' \<or> p = ''3''"
  by (simp add: grave_def severity_of_def less_eq_severity_def)

fun received :: "log_event list \<Rightarrow> LogEntry list" where
  "received (LogReceived e # evs) = e # received evs"
| "received _ = []"

definition written :: "nat \<Rightarrow> nat \<Rightarrow> LogEntry list \<Rightarrow> file_call list" where
  "written stdout stderr es =
     map (\<lambda>e. WriteTo (if grave (Priority e) then stderr else stdout) (entryText e)) es"

lemma writeLoop_writes:
  "exec (writeLoop stdout stderr evs) w = w\<lparr>file_ops := file_ops w @ written stdout stderr (received evs)\<rparr>"
  "result (writeLoop stdout stderr evs) w = (length (received evs) < length evs)"
proof (induction evs arbitrary: w)
  case (Cons ev evs)
  {
    case 1
    then show ?case
      using Cons by (cases ev)
        (auto simp: written_def writeLogEntry_def grave_iff Let_def exec_bind simp del: run_state_bind)
  next
    case 2
    then show ?case
      using Cons by (cases ev) (auto simp: result_bind simp del: run_state_bind)
  }
qed (simp_all add: written_def)

text \<open>What \<open>streamLogs\<close> does to the files.\<close>

definition log_trace ::
    "open_env \<Rightarrow> string \<Rightarrow> string \<Rightarrow> log_event list \<Rightarrow> file_call list \<Rightarrow> file_call list \<Rightarrow> bool \<Rightarrow> bool" where
  "log_trace opens out err evs ops new returned \<longleftrightarrow>
     (fails opens out 0 maxStdoutOpenRetries ops \<and> new = attempts out 0 maxStdoutOpenRetries \<and> returned) \<or>
     (\<exists>k f. k < maxStdoutOpenRetries \<and> fails opens out 0 k ops \<and> opens (ops @ attempts out 0 k) out = Inr f \<and>
        returned = (length (received evs) < length evs) \<and>
        (let opened = attempts out 0 k @ [OpenFile out]; q = opens (ops @ opened) err
         in new = opened @ OpenFile err #
              written f (case q of Inl _ \<Rightarrow> f | Inr g \<Rightarrow> g) (received evs) @
              (if returned then (case q of Inl _ \<Rightarrow> [] | Inr g \<Rightarrow> [CloseFile g]) @ [CloseFile f] else [])))"

text \<open>C30: The log goroutine tries to open the task's stdout at most five times, sleeping 100, 200,
  300 and 400 ms in between, and gives up, without writing anything, exactly when all five fail: the
  first attempt that succeeds is the last one made. From then on every entry it receives is written,
  in order and exactly once, each as one line with its level, which tells the severities apart: to
  stderr exactly if its severity is error or graver and stderr could be opened, and to stdout
  otherwise. It returns exactly when its context ends or the channel is closed, and then has closed
  each file it opened once.\<close>

theorem logs_routed:
  "\<exists>new. file_ops (exec (streamLogs opens out err evs) w) = file_ops w @ new \<and>
     log_trace opens out err evs (file_ops w) new (result (streamLogs opens out err evs) w) \<and>
     attempts out 0 maxStdoutOpenRetries =
       [OpenFile out, SleepFor 100, OpenFile out, SleepFor 200, OpenFile out, SleepFor 300,
        OpenFile out, SleepFor 400, OpenFile out] \<and>
     (mapPriorityToLevel p = mapPriorityToLevel q \<longleftrightarrow> severity_of p = severity_of q)"
proof -
  have tries: "attempts out 0 maxStdoutOpenRetries =
      [OpenFile out, SleepFor 100, OpenFile out, SleepFor 200, OpenFile out, SleepFor 300,
       OpenFile out, SleepFor 400, OpenFile out]"
    by (simp add: maxStdoutOpenRetries_def stdoutRetryBackoffUnit_def eval_nat_numeral)
  let ?m = "openStdout opens out 0 maxStdoutOpenRetries None"
  have max: "maxStdoutOpenRetries \<noteq> 0"
    by (simp add: maxStdoutOpenRetries_def)
  consider (opened) k f where "k < maxStdoutOpenRetries" "fails opens out 0 k (file_ops w)" "result ?m w = Some (Inr f)"
      "opens (file_ops w @ attempts out 0 k) out = Inr f"
      "exec ?m w = w\<lparr>file_ops := file_ops w @ attempts out 0 k @ [OpenFile out]\<rparr>"
    | (failed) e where "result ?m w = Some (Inl e)" "fails opens out 0 maxStdoutOpenRetries (file_ops w)"
      "exec ?m w = w\<lparr>file_ops := file_ops w @ attempts out 0 maxStdoutOpenRetries\<rparr>"
    using openStdout_cases [where n = maxStdoutOpenRetries and opens = opens and path = out and i = 0
        and r = None and w = w] max by auto
  then show ?thesis
  proof cases
    case (opened k f)
    let ?q = "opens (file_ops w @ attempts out 0 k @ [OpenFile out]) err"
    let ?ended = "length (received evs) < length evs"
    let ?new = "attempts out 0 k @ [OpenFile out] @ OpenFile err #
        written f (case ?q of Inl _ \<Rightarrow> f | Inr g \<Rightarrow> g) (received evs) @
        (if ?ended then (case ?q of Inl _ \<Rightarrow> [] | Inr g \<Rightarrow> [CloseFile g]) @ [CloseFile f] else [])"
    have "exec (streamLogs opens out err evs) w = w\<lparr>file_ops := file_ops w @ ?new\<rparr>"
      "result (streamLogs opens out err evs) w = ?ended"
      using opened by (simp_all add: streamLogs_def Let_def exec_bind result_bind writeLoop_writes del: run_state_bind
          split: sum.split)
    moreover have "log_trace opens out err evs (file_ops w) ?new ?ended"
      using opened unfolding log_trace_def Let_def by (intro disjI2 exI [of _ k] exI [of _ f]) simp
    ultimately show ?thesis
      by (intro exI [of _ ?new]) (simp add: tries level_of_severity level_name_inj)
  next
    case (failed e)
    then show ?thesis
      using tries by (simp add: level_of_severity level_name_inj streamLogs_def exec_bind result_bind log_trace_def del: run_state_bind)
  qed
qed

end
