(* ===== verification/PipelineProps.thy ===== *)
theory PipelineProps
  imports Pipeline LogsProps JournalProps
begin

text \<open>
  Nothing is lost, duplicated or reordered between the journal and the files, whatever the order in
  which reader and writer run, and only a full channel stops a reader whose context is alive.
\<close>

section \<open>What has been sent and received\<close>

definition delivered :: "iteration list \<Rightarrow> LogEntry list" where
  "delivered its = List.map_filter sent (fst (journalReader its))"

lemma delivered_messages: "delivered its = List.map_filter message (takeWhile (\<lambda>it. \<not> last_iteration it) its)"
  by (simp add: delivered_def journalReader_def reader_sends)

lemma delivered_snoc:
  assumes "\<not> list_ex last_iteration its"
  shows "delivered (its @ [it]) = delivered its @ (if last_iteration it then [] else List.map_filter message [it])"
proof -
  have all: "\<forall>i \<in> set its. \<not> last_iteration i"
    using assms by (simp add: list_ex_iff)
  then have "takeWhile (\<lambda>i. \<not> last_iteration i) (its @ [it]) = its @ takeWhile (\<lambda>i. \<not> last_iteration i) [it]"
    by (simp add: takeWhile_append2)
  moreover have "takeWhile (\<lambda>i. \<not> last_iteration i) its = its"
    using all by (simp add: takeWhile_eq_all_conv)
  ultimately show ?thesis
    by (simp add: delivered_messages List.map_filter_def del: takeWhile_eq_all_conv)
qed

lemma received_snoc:
  "length (received evs) = length evs \<Longrightarrow> received (evs @ [LogReceived l]) = received evs @ [l]"
  "received (evs @ [LogCtxDone]) = received evs"
  by (induction evs rule: received.induct) auto

section \<open>The invariant\<close>

definition pipe_inv :: "pipe \<Rightarrow> bool" where
  "pipe_inv p \<longleftrightarrow>
     delivered (iterations p) = received (log_events p) @ logCh p \<and>
     length (logCh p) \<le> logChannelBufferSize \<and>
     (reader p = ReaderGone \<longleftrightarrow> list_ex last_iteration (iterations p)) \<and>
     (reader p = ReaderGone \<longrightarrow> unitCtxDone p) \<and>
     (\<forall>e. reader p = AtSend e \<longrightarrow> map_of (Fields e) ''MESSAGE'' \<noteq> None) \<and>
     (writer p \<noteq> WriterGone \<longrightarrow> length (received (log_events p)) = length (log_events p))"

lemma ends_iteration_inv:
  assumes "pipe_inv p" "reader p \<noteq> ReaderGone" "\<And>e. a \<noteq> AtSend e"
    and "last_iteration it \<longleftrightarrow> a = ReaderGone" "a = ReaderGone \<longrightarrow> unitCtxDone p"
    and "last_iteration it \<or> message it = None"
  shows "pipe_inv (ends_iteration it a p)"
  using assms
  by (auto simp: pipe_inv_def ends_iteration_def delivered_snoc List.map_filter_def)

lemma readNext_inv:
  assumes "pipe_inv p" "reader p = ReadNext"
  shows "pipe_inv (readNext r p)"
proof -
  have goes_on: "pipe_inv (ends_iteration it ReadNext p)" if "\<not> last_iteration it" "message it = None" for it
    using ends_iteration_inv [OF assms(1), of ReadNext it] assms(2) that by simp
  have stays: "pipe_inv (p\<lparr>reader := a\<rparr>)" if "a \<noteq> ReaderGone" "\<forall>e. a = AtSend e \<longrightarrow> map_of (Fields e) ''MESSAGE'' \<noteq> None" for a
    using assms that by (simp add: pipe_inv_def)
  show ?thesis
  proof (cases "unitCtxDone p")
    case True
    then show ?thesis
      using ends_iteration_inv [OF assms(1), of ReaderGone IterDone] assms(2)
      by (simp add: readNext_def last_iteration_def)
  next
    case False
    then show ?thesis
      using goes_on stays by (cases r) (auto simp: readNext_def last_iteration_def message_def)
  qed
qed

lemma sendEntry_inv:
  assumes "pipe_inv p" "reader p = AtSend e" "length (logCh p) < logChannelBufferSize"
  shows "pipe_inv (sendEntry e p)"
proof -
  obtain m where m: "map_of (Fields e) ''MESSAGE'' = Some m"
    using assms(1,2) by (auto simp: pipe_inv_def)
  have "\<not> last_iteration (IterEntry e False)" "message (IterEntry e False) = Some (logEntry e m)"
    by (simp_all add: last_iteration_def message_def m)
  then show ?thesis
    using assms by (simp add: pipe_inv_def sendEntry_def ends_iteration_def delivered_snoc List.map_filter_def m)
qed

lemma reader_step_inv: "reader_step p q \<Longrightarrow> pipe_inv p \<Longrightarrow> pipe_inv q"
proof (induction rule: reader_step.induct)
  case (drops p e)
  then have "message (IterEntry e True) \<noteq> None"
    by (simp add: pipe_inv_def message_def)
  then show ?case
    using drops by (intro ends_iteration_inv) (simp_all add: last_iteration_def)
qed (simp_all add: readNext_inv sendEntry_inv ends_iteration_inv last_iteration_def message_def)

lemma writer_step_inv: "writer_step p q \<Longrightarrow> pipe_inv p \<Longrightarrow> pipe_inv q"
  by (induction rule: writer_step.induct) (auto simp: pipe_inv_def received_snoc)

lemma pipe_step_inv: "pipe_step p q \<Longrightarrow> pipe_inv p \<Longrightarrow> pipe_inv q"
proof (induction rule: pipe_step.induct)
  case (by_reader p q)
  then show ?case by (rule reader_step_inv)
next
  case (by_writer p q)
  then show ?case by (rule writer_step_inv)
qed (simp_all add: pipe_inv_def)

definition pipe_reachable :: "pipe \<Rightarrow> bool" where
  "pipe_reachable p \<longleftrightarrow> pipe_step\<^sup>*\<^sup>* new_pipe p"

lemma pipe_inv_reachable: "pipe_reachable p \<Longrightarrow> pipe_inv p"
  unfolding pipe_reachable_def
proof (induction rule: rtranclp_induct)
  case base
  then show ?case
    by (simp add: pipe_inv_def new_pipe_def delivered_messages)
qed (rule pipe_step_inv)

section \<open>No loss, no reordering\<close>

text \<open>C31: The pipeline is a FIFO queue of bounded length, under every order of the steps of the
  journal reader, the writer and the ends of their two contexts. What the reader has delivered,
  exactly the journal's entries with a message in the journal's order, is what the writer has
  received followed by what is in the channel, at most 100 entries; so the files hold the lines of
  the first entries delivered, in order and each once, and once the channel is empty those of all
  of them. The reader has returned exactly when an iteration saw the end of its context.\<close>

theorem log_pipeline:
  assumes "pipe_reachable p"
  shows "delivered (iterations p) = received (log_events p) @ logCh p \<and> length (logCh p) \<le> 100 \<and>
    delivered (iterations p) =
      List.map_filter message (takeWhile (\<lambda>it. \<not> last_iteration it) (iterations p)) \<and>
    file_ops (exec (writeLoop stdout stderr (log_events p)) w) =
      file_ops w @ written stdout stderr (take (length (received (log_events p))) (delivered (iterations p))) \<and>
    (reader p = ReaderGone \<longleftrightarrow> snd (journalReader (iterations p))) \<and>
    (reader p = ReaderGone \<longrightarrow> unitCtxDone p)"
  using pipe_inv_reachable [OF assms]
  by (simp add: pipe_inv_def logChannelBufferSize_def writeLoop_writes delivered_messages journalReader_def
      reader_returns)

text \<open>One entry has been sent and is still in the channel.\<close>

definition sample_entry :: JournalEntry where
  "sample_entry = \<lparr>Fields = [(''MESSAGE'', ''hello''), (''PRIORITY'', ''3'')], RealtimeTimestamp = 0\<rparr>"

definition sample_pipe :: pipe where
  "sample_pipe = sendEntry sample_entry (readNext (JournalRead sample_entry) new_pipe)"

lemmas sample_pipe_eval = sample_pipe_def new_pipe_def readNext_def sendEntry_def ends_iteration_def sample_entry_def

lemma sample_pipe_reachable: "pipe_reachable sample_pipe"
proof -
  have "pipe_step new_pipe (readNext (JournalRead sample_entry) new_pipe)"
    by (intro by_reader reads) (simp add: new_pipe_def)
  moreover have "pipe_step (readNext (JournalRead sample_entry) new_pipe) sample_pipe"
    unfolding sample_pipe_def by (intro by_reader sends) (simp_all add: sample_pipe_eval logChannelBufferSize_def)
  ultimately show ?thesis
    unfolding pipe_reachable_def by simp
qed

theorem log_pipeline_witness:
  "map Message (delivered (iterations sample_pipe)) = [''hello''] \<and> reader sample_pipe = ReadNext"
  using log_pipeline [OF sample_pipe_reachable]
  by (simp add: sample_pipe_eval logEntry_def)

section \<open>Progress of the reader\<close>

text \<open>How many steps a reader whose context has ended has left.\<close>

definition reader_left :: "pipe \<Rightarrow> nat" where
  "reader_left p = (case reader p of ReaderGone \<Rightarrow> 0 | ReadNext \<Rightarrow> 1 | _ \<Rightarrow> 2)"

text \<open>Only a full channel stops it.\<close>

definition stalled :: "pipe \<Rightarrow> bool" where
  "stalled p \<longleftrightarrow> (\<exists>e. reader p = AtSend e) \<and> length (logCh p) = logChannelBufferSize \<and> \<not> unitCtxDone p"

lemma reader_enabled:
  assumes "pipe_inv p" "reader p \<noteq> ReaderGone" "\<not> stalled p"
  shows "\<exists>q. reader_step p q"
proof (cases "reader p")
  case (AtSend e)
  then consider "unitCtxDone p" | "length (logCh p) < logChannelBufferSize"
    using assms by (fastforce simp: stalled_def pipe_inv_def)
  then show ?thesis
    using AtSend by cases (blast intro: drops sends)+
qed (use assms(2) in \<open>blast intro: reads retries\<close>)+

lemma reader_left_less: "reader_step p q \<Longrightarrow> unitCtxDone p \<Longrightarrow> pipe_inv p \<Longrightarrow> reader_left q < reader_left p"
  by (induction rule: reader_step.induct)
     (auto simp: reader_left_def readNext_def sendEntry_def ends_iteration_def pipe_inv_def)

lemma reader_step_ctx: "reader_step p q \<Longrightarrow> unitCtxDone q = unitCtxDone p"
  by (induction rule: reader_step.induct)
     (simp_all add: readNext_def sendEntry_def ends_iteration_def split: option.split journal_reply.split)

lemma other_step:
  "pipe_step p q \<Longrightarrow> reader_step p q \<or> reader_left q = reader_left p \<and> (unitCtxDone p \<longrightarrow> unitCtxDone q)"
  by (induction rule: pipe_step.induct) (auto simp: reader_left_def elim: writer_stepE)

lemma stalled_drains:
  assumes "stalled p" "writer p = Writing"
  shows "\<exists>q. writer_step p q \<and> \<not> stalled q"
proof -
  obtain l ls where l: "logCh p = l # ls"
    using assms(1) by (cases "logCh p") (auto simp: stalled_def logChannelBufferSize_def)
  let ?q = "p\<lparr>logCh := ls, log_events := log_events p @ [LogReceived l]\<rparr>"
  have "\<not> stalled ?q"
    using assms(1) l by (simp add: stalled_def)
  then show ?thesis
    using receives [OF assms(2) l] by blast
qed

text \<open>C32: The journal reader can always take a step unless it has an entry to send, the channel is full
  and its context is alive; then a writer that has opened the files can take an entry, after which
  the reader can go on. Once its context has ended it returns within two steps of its own, which
  nothing else can prevent or add to, full channel or not: so once the calls of the journal return,
  the readers that \<open>UnregisterUnit\<close> cancels end, and the wait of \<open>Manager.Stop\<close> for them as well.\<close>

theorem reader_progress:
  assumes "pipe_reachable p" "reader p \<noteq> ReaderGone"
  shows "((\<exists>q. reader_step p q) \<or>
      stalled p \<and> (writer p = Writing \<longrightarrow> (\<exists>q q'. writer_step p q \<and> reader_step q q'))) \<and>
    (unitCtxDone p \<longrightarrow> (\<exists>q. reader_step p q) \<and> reader_left p \<le> 2 \<and>
      (\<forall>q. pipe_step p q \<longrightarrow> unitCtxDone q \<and>
         (if reader_step p q then reader_left q < reader_left p else reader_left q = reader_left p)))"
proof -
  note inv = pipe_inv_reachable [OF assms(1)]
  have drained: "\<exists>q q'. writer_step p q \<and> reader_step q q'" if st: "stalled p" "writer p = Writing"
  proof -
    obtain q where q: "writer_step p q" "\<not> stalled q"
      using stalled_drains [OF st] by blast
    have "reader q = reader p"
      using q(1) by (cases rule: writer_step.cases) simp_all
    then show ?thesis
      using reader_enabled [OF writer_step_inv [OF q(1) inv]] q assms(2) by auto
  qed
  have ended: "unitCtxDone q \<and>
      (if reader_step p q then reader_left q < reader_left p else reader_left q = reader_left p)"
    if "unitCtxDone p" "pipe_step p q" for q
  proof (cases "reader_step p q")
    case True
    then show ?thesis
      using reader_left_less [OF True that(1) inv] reader_step_ctx [OF True] that(1) by simp
  next
    case False
    then show ?thesis
      using other_step [OF that(2)] that(1) by auto
  qed
  have "\<not> stalled p" if "unitCtxDone p"
    using that by (simp add: stalled_def)
  moreover have "reader_left p \<le> 2"
    by (simp add: reader_left_def split: reader_at.split)
  ultimately show ?thesis
    using reader_enabled [OF inv assms(2)] drained ended by blast
qed

theorem reader_progress_witness:
  "\<exists>q. reader_step (sample_pipe\<lparr>unitCtxDone := True\<rparr>) q \<and>
     reader_left q < reader_left (sample_pipe\<lparr>unitCtxDone := True\<rparr>)"
proof -
  have "pipe_reachable (sample_pipe\<lparr>unitCtxDone := True\<rparr>)"
    using sample_pipe_reachable unit_ends [of sample_pipe] unfolding pipe_reachable_def by simp
  moreover have "reader (sample_pipe\<lparr>unitCtxDone := True\<rparr>) \<noteq> ReaderGone" "unitCtxDone (sample_pipe\<lparr>unitCtxDone := True\<rparr>)"
    by (simp_all add: sample_pipe_eval)
  ultimately show ?thesis
    using reader_progress by (meson by_reader)
qed

end
