(* ===== verification/Teardown.thy ===== *)
theory Teardown
  imports Handler Pipeline
begin

text \<open>
  \<open>Handler.Stop\<close> (\<open>pkg/task/task.go\<close>) and the two goroutines it waits for, \<open>pollTaskState\<close>
  (\<open>state.go\<close>) and \<open>streamLogs\<close> (\<open>logs.go\<close>), step by step and in every order. A call to systemd, an
  open, a sleep and a write each end in a step of their own, so a goroutine can be found in the
  middle of one when the handler is stopped. In the theory Handler, \<open>Handler_Stop\<close> is one step.
\<close>

section \<open>The goroutines\<close>

text \<open>Where the poll goroutine is: at the top of \<open>checkTaskState\<close>, waiting for the unit's state, waiting
  for its exit status, at the \<open>select\<close>, or returned.\<close>

datatype poll_at = PollTop | PollAsking | PollResolving UnitState | PollSelecting | PollReturned

text \<open>Where the log goroutine is: opening stdout for the \<open>i\<close>th time, sleeping before the next attempt,
  opening stderr, at the \<open>select\<close>, writing an entry, or returned.\<close>

datatype log_at =
    LogOpening nat
  | LogSleeping nat
  | LogOpeningStderr
  | LogSelecting
  | LogWriting LogEntry
  | LogReturned

datatype stop_at = NotStopping | StopWaiting | StopReturned

text \<open>\<open>fifo_full\<close>: a write does not return, as the reader of the FIFO has left it full. (A file opened
  with \<open>O_NONBLOCK\<close> belongs to Go's poller, and its \<open>Write\<close> waits there until it can write.)\<close>

record live =
  l_hnd :: handler
  poll :: poll_at
  logger :: log_at
  stopper :: stop_at
  wake_pending :: bool
  log_queue :: "LogEntry list"
  fifo_full :: bool

text \<open>A handler that has just been started.\<close>

definition startedLive :: "handler \<Rightarrow> live" where
  "startedLive h = \<lparr>l_hnd = h\<lparr>th_wg := th_wg h + 2\<rparr>, poll = PollTop, logger = LogOpening 0,
     stopper = NotStopping, wake_pending = False, log_queue = [], fifo_full = False\<rparr>"

text \<open>\<open>defer th.wg.Done()\<close>, for each of the two.\<close>

definition wgDone :: "handler \<Rightarrow> handler" where
  "wgDone h = h\<lparr>th_wg := th_wg h - 1\<rparr>"

definition pollReturns :: "live \<Rightarrow> live" where
  "pollReturns p = p\<lparr>l_hnd := wgDone (l_hnd p), poll := PollReturned\<rparr>"

definition logReturns :: "live \<Rightarrow> live" where
  "logReturns p = p\<lparr>l_hnd := wgDone (l_hnd p), logger := LogReturned\<rparr>"

section \<open>Polling\<close>

text \<open>The end of a check: the goroutine returns if the task has exited and selects again if not.\<close>

definition afterCheck :: "live \<Rightarrow> live" where
  "afterCheck p = (if HasExited (l_hnd p) then pollReturns p else p\<lparr>poll := PollSelecting\<rparr>)"

definition checkTop :: "live \<Rightarrow> live" where
  "checkTop p = (if HasExited (l_hnd p) then pollReturns p else p\<lparr>poll := PollAsking\<rparr>)"

text \<open>The answer to \<open>UnitState\<close>, up to the lookup of the exit status.\<close>

definition stateAnswered :: "error + UnitState \<Rightarrow> live \<Rightarrow> live" where
  "stateAnswered r p = (case r of
     Inl _ \<Rightarrow> p\<lparr>poll := PollSelecting\<rparr>
   | Inr st \<Rightarrow>
       (let p' = p\<lparr>l_hnd := snd (begin_change st (l_hnd p))\<rparr> in
        if fst (begin_change st (l_hnd p)) then p'\<lparr>poll := PollResolving st\<rparr> else afterCheck p'))"

text \<open>The exit result is there: publish it.\<close>

definition exitResolved :: "ExitResult \<Rightarrow> time \<Rightarrow> live \<Rightarrow> live" where
  "exitResolved r t p = afterCheck (p\<lparr>l_hnd := publish_exit r t (l_hnd p)\<rparr>)"

section \<open>Streaming logs\<close>

text \<open>The answer to the attempt to open stdout.\<close>

definition stdoutAnswered :: "bool \<Rightarrow> nat \<Rightarrow> live \<Rightarrow> live" where
  "stdoutAnswered opened i p =
     (if opened then p\<lparr>logger := LogOpeningStderr\<rparr>
      else if i < maxStdoutOpenRetries - 1 then p\<lparr>logger := LogSleeping i\<rparr>
      else logReturns p)"

section \<open>Every order of their steps\<close>

text \<open>Steps of the goroutines, and of \<open>Stop\<close> when the wait group is empty.\<close>

inductive own_step :: "live \<Rightarrow> live \<Rightarrow> bool" where
  checks: "poll p = PollTop \<Longrightarrow> own_step p (checkTop p)"
| state_answered: "poll p = PollAsking \<Longrightarrow> own_step p (stateAnswered r p)"
| exit_resolved: "poll p = PollResolving st \<Longrightarrow> own_step p (exitResolved r t p)"
| poll_ctx_done: "poll p = PollSelecting \<Longrightarrow> th_canceled (l_hnd p) \<Longrightarrow> own_step p (pollReturns p)"
| stdout_answered: "logger p = LogOpening i \<Longrightarrow> own_step p (stdoutAnswered opened i p)"
| slept: "logger p = LogSleeping i \<Longrightarrow> own_step p (p\<lparr>logger := LogOpening (i + 1)\<rparr>)"
| stderr_answered: "logger p = LogOpeningStderr \<Longrightarrow> own_step p (p\<lparr>logger := LogSelecting\<rparr>)"
| wrote: "logger p = LogWriting e \<Longrightarrow> \<not> fifo_full p \<Longrightarrow> own_step p (p\<lparr>logger := LogSelecting\<rparr>)"
| log_ctx_done: "logger p = LogSelecting \<Longrightarrow> th_canceled (l_hnd p) \<Longrightarrow> own_step p (logReturns p)"
| stop_returns: "stopper p = StopWaiting \<Longrightarrow> th_wg (l_hnd p) = 0 \<Longrightarrow> own_step p (p\<lparr>stopper := StopReturned\<rparr>)"

text \<open>The other cases of the two \<open>select\<close>s: a wake-up, a tick, an entry.\<close>

inductive receive_step :: "live \<Rightarrow> live \<Rightarrow> bool" where
  wakes_up: "poll p = PollSelecting \<Longrightarrow> wake_pending p \<Longrightarrow>
     receive_step p (p\<lparr>wake_pending := False, poll := PollTop\<rparr>)"
| ticks: "poll p = PollSelecting \<Longrightarrow> receive_step p (p\<lparr>poll := PollTop\<rparr>)"
| takes: "logger p = LogSelecting \<Longrightarrow> log_queue p = e # es \<Longrightarrow>
     receive_step p (p\<lparr>log_queue := es, logger := LogWriting e\<rparr>)"

text \<open>What others do: wake the handler, send it an entry, call \<open>Stop\<close>; the FIFO's reader stops or goes
  on reading.\<close>

inductive other_step :: "live \<Rightarrow> live \<Rightarrow> bool" where
  is_woken: "other_step p (p\<lparr>wake_pending := True\<rparr>)"
| is_sent: "length (log_queue p) < logChannelBufferSize \<Longrightarrow> other_step p (p\<lparr>log_queue := log_queue p @ [e]\<rparr>)"
| fills: "other_step p (p\<lparr>fifo_full := True\<rparr>)"
| stop_called: "stopper p = NotStopping \<Longrightarrow>
     other_step p (p\<lparr>l_hnd := (l_hnd p)\<lparr>th_canceled := True\<rparr>, stopper := StopWaiting\<rparr>)"

inductive live_step :: "live \<Rightarrow> live \<Rightarrow> bool" where
  by_own: "own_step p q \<Longrightarrow> live_step p q"
| by_receive: "receive_step p q \<Longrightarrow> live_step p q"
| by_other: "other_step p q \<Longrightarrow> live_step p q"
| drains: "live_step p (p\<lparr>fifo_full := False\<rparr>)"

inductive_cases own_stepE: "own_step p q"
inductive_cases receive_stepE: "receive_step p q"
inductive_cases other_stepE: "other_step p q"

end
