(* ===== verification/TeardownProps.thy ===== *)
theory TeardownProps
  imports Teardown
begin

text \<open>
  \<open>Handler.Stop\<close> returns, and not before both goroutines have: whatever they were in the middle of when it
  was called, and whatever wakes them up or sends them entries meanwhile, unless a write to a full
  FIFO holds the log goroutine.
\<close>

section \<open>The invariant\<close>

definition running :: "live \<Rightarrow> nat" where
  "running p = (if poll p = PollReturned then 0 else 1) + (if logger p = LogReturned then 0 else 1)"

definition live_inv :: "live \<Rightarrow> bool" where
  "live_inv p \<longleftrightarrow> th_wg (l_hnd p) = running p \<and>
     (th_canceled (l_hnd p) \<longleftrightarrow> stopper p \<noteq> NotStopping) \<and>
     (stopper p = StopReturned \<longrightarrow> running p = 0) \<and>
     (\<forall>i. logger p = LogOpening i \<longrightarrow> i < maxStdoutOpenRetries) \<and>
     (\<forall>i. logger p = LogSleeping i \<longrightarrow> i + 1 < maxStdoutOpenRetries) \<and>
     (\<forall>st. poll p = PollResolving st \<longrightarrow> \<not> HasExited (l_hnd p))"

lemma handler_frame [simp]:
  "th_wg (wgDone h) = th_wg h - 1" "th_canceled (wgDone h) = th_canceled h" "HasExited (wgDone h) = HasExited h"
  "th_wg (snd (begin_change st h)) = th_wg h" "th_canceled (snd (begin_change st h)) = th_canceled h"
  "th_wg (publish_exit r t h) = th_wg h" "th_canceled (publish_exit r t h) = th_canceled h"
  "HasExited (publish_exit r t h)"
  by (auto simp: wgDone_def begin_change_def publish_exit_def close_wait_def HasExited_def Let_def)

lemma resolves_running: "fst (begin_change st h) \<Longrightarrow> \<not> HasExited (snd (begin_change st h))"
  by (auto simp: begin_change_def HasExited_def Let_def split: if_splits)

lemmas step_defs = pollReturns_def logReturns_def afterCheck_def checkTop_def stateAnswered_def exitResolved_def
  stdoutAnswered_def Let_def

lemma returns_inv:
  "live_inv p \<Longrightarrow> poll p \<noteq> PollReturned \<Longrightarrow> live_inv (pollReturns p)"
  "live_inv p \<Longrightarrow> logger p \<noteq> LogReturned \<Longrightarrow> live_inv (logReturns p)"
  by (auto simp: live_inv_def running_def pollReturns_def logReturns_def)

lemma poll_moves:
  assumes "live_inv p" "poll p \<noteq> PollReturned" "a \<noteq> PollReturned"
    and "th_wg h = th_wg (l_hnd p)" "th_canceled h = th_canceled (l_hnd p)"
    and "\<And>st. a = PollResolving st \<Longrightarrow> \<not> HasExited h"
  shows "live_inv (p\<lparr>l_hnd := h, poll := a\<rparr>)"
  using assms by (simp add: live_inv_def running_def)

lemma log_moves:
  assumes "live_inv p" "logger p \<noteq> LogReturned" "a \<noteq> LogReturned"
    and "\<And>i. a = LogOpening i \<Longrightarrow> i < maxStdoutOpenRetries" "\<And>i. a = LogSleeping i \<Longrightarrow> i + 1 < maxStdoutOpenRetries"
  shows "live_inv (p\<lparr>logger := a\<rparr>)"
  using assms by (simp add: live_inv_def running_def)

lemma afterCheck_inv:
  assumes "live_inv p" "poll p \<noteq> PollReturned" "th_wg h = th_wg (l_hnd p)" "th_canceled h = th_canceled (l_hnd p)"
  shows "live_inv (afterCheck (p\<lparr>l_hnd := h\<rparr>))"
proof (cases "HasExited h")
  case True
  have "live_inv (p\<lparr>l_hnd := h, poll := PollTop\<rparr>)"
    by (rule poll_moves [OF assms(1,2) _ assms(3,4)]) simp_all
  from returns_inv(1) [OF this] True show ?thesis
    by (simp add: afterCheck_def pollReturns_def)
next
  case False
  then show ?thesis
    using poll_moves [OF assms(1,2) _ assms(3,4), of PollSelecting] by (simp add: afterCheck_def)
qed

lemma own_step_inv: "own_step p q \<Longrightarrow> live_inv p \<Longrightarrow> live_inv q"
proof (induction rule: own_step.induct)
  case (checks p)
  then show ?case
    using poll_moves [of p PollAsking "l_hnd p"] by (simp add: checkTop_def returns_inv)
next
  case (state_answered p r)
  then show ?case
    using poll_moves [of p PollSelecting "l_hnd p"] poll_moves [of p "PollResolving st" "snd (begin_change st (l_hnd p))" for st]
    by (simp add: stateAnswered_def Let_def afterCheck_inv resolves_running split: sum.split)
next
  case (exit_resolved p st r t)
  then show ?case
    by (simp add: exitResolved_def afterCheck_inv)
next
  case (stdout_answered p i opened)
  then show ?case
    by (auto simp: stdoutAnswered_def intro!: log_moves returns_inv)
next
  case (slept p i)
  then show ?case
    by (auto simp: live_inv_def running_def)
next
  case (stop_returns p)
  then show ?case
    by (simp add: live_inv_def running_def)
qed (auto intro!: log_moves returns_inv)

lemma receive_step_inv: "receive_step p q \<Longrightarrow> live_inv p \<Longrightarrow> live_inv q"
  by (induction rule: receive_step.induct) (auto simp: live_inv_def running_def)

lemma other_step_inv: "other_step p q \<Longrightarrow> live_inv p \<Longrightarrow> live_inv q"
  by (induction rule: other_step.induct) (auto simp: live_inv_def running_def HasExited_def)

lemma live_step_inv: "live_step p q \<Longrightarrow> live_inv p \<Longrightarrow> live_inv q"
proof (induction rule: live_step.induct)
  case (drains p)
  then show ?case
    by (simp add: live_inv_def running_def)
qed (rule own_step_inv receive_step_inv other_step_inv, assumption+)+

text \<open>From a handler that was made and not started yet.\<close>

definition live_reachable :: "handler \<Rightarrow> live \<Rightarrow> bool" where
  "live_reachable h p \<longleftrightarrow> th_wg h = 0 \<and> \<not> th_canceled h \<and> live_step\<^sup>*\<^sup>* (startedLive h) p"

lemma live_inv_reachable: "live_reachable h p \<Longrightarrow> live_inv p"
proof -
  assume p: "live_reachable h p"
  then have "live_step\<^sup>*\<^sup>* (startedLive h) p"
    by (simp add: live_reachable_def)
  moreover have "live_inv (startedLive h)"
    using p by (simp add: live_reachable_def live_inv_def running_def startedLive_def maxStdoutOpenRetries_def)
  ultimately show "live_inv p"
    by (induction rule: rtranclp_induct) (simp_all add: live_step_inv)
qed

section \<open>What is left\<close>

text \<open>How many steps \<open>Stop\<close> and the goroutines have left if they receive nothing any more.\<close>

fun poll_left :: "poll_at \<Rightarrow> nat" where
  "poll_left PollReturned = 0"
| "poll_left PollSelecting = 1"
| "poll_left (PollResolving st) = 1"
| "poll_left PollAsking = 2"
| "poll_left PollTop = 3"

fun log_left :: "log_at \<Rightarrow> nat" where
  "log_left LogReturned = 0"
| "log_left LogSelecting = 1"
| "log_left (LogWriting e) = 2"
| "log_left LogOpeningStderr = 2"
| "log_left (LogSleeping i) = 2 * (maxStdoutOpenRetries - i)"
| "log_left (LogOpening i) = 2 * (maxStdoutOpenRetries - i) + 1"

definition stop_left :: "live \<Rightarrow> nat" where
  "stop_left p = poll_left (poll p) + log_left (logger p) + (if stopper p = StopReturned then 0 else 1)"

lemma own_step_left: "own_step p q \<Longrightarrow> live_inv p \<Longrightarrow> stop_left q < stop_left p"
  by (induction rule: own_step.induct)
     (auto simp: stop_left_def live_inv_def step_defs split: sum.split)

lemma receive_step_left: "receive_step p q \<Longrightarrow> stop_left q \<le> stop_left p + 2"
  by (induction rule: receive_step.induct) (auto simp: stop_left_def)

lemma other_step_left: "other_step p q \<Longrightarrow> stop_left q = stop_left p"
  by (induction rule: other_step.induct) (auto simp: stop_left_def)

lemma stop_left_bound: "live_inv p \<Longrightarrow> stop_left p \<le> 15"
  by (cases "poll p"; cases "logger p") (auto simp: stop_left_def maxStdoutOpenRetries_def)

section \<open>Stop returns\<close>

text \<open>Nothing but the FIFO's reader can help.\<close>

definition write_blocked :: "live \<Rightarrow> bool" where
  "write_blocked p \<longleftrightarrow> poll p = PollReturned \<and> (\<exists>e. logger p = LogWriting e) \<and> fifo_full p"

lemma poll_enabled: "th_canceled (l_hnd p) \<Longrightarrow> poll p \<noteq> PollReturned \<Longrightarrow> \<exists>q. own_step p q"
  by (cases "poll p") (blast intro: own_step.intros)+

lemma log_enabled:
  "th_canceled (l_hnd p) \<Longrightarrow> logger p \<noteq> LogReturned \<Longrightarrow> \<not> ((\<exists>e. logger p = LogWriting e) \<and> fifo_full p) \<Longrightarrow>
   \<exists>q. own_step p q"
  by (cases "logger p") (blast intro: own_step.intros)+

lemma stop_enabled:
  assumes "live_inv p" "stopper p = StopWaiting"
  shows "(\<exists>q. own_step p q) \<longleftrightarrow> \<not> write_blocked p"
proof
  show "\<not> write_blocked p" if "\<exists>q. own_step p q"
    using that assms by (auto simp: write_blocked_def live_inv_def running_def elim!: own_stepE)
  show "\<exists>q. own_step p q" if "\<not> write_blocked p"
  proof (cases "running p = 0")
    case True
    then show ?thesis
      using assms stop_returns [of p] by (auto simp: live_inv_def)
  next
    case False
    then show ?thesis
      using assms that poll_enabled [of p] log_enabled [of p]
      by (auto simp: live_inv_def running_def write_blocked_def split: if_splits)
  qed
qed

lemma own_step_frame:
  "own_step p q \<Longrightarrow> fifo_full q = fifo_full p \<and> (stopper p = StopWaiting \<longrightarrow> stopper q \<noteq> NotStopping)"
  by (induction rule: own_step.induct) (auto simp: step_defs split: sum.split)

lemma stop_finishes:
  "live_inv p \<Longrightarrow> stopper p = StopWaiting \<Longrightarrow> \<not> fifo_full p \<Longrightarrow>
   \<exists>n q. n \<le> stop_left p \<and> (own_step ^^ n) p q \<and> stopper q = StopReturned"
proof (induction "stop_left p" arbitrary: p rule: less_induct)
  case less
  then obtain q where q: "own_step p q"
    using stop_enabled [of p] by (auto simp: write_blocked_def)
  have "stopper q = StopReturned \<or> stopper q = StopWaiting" "\<not> fifo_full q"
    using own_step_frame [OF q] less.prems by (cases "stopper q"; simp)+
  then consider "stopper q = StopReturned" | n v where "n \<le> stop_left q" "(own_step ^^ n) q v" "stopper v = StopReturned"
    using less.hyps [OF own_step_left [OF q less.prems(1)] own_step_inv [OF q less.prems(1)]] by blast
  then show ?case
  proof cases
    case 1
    then show ?thesis
      using q own_step_left [OF q less.prems(1)] relpowp_1 [of own_step] by (intro exI [of _ 1] exI [of _ q]) simp
  next
    case (2 n v)
    then have "(own_step ^^ Suc n) p v"
      using q by (metis relpowp_Suc_I2)
    then show ?thesis
      using 2 own_step_left [OF q less.prems(1)] by (intro exI [of _ "Suc n"] exI [of _ v]) simp
  qed
qed

text \<open>C15: \<open>Handler.Stop\<close> waits for exactly the goroutines \<open>Start\<close> spawned: when it returns, both have
  returned, and the handler is as \<open>Handler_Stop\<close> leaves it. While it waits, some step of the
  goroutines or its own return is possible unless the log goroutine is in a write to a full FIFO
  and the other has returned. If writes return, it returns after at most 15 such steps when they
  take the end of their context; each step but the receipt of a wake-up, a tick or an entry brings
  it closer, a receipt sets it back by at most two, and nothing else by any.\<close>

theorem handler_stop_returns:
  assumes "live_reachable h p"
  shows "(stopper p = StopReturned \<longrightarrow> poll p = PollReturned \<and> logger p = LogReturned \<and>
      l_hnd p = Handler_Stop (l_hnd p)) \<and>
    (stopper p = StopWaiting \<longrightarrow>
      ((\<exists>q. own_step p q) \<longleftrightarrow> \<not> write_blocked p) \<and>
      (\<not> fifo_full p \<longrightarrow> (\<exists>n q. n \<le> 15 \<and> (own_step ^^ n) p q \<and> stopper q = StopReturned))) \<and>
    stop_left p \<le> 15 \<and>
    (\<forall>q. (own_step p q \<longrightarrow> stop_left q < stop_left p) \<and> (receive_step p q \<longrightarrow> stop_left q \<le> stop_left p + 2) \<and>
       (other_step p q \<longrightarrow> stop_left q = stop_left p)) \<and>
    stop_left (p\<lparr>fifo_full := False\<rparr>) = stop_left p"
proof -
  note inv = live_inv_reachable [OF assms]
  have "poll p = PollReturned \<and> logger p = LogReturned \<and> l_hnd p = Handler_Stop (l_hnd p)" if "stopper p = StopReturned"
    using that inv by (auto simp: live_inv_def running_def Handler_Stop_def split: if_splits)
  moreover have "\<exists>n q. n \<le> 15 \<and> (own_step ^^ n) p q \<and> stopper q = StopReturned"
    if "stopper p = StopWaiting" "\<not> fifo_full p"
    using stop_finishes [OF inv that] stop_left_bound [OF inv] by (meson order_trans)
  ultimately show ?thesis
    using stop_enabled [OF inv] stop_left_bound [OF inv] own_step_left [OF _ inv] receive_step_left other_step_left
    by (simp add: stop_left_def)
qed

text \<open>A recovered task's handler, made for an exited unit, is stopped at once.\<close>

definition sample_exited :: handler where
  "sample_exited = \<lparr>th_id = 0, th_taskID = ''t1'', th_Unit = ''a.service'', th_units = 0, th_wakeCh = None,
     th_handle = \<lparr>Version = 1, Config = \<lparr>ID = ''t1'', AllocID = '''', Name = '''', rawDriverConfig = '''',
       StdoutPath = '''', StderrPath = ''''\<rparr>, DriverState = ''''\<rparr>,
     th_state = TaskStateExited, th_startedAt = None, th_completedAt = Some 0, th_exitResult = None,
     th_exitOnce = True, th_closes = 1, th_canceled = False, th_wg = 0\<rparr>"

definition stopping_at_once :: live where
  "stopping_at_once = (startedLive sample_exited)\<lparr>l_hnd := (l_hnd (startedLive sample_exited))\<lparr>th_canceled := True\<rparr>,
     stopper := StopWaiting\<rparr>"

lemma stop_at_once: "live_reachable sample_exited stopping_at_once"
  using by_other [OF stop_called, of "startedLive sample_exited"]
  by (auto simp: live_reachable_def stopping_at_once_def sample_exited_def startedLive_def)

theorem handler_stop_returns_witness:
  "\<exists>n q. n \<le> 15 \<and> (own_step ^^ n) stopping_at_once q \<and> stopper q = StopReturned"
  using handler_stop_returns [OF stop_at_once] by (simp add: stopping_at_once_def startedLive_def)

section \<open>A FIFO that is not read\<close>

text \<open>Every step but the FIFO's reader going on.\<close>

definition undrained :: "live \<Rightarrow> live \<Rightarrow> bool" where
  "undrained p q \<longleftrightarrow> own_step p q \<or> receive_step p q \<or> other_step p q"

lemma blocked_stays:
  assumes "undrained p q" "live_inv p" "write_blocked p" "stopper p = StopWaiting"
  shows "write_blocked q \<and> stopper q = StopWaiting"
proof -
  have "\<not> own_step p q"
    using stop_enabled [OF assms(2,4)] assms(3) by blast
  then show ?thesis
    using assms by (auto simp: undrained_def write_blocked_def elim!: receive_stepE other_stepE)
qed

lemma undrained_live: "undrained p q \<Longrightarrow> live_step p q"
  by (auto simp: undrained_def intro: live_step.intros)

text \<open>The log goroutine has an entry to write, the FIFO is full and the handler is stopped.\<close>

definition full_at :: "poll_at \<Rightarrow> handler \<Rightarrow> LogEntry \<Rightarrow> live" where
  "full_at a h e = \<lparr>l_hnd = h, poll = a, logger = LogWriting e, stopper = StopWaiting, wake_pending = False,
     log_queue = [], fifo_full = True\<rparr>"

lemma reaches_full: "live_step\<^sup>*\<^sup>* (startedLive h) (full_at PollTop (h\<lparr>th_wg := th_wg h + 2, th_canceled := True\<rparr>) e)"
proof -
  let ?p = "\<lambda>a q f. (startedLive h)\<lparr>logger := a, log_queue := q, fifo_full := f\<rparr>"
  note [trans] = rtranclp.rtrancl_into_rtrancl
  have "live_step\<^sup>*\<^sup>* (startedLive h) (startedLive h)" by simp
  also have "live_step (startedLive h) (?p LogOpeningStderr [] False)"
    using by_own [OF stdout_answered, of "startedLive h" 0 True] by (simp add: startedLive_def stdoutAnswered_def)
  also have "live_step (?p LogOpeningStderr [] False) (?p LogSelecting [] False)"
    using by_own [OF stderr_answered, of "?p LogOpeningStderr [] False"] by (simp add: startedLive_def)
  also have "live_step (?p LogSelecting [] False) (?p LogSelecting [e] False)"
    using by_other [OF is_sent, of "?p LogSelecting [] False" e] by (simp add: startedLive_def logChannelBufferSize_def)
  also have "live_step (?p LogSelecting [e] False) (?p (LogWriting e) [] False)"
    using by_receive [OF takes, of "?p LogSelecting [e] False" e "[]"] by (simp add: startedLive_def)
  also have "live_step (?p (LogWriting e) [] False) (?p (LogWriting e) [] True)"
    using by_other [OF fills, of "?p (LogWriting e) [] False"] by (simp add: startedLive_def)
  also have "live_step (?p (LogWriting e) [] True) (full_at PollTop (h\<lparr>th_wg := th_wg h + 2, th_canceled := True\<rparr>) e)"
    using by_other [OF stop_called, of "?p (LogWriting e) [] True"] by (simp add: startedLive_def full_at_def)
  finally show ?thesis .
qed

lemma full_blocks:
  assumes "th_canceled h"
  shows "\<exists>q. live_step\<^sup>*\<^sup>* (full_at PollTop h e) q \<and> write_blocked q \<and> stopper q = StopWaiting"
proof (cases "HasExited h")
  case True
  then have "live_step (full_at PollTop h e) (full_at PollReturned (wgDone h) e)"
    using by_own [OF checks, of "full_at PollTop h e"] by (simp add: full_at_def checkTop_def pollReturns_def)
  then show ?thesis
    by (intro exI [of _ "full_at PollReturned (wgDone h) e"]) (auto simp: write_blocked_def full_at_def)
next
  case False
  then have "live_step (full_at PollTop h e) (full_at PollAsking h e)"
    using by_own [OF checks, of "full_at PollTop h e"] by (simp add: full_at_def checkTop_def)
  moreover have "live_step (full_at PollAsking h e) (full_at PollSelecting h e)"
    using by_own [OF state_answered, of "full_at PollAsking h e" "Inl ErrTaskNotFound"]
    by (simp add: full_at_def stateAnswered_def)
  moreover have "live_step (full_at PollSelecting h e) (full_at PollReturned (wgDone h) e)"
    using by_own [OF poll_ctx_done, of "full_at PollSelecting h e"] assms by (simp add: full_at_def pollReturns_def)
  ultimately have "live_step\<^sup>*\<^sup>* (full_at PollTop h e) (full_at PollReturned (wgDone h) e)"
    by simp
  then show ?thesis
    by (intro exI [of _ "full_at PollReturned (wgDone h) e"]) (auto simp: write_blocked_def full_at_def)
qed

text \<open>C24: A FIFO that nobody reads holds \<open>Handler.Stop\<close>, and with it \<open>DestroyTask\<close> (a shutdown until its
  timeout): every handler can get to where the log goroutine waits to write to a full FIFO while
  \<open>Stop\<close> waits for it, and then, whatever else happens, \<open>Stop\<close> does not return until the FIFO is
  read. The write is not bounded by the handler's context.\<close>

theorem full_fifo_holds_stop:
  assumes "th_wg h = 0" "\<not> th_canceled h"
  shows "\<exists>p. live_reachable h p \<and> stopper p = StopWaiting \<and> th_canceled (l_hnd p) \<and>
    (\<forall>q. undrained\<^sup>*\<^sup>* p q \<longrightarrow> stopper q = StopWaiting)"
proof -
  obtain p where p: "live_step\<^sup>*\<^sup>* (startedLive h) p" "write_blocked p" "stopper p = StopWaiting"
    using full_blocks [of "h\<lparr>th_wg := th_wg h + 2, th_canceled := True\<rparr>"] rtranclp_trans [OF reaches_full]
    by (metis (no_types, lifting) handler.select_convs(13) handler.surjective handler.update_convs(13))
  then have reach: "live_reachable h p"
    using assms by (simp add: live_reachable_def)
  note inv = live_inv_reachable [OF reach]
  have "live_inv q \<and> write_blocked q \<and> stopper q = StopWaiting" if "undrained\<^sup>*\<^sup>* p q" for q
    using that
  proof (induction rule: rtranclp_induct)
    case base
    then show ?case using inv p by simp
  next
    case (step q v)
    then show ?case
      using blocked_stays live_step_inv undrained_live by blast
  qed
  then show ?thesis
    using reach p(3) inv by (auto simp: live_inv_def)
qed

theorem full_fifo_holds_stop_witness:
  "\<exists>p. live_reachable sample_exited p \<and> stopper p = StopWaiting \<and>
     {q. undrained\<^sup>*\<^sup>* p q} \<subseteq> {q. stopper q = StopWaiting}"
  using full_fifo_holds_stop [of sample_exited] by (auto simp: sample_exited_def)

end
