(* ===== verification/GoTime.thy ===== *)
theory GoTime
  imports GoStrings
begin

text \<open>
  What the source uses of Go's \<open>time.Time\<close>: its RFC 3339 text. A time is a count of seconds since
  1970 with the offset of its zone; nanoseconds are not part of the text.
\<close>

section \<open>The Gregorian calendar\<close>

definition leap :: "int \<Rightarrow> bool" where
  "leap y \<longleftrightarrow> y mod 4 = 0 \<and> (y mod 100 \<noteq> 0 \<or> y mod 400 = 0)"

text \<open>Days from the first of January of the year 1 to that of another year, and the days of a year
  before each month.\<close>

definition days_before_year :: "int \<Rightarrow> int" where
  "days_before_year y = 365 * (y - 1) + (y - 1) div 4 - (y - 1) div 100 + (y - 1) div 400"

definition month_starts :: "bool \<Rightarrow> int list" where
  "month_starts lp = (if lp then [0, 31, 60, 91, 121, 152, 182, 213, 244, 274, 305, 335]
     else [0, 31, 59, 90, 120, 151, 181, 212, 243, 273, 304, 334])"

definition days_from_civil :: "int \<times> nat \<times> int \<Rightarrow> int" where
  "days_from_civil ymd = (case ymd of (y, m, d) \<Rightarrow>
     days_before_year y + month_starts (leap y) ! (m - 1) + (d - 1) - 719162)"

text \<open>The date of a day since 1970: cycles of 400, 100, 4 and 1 years are taken off in turn.\<close>

definition year_and_day :: "int \<Rightarrow> int \<times> int" where
  "year_and_day n =
     (let n400 = n div 146097; r = n mod 146097;
          n100 = min 3 (r div 36524); r = r - 36524 * n100;
          n4 = r div 1461; r = r mod 1461;
          n1 = min 3 (r div 365)
      in (400 * n400 + 100 * n100 + 4 * n4 + n1 + 1, r - 365 * n1))"

definition civil_from_days :: "int \<Rightarrow> int \<times> nat \<times> int" where
  "civil_from_days n =
     (case year_and_day (n + 719162) of (y, yday) \<Rightarrow>
        let starts = takeWhile (\<lambda>s. s \<le> yday) (month_starts (leap y))
        in (y, length starts, yday - last starts + 1))"

section \<open>RFC 3339\<close>

record go_time =
  unix_sec :: int
  zone_offset :: int

definition padded :: "nat \<Rightarrow> int \<Rightarrow> string" where
  "padded width n =
     (let ds = show_nat (nat \<bar>n\<bar>)
      in (if n < 0 then ''-'' else '''') @ replicate (width - length ds) (CHR ''0'') @ ds)"

text \<open>\<open>offset / 60\<close> rounds towards zero.\<close>

definition zone_text :: "int \<Rightarrow> string" where
  "zone_text offset =
     (if offset = 0 then ''Z''
      else let z = \<bar>offset\<bar> div 60
           in (if offset < 0 \<and> z \<noteq> 0 then ''-'' else ''+'') @ padded 2 (z div 60) @ '':'' @ padded 2 (z mod 60))"

definition formatRFC3339 :: "go_time \<Rightarrow> string" where
  "formatRFC3339 t =
     (let local = unix_sec t + zone_offset t; s = local mod 86400
      in case civil_from_days (local div 86400) of (y, m, d) \<Rightarrow>
        padded 4 y @ ''-'' @ padded 2 (int m) @ ''-'' @ padded 2 d @ ''T'' @
        padded 2 (s div 3600) @ '':'' @ padded 2 (s mod 3600 div 60) @ '':'' @ padded 2 (s mod 60) @
        zone_text (zone_offset t))"

section \<open>The date determines the day\<close>

lemma capped:
  fixes r k :: int
  assumes "0 \<le> r" "0 < k"
  shows "0 \<le> min 3 (r div k)" "k * min 3 (r div k) \<le> r" "min 3 (r div k) \<noteq> 3 \<Longrightarrow> r - k * min 3 (r div k) < k"
proof -
  have div: "r = k * (r div k) + r mod k" "0 \<le> r mod k" "r mod k < k" "0 \<le> r div k"
    using assms by (simp_all add: pos_imp_zdiv_nonneg_iff)
  then show "0 \<le> min 3 (r div k)"
    by simp
  have "k * min 3 (r div k) \<le> k * (r div k)"
    using assms(2) by (intro mult_left_mono) simp_all
  then show "k * min 3 (r div k) \<le> r"
    using div by linarith
  show "r - k * min 3 (r div k) < k" if "min 3 (r div k) \<noteq> 3"
  proof -
    have "min 3 (r div k) = r div k"
      using that by linarith
    then show ?thesis
      using div(3) by (simp add: minus_mult_div_eq_mod)
  qed
qed

lemma cycle_end:
  fixes x k y q :: int
  assumes "0 \<le> x" "x < k" "y = k * q + x + 1"
  shows "y mod k = 0 \<longleftrightarrow> x = k - 1"
proof -
  have "y mod k = (x + 1) mod k"
    using assms(3) by (simp add: mod_mult_self3 add.assoc)
  then show ?thesis
    using assms(1,2) by (cases "x + 1 = k") auto
qed

lemma year_and_day_days:
  assumes "year_and_day n = (y, yday)"
  shows "n = days_before_year y + yday" "0 \<le> yday" "yday < (if leap y then 366 else 365)"
proof -
  define a r where "a = n div 146097" and "r = n mod 146097"
  define b r2 where "b = min 3 (r div 36524)" and "r2 = r - 36524 * b"
  define c r3 where "c = r2 div 1461" and "r3 = r2 mod 1461"
  define e where "e = min 3 (r3 div 365)"
  have "year_and_day n = (400 * a + 100 * b + 4 * c + e + 1, r3 - 365 * e)"
    unfolding year_and_day_def Let_def a_def r_def b_def r2_def c_def r3_def e_def by (rule refl)
  then have y: "y = 400 * a + 100 * b + 4 * c + e + 1" and yday: "yday = r3 - 365 * e"
    using assms by simp_all
  have n: "n = 146097 * a + r" "0 \<le> r" "r < 146097"
    by (simp_all add: a_def r_def)
  have b: "0 \<le> b" "b \<le> 3" "0 \<le> r2" "r2 \<le> 36524" "b \<noteq> 3 \<Longrightarrow> r2 < 36524" "r = 36524 * b + r2"
  proof -
    note cap = capped [OF n(2), of 36524, folded b_def]
    show "0 \<le> b" "b \<le> 3" "0 \<le> r2" "b \<noteq> 3 \<Longrightarrow> r2 < 36524" "r = 36524 * b + r2"
      using cap by (simp_all add: r2_def) (simp add: b_def)
    show "r2 \<le> 36524"
      using cap(3) n(3) by (cases "b = 3") (simp_all add: r2_def)
  qed
  have c: "0 \<le> c" "c \<le> 24" "0 \<le> r3" "r3 < 1461" "r2 = 1461 * c + r3"
    using b(3,4) by (simp_all add: c_def r3_def)
  have e: "0 \<le> e" "e \<le> 3" "r3 = 365 * e + yday" "0 \<le> yday" "yday \<le> 365" "e \<noteq> 3 \<Longrightarrow> yday < 365"
  proof -
    note cap = capped [OF c(3), of 365, folded e_def]
    show "0 \<le> e" "e \<le> 3" "r3 = 365 * e + yday" "0 \<le> yday" "e \<noteq> 3 \<Longrightarrow> yday < 365"
      using cap by (simp_all add: yday) (simp add: e_def)
    show "yday \<le> 365"
      using cap(3) c(4) by (cases "e = 3") (simp_all add: yday)
  qed
  have div: "(y - 1) div 4 = 100 * a + 25 * b + c" "(y - 1) div 100 = 4 * a + b" "(y - 1) div 400 = a"
    using b(1,2) c(1,2) e(1,2) unfolding y
    by (auto intro!: int_div_pos_eq [where r = e] int_div_pos_eq [where r = "4 * c + e"]
        int_div_pos_eq [where r = "100 * b + 4 * c + e"])
  have "days_before_year y = 365 * (y - 1) + (100 * a + 25 * b + c) - (4 * a + b) + a"
    unfolding days_before_year_def div by (rule refl)
  then show "n = days_before_year y + yday"
    using n(1) b(6) c(5) e(3) unfolding y by (simp add: algebra_simps)
  show "0 \<le> yday"
    by (rule e(4))
  have "y mod 4 = 0 \<longleftrightarrow> e = 4 - 1"
    by (rule cycle_end [where q = "100 * a + 25 * b + c"]) (use e(1,2) y in \<open>simp add: algebra_simps\<close>)+
  moreover have "y mod 100 = 0 \<longleftrightarrow> 4 * c + e = 100 - 1"
    by (rule cycle_end [where q = "4 * a + b"]) (use c(1,2) e(1,2) y in \<open>simp add: algebra_simps\<close>)+
  moreover have "y mod 400 = 0 \<longleftrightarrow> 100 * b + 4 * c + e = 400 - 1"
    by (rule cycle_end [where q = a]) (use b(1,2) c(1,2) e(1,2) y in \<open>simp add: algebra_simps\<close>)+
  moreover have last4: "4 * c + e = 99 \<longleftrightarrow> c = 24 \<and> e = 3"
    using c(1,2) e(1,2) by (cases "c = 24") auto
  moreover have "100 * b + 4 * c + e = 399 \<longleftrightarrow> b = 3 \<and> c = 24 \<and> e = 3"
    using b(1,2) c(1,2) e(1,2) last4 by (cases "b = 3") auto
  ultimately have "leap y \<longleftrightarrow> e = 3 \<and> (c \<noteq> 24 \<or> b = 3)"
    unfolding leap_def by auto
  moreover have "yday < 365" if "c = 24" "b \<noteq> 3"
    using b(5) c(5) e that by (cases "e = 3") auto
  ultimately show "yday < (if leap y then 366 else 365)"
    using e by auto
qed

lemma civil_roundtrip: "days_from_civil (civil_from_days n) = n"
proof -
  obtain y yday where y: "year_and_day (n + 719162) = (y, yday)"
    by fastforce
  note d = year_and_day_days [OF y]
  let ?starts = "takeWhile (\<lambda>s. s \<le> yday) (month_starts (leap y))"
  have "0 < length ?starts"
    using d(2) by (simp add: month_starts_def)
  then have "last ?starts = month_starts (leap y) ! (length ?starts - 1)"
    by (simp add: last_conv_nth takeWhile_nth)
  then show ?thesis
    using d(1) y by (simp add: civil_from_days_def days_from_civil_def Let_def)
qed

end
