(* ===== verification/Logx.thy ===== *)
theory Logx
  imports GoTime
begin

text \<open>
  \<open>pkg/logx\<close> and \<open>pkg/logx/semconv\<close>: the attributes of log records and how they become the
  alternating keys and values hclog takes. An hclog logger is a parameter (what \<open>With\<close> and
  \<open>Named\<close> make of it, and which levels it writes); a record is what a level method passes to it.
\<close>

section \<open>Attributes\<close>

text \<open>A value of type \<open>any\<close> by its dynamic type; \<open>AOther\<close> is a value of any other type.\<close>

datatype any =
    ANil
  | AString string
  | AStrings "string list"
  | AInt64 "64 word"
  | AUint64 "64 word"
  | AFloat64 "64 word"
  | ABool bool
  | AOther string

datatype Attr = Attr (attr_key: string) (attr_value: any) (attr_group: "Attr list")

abbreviation zero_Attr :: Attr where
  "zero_Attr \<equiv> Attr '''' ANil []"

definition String_attr :: "string \<Rightarrow> string \<Rightarrow> Attr" where
  "String_attr key val = Attr key (AString val) []"

definition Strings_attr :: "string \<Rightarrow> string list \<Rightarrow> Attr" where
  "Strings_attr key val = Attr key (AStrings val) []"

text \<open>\<open>int\<close> has 64 bits on the platforms the driver runs on.\<close>

definition Int_attr :: "string \<Rightarrow> 64 word \<Rightarrow> Attr" where
  "Int_attr key val = Attr key (AInt64 val) []"

definition Int64_attr :: "string \<Rightarrow> 64 word \<Rightarrow> Attr" where
  "Int64_attr key val = Attr key (AInt64 val) []"

definition Uint64_attr :: "string \<Rightarrow> 64 word \<Rightarrow> Attr" where
  "Uint64_attr key val = Attr key (AUint64 val) []"

definition Float64_attr :: "string \<Rightarrow> 64 word \<Rightarrow> Attr" where
  "Float64_attr key val = Attr key (AFloat64 val) []"

definition Bool_attr :: "string \<Rightarrow> bool \<Rightarrow> Attr" where
  "Bool_attr key val = Attr key (ABool val) []"

definition Any_attr :: "string \<Rightarrow> any \<Rightarrow> Attr" where
  "Any_attr key val = Attr key val []"

text \<open>A \<open>fmt.Stringer\<close> is \<open>None\<close> when nil, and otherwise what its \<open>String\<close> returns.\<close>

definition Stringer_attr :: "string \<Rightarrow> string option \<Rightarrow> Attr" where
  "Stringer_attr key val =
     (case val of None \<Rightarrow> Attr key (AString '''') [] | Some s \<Rightarrow> Attr key (AString s) [])"

definition Multi :: "Attr list \<Rightarrow> Attr" where
  "Multi attrs = Attr '''' ANil attrs"

text \<open>What the source uses of an \<open>error\<close>: its message and the name of its dynamic type.\<close>

record goerror =
  err_Error :: string
  err_Type :: string

definition NamedErr :: "string \<Rightarrow> goerror option \<Rightarrow> Attr" where
  "NamedErr key err =
     (case err of
        None \<Rightarrow> zero_Attr
      | Some e \<Rightarrow> Multi [String_attr (key @ ''.message'') (err_Error e),
                          String_attr (key @ ''.type'') (err_Type e)])"

definition Err_attr :: "goerror option \<Rightarrow> Attr" where
  "Err_attr err = NamedErr ''error'' err"

subsection \<open>Durations\<close>

text \<open>\<open>time.Duration.String\<close>: the fraction of \<open>n\<close> at \<open>prec\<close> decimal places, without trailing zeros.\<close>

definition fmtFrac :: "nat \<Rightarrow> nat \<Rightarrow> string" where
  "fmtFrac n prec =
     (let ds = show_nat (n mod 10 ^ prec);
          padded = replicate (prec - length ds) (CHR ''0'') @ ds;
          kept = rev (dropWhile (\<lambda>c. c = CHR ''0'') (rev padded))
      in if kept = [] then [] else CHR ''.'' # kept)"

definition durationString :: "int \<Rightarrow> string" where
  "durationString d =
     (let u = nat \<bar>d\<bar>; sign = (if d < 0 then ''-'' else '''') in
      if u = 0 then ''0s''
      else if u < 1000 then sign @ show_nat u @ ''ns''
      else if u < 1000000 then sign @ show_nat (u div 1000) @ fmtFrac u 3 @ [CHR 0xC2, CHR 0xB5] @ ''s''
      else if u < 1000000000 then sign @ show_nat (u div 1000000) @ fmtFrac u 6 @ ''ms''
      else (let s = u div 1000000000; m = s div 60; h = m div 60;
                secs = show_nat (s mod 60) @ fmtFrac u 9 @ ''s''
            in sign @ (if m = 0 then secs
                       else if h = 0 then show_nat m @ ''m'' @ secs
                       else show_nat h @ ''h'' @ show_nat (m mod 60) @ ''m'' @ secs)))"

definition Duration_attr :: "string \<Rightarrow> int \<Rightarrow> Attr" where
  "Duration_attr key val = Attr key (AString (durationString val)) []"

definition Time_attr :: "string \<Rightarrow> go_time \<Rightarrow> Attr" where
  "Time_attr key val = Attr key (AString (formatRFC3339 val)) []"

section \<open>Flattening\<close>

function appendAttrs :: "any list \<Rightarrow> Attr list \<Rightarrow> any list" where
  "appendAttrs out [] = out"
| "appendAttrs out (attr # attrs) =
     appendAttrs
       (if length (attr_group attr) > 0 then appendAttrs out (attr_group attr)
        else if attr_key attr \<noteq> '''' then out @ [AString (attr_key attr), attr_value attr]
        else out) attrs"
  by pat_completeness auto
termination
proof (relation "measure (\<lambda>(_, attrs). size_list size attrs)")
  fix out :: "any list" and attr :: Attr and attrs
  show "((out, attr_group attr), out, attr # attrs) \<in> measure (\<lambda>(_, attrs). size_list size attrs)"
    by (cases attr) simp
qed simp_all

text \<open>\<open>None\<close> is Go's nil slice.\<close>

definition flatten :: "Attr list \<Rightarrow> any list option" where
  "flatten attrs = (if length attrs = 0 then None else Some (appendAttrs [] attrs))"

section \<open>Logger\<close>

datatype level = LTrace | LDebug | LInfo | LWarn | LError

record 'h hclog =
  h_Named :: "'h \<Rightarrow> string \<Rightarrow> 'h"
  h_With :: "'h \<Rightarrow> any list \<Rightarrow> 'h"
  h_IsTrace :: "'h \<Rightarrow> bool"
  h_IsDebug :: "'h \<Rightarrow> bool"

datatype 'h Logger = Logger (log_h: 'h)

record 'h log_record =
  r_to :: 'h
  r_level :: level
  r_msg :: string
  r_args :: "any list"

text \<open>\<open>f(flatten(attrs)...)\<close>: a nil slice passes no arguments.\<close>

definition spread :: "any list option \<Rightarrow> any list" where
  "spread args = (case args of None \<Rightarrow> [] | Some as \<Rightarrow> as)"

definition New_Logger :: "'h \<Rightarrow> 'h Logger" where
  "New_Logger h = Logger h"

definition Raw :: "'h Logger \<Rightarrow> 'h" where
  "Raw l = log_h l"

definition Named :: "'h hclog \<Rightarrow> 'h Logger \<Rightarrow> string \<Rightarrow> 'h Logger" where
  "Named hc l name = Logger (h_Named hc (log_h l) name)"

definition With_attrs :: "'h hclog \<Rightarrow> 'h Logger \<Rightarrow> Attr list \<Rightarrow> 'h Logger" where
  "With_attrs hc l attrs =
     (if length attrs = 0 then l else Logger (h_With hc (log_h l) (spread (flatten attrs))))"

definition Trace :: "'h Logger \<Rightarrow> string \<Rightarrow> Attr list \<Rightarrow> 'h log_record" where
  "Trace l msg attrs = \<lparr>r_to = log_h l, r_level = LTrace, r_msg = msg, r_args = spread (flatten attrs)\<rparr>"

definition Debug :: "'h Logger \<Rightarrow> string \<Rightarrow> Attr list \<Rightarrow> 'h log_record" where
  "Debug l msg attrs = \<lparr>r_to = log_h l, r_level = LDebug, r_msg = msg, r_args = spread (flatten attrs)\<rparr>"

definition Info :: "'h Logger \<Rightarrow> string \<Rightarrow> Attr list \<Rightarrow> 'h log_record" where
  "Info l msg attrs = \<lparr>r_to = log_h l, r_level = LInfo, r_msg = msg, r_args = spread (flatten attrs)\<rparr>"

definition Warn :: "'h Logger \<Rightarrow> string \<Rightarrow> Attr list \<Rightarrow> 'h log_record" where
  "Warn l msg attrs = \<lparr>r_to = log_h l, r_level = LWarn, r_msg = msg, r_args = spread (flatten attrs)\<rparr>"

definition Error_log :: "'h Logger \<Rightarrow> string \<Rightarrow> Attr list \<Rightarrow> 'h log_record" where
  "Error_log l msg attrs = \<lparr>r_to = log_h l, r_level = LError, r_msg = msg, r_args = spread (flatten attrs)\<rparr>"

definition IsTrace :: "'h hclog \<Rightarrow> 'h Logger \<Rightarrow> bool" where
  "IsTrace hc l = h_IsTrace hc (log_h l)"

definition IsDebug :: "'h hclog \<Rightarrow> 'h Logger \<Rightarrow> bool" where
  "IsDebug hc l = h_IsDebug hc (log_h l)"

section \<open>Conventions\<close>

definition sem_TaskID :: "string \<Rightarrow> Attr" where
  "sem_TaskID i = String_attr ''nomad.task.id'' i"

definition sem_TaskState :: "string \<Rightarrow> Attr" where
  "sem_TaskState state = String_attr ''nomad.task.state'' state"

definition sem_TaskStateChange :: "string \<Rightarrow> string \<Rightarrow> Attr" where
  "sem_TaskStateChange from_state to_state =
     Multi [String_attr ''nomad.task.state.from'' from_state, String_attr ''nomad.task.state.to'' to_state]"

definition sem_DestroyForce :: "bool \<Rightarrow> Attr" where
  "sem_DestroyForce force = Bool_attr ''nomad.task.destroy_force'' force"

definition sem_Unit :: "string \<Rightarrow> Attr" where
  "sem_Unit name = String_attr ''systemd.unit.name'' name"

definition sem_UnitState :: "string option \<Rightarrow> Attr" where
  "sem_UnitState state = Stringer_attr ''systemd.unit.state'' state"

definition sem_UnitCgroup :: "string \<Rightarrow> Attr" where
  "sem_UnitCgroup path = String_attr ''systemd.unit.cgroup'' path"

definition sem_UnitProperty :: "string \<Rightarrow> Attr" where
  "sem_UnitProperty name = String_attr ''systemd.unit.property'' name"

definition sem_Timeout :: "int \<Rightarrow> Attr" where
  "sem_Timeout timeout = Duration_attr ''timeout'' timeout"

definition sem_RetryAttempt :: "64 word \<Rightarrow> Attr" where
  "sem_RetryAttempt attempt = Int_attr ''retry.attempt'' attempt"

definition sem_RetryDelay :: "int \<Rightarrow> Attr" where
  "sem_RetryDelay delay = Duration_attr ''retry.delay'' delay"

definition sem_FilePath :: "string \<Rightarrow> Attr" where
  "sem_FilePath path = String_attr ''file.path'' path"

end
