(* ===== verification/LogxProps.thy ===== *)
theory LogxProps
  imports Logx
begin

text \<open>
  The arguments a log record ends up with: \<open>appendAttrs\<close>, which threads the output slice through
  the groups, against a definition without it.
\<close>

section \<open>Leaves\<close>

text \<open>The keys and values of the attributes, groups opened and attributes without a key dropped.\<close>

function leaves :: "Attr list \<Rightarrow> (string \<times> any) list" where
  "leaves [] = []"
| "leaves (attr # attrs) =
     (if attr_group attr \<noteq> [] then leaves (attr_group attr)
      else if attr_key attr = '''' then [] else [(attr_key attr, attr_value attr)]) @ leaves attrs"
  by pat_completeness auto
termination
proof (relation "measure (size_list size)")
  fix attr :: Attr and attrs
  show "(attr_group attr, attr # attrs) \<in> measure (size_list size)"
    by (cases attr) simp
qed simp_all

definition arguments :: "(string \<times> any) list \<Rightarrow> any list" where
  "arguments ps = concat (map (\<lambda>(k, v). [AString k, v]) ps)"

lemma arguments_append [simp]: "arguments (ps @ qs) = arguments ps @ arguments qs"
  by (simp add: arguments_def)

lemma appendAttrs_leaves: "appendAttrs out attrs = out @ arguments (leaves attrs)"
  by (induction out attrs rule: appendAttrs.induct) (simp_all add: arguments_def)

lemma leaves_append [simp]: "leaves (as @ bs) = leaves as @ leaves bs"
  by (induction as) simp_all

lemma leaves_keys: "list_all (\<lambda>(k, _). k \<noteq> '''') (leaves attrs)"
  by (induction attrs rule: leaves.induct) simp_all

lemma flatten_leaves:
  "flatten attrs = (if attrs = [] then None else Some (arguments (leaves attrs)))"
  by (simp add: flatten_def appendAttrs_leaves)

lemma spread_flatten: "spread (flatten attrs) = arguments (leaves attrs)"
  by (simp add: spread_def flatten_leaves arguments_def)

text \<open>What reaches hclog is, in order, the key and the value of every attribute with a key, so
  it always alternates non-empty string keys and values, however the attributes are grouped:
  a \<open>Multi\<close> passes exactly what its members would have passed in its place, and the attribute of
  a nil error passes nothing.\<close>

lemma flatten_pairs:
  "r_args (Info lg msg attrs) = arguments (leaves attrs) \<and>
   list_all (\<lambda>(k, _). k \<noteq> '''') (leaves attrs) \<and>
   r_args (Info lg msg (as @ Multi bs # cs)) = r_args (Info lg msg (as @ bs @ cs)) \<and>
   r_args (Info lg msg (as @ NamedErr key None # cs)) = r_args (Info lg msg (as @ cs)) \<and>
   With_attrs hc l attrs =
     (if attrs = [] then l else New_Logger (h_With hc (Raw l) (arguments (leaves attrs))))"
  by (simp add: Info_def spread_flatten leaves_keys Multi_def NamedErr_def With_attrs_def New_Logger_def Raw_def)

text \<open>\<open>flatten\<close> returns the nil slice only for no attributes at all. For attributes that carry
  nothing, such as the attribute of a nil error, there is nothing to write either, and it returns
  an empty slice; \<open>With\<close> then makes a new logger with no arguments.\<close>

lemma flatten_nothing_not_nil:
  "(flatten attrs = None) = (attrs = []) \<and> leaves [NamedErr key None] = [] \<and>
   flatten [NamedErr key None] = Some [] \<and> With_attrs hc l [NamedErr key None] = New_Logger (h_With hc (Raw l) [])"
  by (simp add: flatten_leaves With_attrs_def spread_def NamedErr_def arguments_def New_Logger_def Raw_def)

end
