(* ===== verification/About.thy ===== *)
theory About
  imports DriverSteps
begin

text \<open>
  \<open>plugin/about.go\<close>, the static answers of \<open>plugin/driver.go\<close> and \<open>main.go\<close>: what the plugin tells
  Nomad of itself, the schemas Nomad parses its configuration with, and the life of the process.
  Nomad's HCL library is a parameter; its enumerations appear with the values the source uses.
\<close>

section \<open>What the plugin is\<close>

datatype plugin_type = PluginTypeDriver
datatype api_version = ApiVersion010
datatype fs_isolation = FSIsolationNone
datatype net_isolation_mode = NetIsolationModeHost
datatype mount_config_support = MountConfigSupportNone

record PluginInfoResponse =
  pi_Type :: plugin_type
  PluginApiVersions :: "api_version list"
  PluginVersion :: string
  pi_Name :: string

record Capabilities =
  SendSignals :: bool
  Exec :: bool
  FSIsolation :: fs_isolation
  NetIsolationModes :: "net_isolation_mode list"
  MustInitiateNetwork :: bool
  MountConfigs :: mount_config_support

definition pluginName :: string where
  "pluginName = ''systemd''"

definition pluginInfo :: PluginInfoResponse where
  "pluginInfo = \<lparr>pi_Type = PluginTypeDriver, PluginApiVersions = [ApiVersion010],
     PluginVersion = pluginVersion, pi_Name = pluginName\<rparr>"

definition capabilities :: Capabilities where
  "capabilities = \<lparr>SendSignals = False, Exec = False, FSIsolation = FSIsolationNone,
     NetIsolationModes = [NetIsolationModeHost], MustInitiateNetwork = False,
     MountConfigs = MountConfigSupportNone\<rparr>"

section \<open>Schemas\<close>

record 'spec hclspec =
  NewAttr :: "string \<Rightarrow> string \<Rightarrow> bool \<Rightarrow> 'spec"
  NewObject :: "(string \<times> 'spec) list \<Rightarrow> 'spec"

definition configSpec :: "'spec hclspec \<Rightarrow> 'spec" where
  "configSpec hcl = NewObject hcl
     [(''allowed_units'', NewAttr hcl ''allowed_units'' ''list(string)'' False),
      (''denied_units'', NewAttr hcl ''denied_units'' ''list(string)'' False),
      (''pprof_addr'', NewAttr hcl ''pprof_addr'' ''string'' False)]"

definition taskConfigSpec :: "'spec hclspec \<Rightarrow> 'spec" where
  "taskConfigSpec hcl = NewObject hcl [(''unit'', NewAttr hcl ''unit'' ''string'' True)]"

text \<open>The \<open>codec\<close> tags of \<open>Config\<close> and \<open>TaskConfig\<close> with the types of their fields, by which the
  MessagePack decoder finds the fields in what the schema has let through.\<close>

definition Config_fields :: "(string \<times> string) list" where
  "Config_fields = [(''allowed_units'', ''[]string''), (''denied_units'', ''[]string''), (''pprof_addr'', ''string'')]"

definition TaskConfig_fields :: "(string \<times> string) list" where
  "TaskConfig_fields = [(''unit'', ''string'')]"

section \<open>The driver's static answers\<close>

definition PluginInfo :: "(sys, error + PluginInfoResponse) state" where
  "PluginInfo = ret (Inr pluginInfo)"

definition ConfigSchema :: "'spec hclspec \<Rightarrow> (sys, error + 'spec) state" where
  "ConfigSchema hcl = ret (Inr (configSpec hcl))"

definition TaskConfigSchema :: "'spec hclspec \<Rightarrow> (sys, error + 'spec) state" where
  "TaskConfigSchema hcl = ret (Inr (taskConfigSpec hcl))"

definition Capabilities_rpc :: "(sys, error + Capabilities) state" where
  "Capabilities_rpc = ret (Inr capabilities)"

section \<open>The process\<close>

text \<open>
  \<open>main\<close>: \<open>plugins.Serve\<close> either never makes the driver, which leaves it nil, or makes it once and
  runs Nomad's RPCs on it until the connection closes; then the driver is shut down.
\<close>

definition main :: "(sys, unit) state option \<Rightarrow> nat \<Rightarrow> sys option" where
  "main serve stages = (case serve of
     None \<Rightarrow> None
   | Some rpcs \<Rightarrow> Some (exec (do { rpcs; Shutdown stages }) New))"

section \<open>Agreement\<close>

text \<open>A reader of the schema: the attributes of an object with their types and whether each is
  required.\<close>

definition attr_reader :: "(string \<times> string \<times> bool) list hclspec" where
  "attr_reader = \<lparr>NewAttr = (\<lambda>n t r. [(n, t, r)]), NewObject = (\<lambda>xs. concat (map snd xs))\<rparr>"

definition go_type :: "string \<Rightarrow> string" where
  "go_type t = (if t = ''list(string)'' then ''[]string'' else t)"

text \<open>The schemas name exactly the fields that are decoded, under the tags they are decoded by and
  with their types; only the unit of a task is required.\<close>

lemma schemas_match_fields:
  "map (\<lambda>(n, t, _). (n, go_type t)) (configSpec attr_reader) = Config_fields"
  "map (\<lambda>(n, t, _). (n, go_type t)) (taskConfigSpec attr_reader) = TaskConfig_fields"
  "filter (\<lambda>(_, _, r). r) (configSpec attr_reader @ taskConfigSpec attr_reader) = [(''unit'', ''string'', True)]"
  by (simp_all add: configSpec_def taskConfigSpec_def attr_reader_def go_type_def Config_fields_def TaskConfig_fields_def)

text \<open>A healthy fingerprint agrees with the plugin's description of itself.\<close>

lemma fingerprint_agrees:
  assumes "fp_Health (result (buildFingerprint env) s) = HealthStateHealthy"
  shows "map_of (Attributes (result (buildFingerprint env) s)) ''driver.systemd.version'' =
      Some (StringAttribute (PluginVersion pluginInfo))"
    "map_of (Attributes (result (buildFingerprint env) s)) ''driver.systemd.signals'' =
      Some (BoolAttribute (SendSignals capabilities))"
  using assms
  by (auto simp: buildFingerprint_def pluginInfo_def capabilities_def result_bind simp del: run_state_bind
      split: sum.splits if_splits)

text \<open>Whatever Nomad asked for, a process that ends this way has cancelled everything bound to the
  driver's context, and the claims are as the last RPC left them.\<close>

lemma main_shuts_down:
  assumes "main (Some rpcs) stages = Some t"
  shows "d_done t" "unitOwners t = unitOwners (exec rpcs New)"
proof -
  have t: "t = exec (Shutdown stages) (exec rpcs New)"
    using assms by (simp add: main_def exec_bind del: run_state_bind)
  show "d_done t"
    by (simp add: t Shutdown_minds)
  show "unitOwners t = unitOwners (exec rpcs New)"
    using Shutdown_shuts [of "exec rpcs New" stages] by (simp add: t shuts_def)
qed

end
