(* ===== verification/Spec2Isabelle.thy ===== *)
theory Spec2Isabelle
  imports ManagerSafety CgroupProps JournalProps ConfigSafety DriverObserve DriverRaces ReloadRaces Assignment
    ExitPath PipelineProps TeardownProps LogxProps About
begin

text \<open>
  A model of the systemd task driver for Nomad, with the theorems that make it correct.

  \<^bold>\<open>The program.\<close> Nomad drives the plugin through RPCs on one \<open>Driver\<close> (\<open>plugin/driver.go\<close>,
  \<open>plugin/task.go\<close>, \<open>plugin/fingerprint.go\<close>). A task is a systemd unit: the driver checks its name
  (\<open>plugin/config.go\<close>) and the operator's policy, claims the unit for the task (\<open>plugin/unit.go\<close>),
  starts it and puts it under management. A \<open>systemd.Manager\<close> (\<open>pkg/systemd\<close>) holds the one
  connection to systemd, the table of managed units with a wake channel and a journal reader each,
  and reads cgroup accounting files; a \<open>task.Handler\<close> (\<open>pkg/task\<close>) per task follows the unit's
  state, publishes the exit once, and copies the journal to the task's stdout and stderr. A
  \<open>task.Store\<close> maps task IDs to handlers. \<open>pkg/logx\<close> carries log attributes.

  \<^bold>\<open>How it is modelled.\<close> A Go method is a definition of the same name in HOL-Library's state monad
  over the record of its receiver; an error is a value of the datatype \<open>error\<close>, which keeps the
  wrapping that \<open>errors.Is\<close> inspects. Everything outside the repository (the D-Bus client, the
  journal, the file system, the clock, Go's regular expressions, Nomad's codecs and CPU tracker) is
  a field of the record \<open>env\<close> or \<open>nomad\<close>: a function of all calls made so far, so that a theorem
  about every \<open>env\<close> covers every behaviour of systemd and of the host. The calls themselves are
  recorded in \<open>hist\<close>. Goroutines are explicit: each loop is a definition over the sequence of what
  its \<open>select\<close> receives, channels and wait groups are fields, and pointers are indices into heaps
  (\<open>mgrs\<close>, \<open>hnds\<close>, \<open>d_servers\<close>), so that a handler keeps the Manager it was created with and a
  pprof server outlives the configuration that made it.

  \<^bold>\<open>Model theories\<close>
  \<^item> Prelude: the monad's evaluation and frame lemmas, Go maps as association lists; World: errors,
    contexts, calls, the record \<open>env\<close>; Weakest: weakest preconditions of monadic definitions.
  \<^item> Units (\<open>pkg/systemd/unit.go\<close>): states, exit statuses, timestamps as 64-bit words. Manager
    (\<open>systemd.go\<close>, \<open>unit.go\<close>, \<open>conn.go\<close>): registration, jobs, property reads, dispatch, reconnecting,
    start and stop. GoStrings: the string functions of Go's library the source calls. Cgroup
    (\<open>cgroup.go\<close>): scanning and sampling. Journal (\<open>journal.go\<close>): journal readers.
  \<^item> Handler (\<open>pkg/task/task.go\<close>, \<open>state.go\<close>), Store (\<open>store.go\<close>), Logs (\<open>logs.go\<close>). Pipeline: the
    goroutines of a task's log (the reader of \<open>journal.go\<close>, the bounded channel, the writer of
    \<open>logs.go\<close>) as a step relation over all their orders. Teardown: the two goroutines of a handler
    and the \<open>Stop\<close> that waits for them, likewise, with the points where each may be blocked.
  \<^item> Regex and UnitConfig (\<open>plugin/config.go\<close>), Ownership (\<open>plugin/unit.go\<close>), Pprof
    (\<open>plugin/pprof.go\<close>), Driver (\<open>plugin/driver.go\<close>, \<open>task.go\<close>, \<open>fingerprint.go\<close>), GoTime and Logx
    (\<open>pkg/logx\<close>, \<open>pkg/logx/semconv\<close>), About (\<open>plugin/about.go\<close>, \<open>main.go\<close>). Interleaving: the places
    in \<open>plugin/task.go\<close> where a start, recovery or destroy lets other goroutines run, with its steps
    from one to the next.

  \<^bold>\<open>Interfaces.\<close> Locales state what one part may assume of another, and each is interpreted on the
  code's own definitions: \<open>handler_store\<close> (Store) and \<open>unit_ownership\<close> (Ownership) are the contracts
  of the two tables; \<open>unit_controller\<close> (HandlerProps) is the Go interface a handler reaches systemd
  through, interpreted on the Manager for every \<open>env\<close> (DriverFrame) and again with what it keeps of
  its connection (DriverConn); \<open>manager_updates\<close> (ManagerSteps) turns a property kept by the
  Manager's elementary updates into one kept by its operations, and is extended by \<open>manager_frame\<close>
  with a new connection and by \<open>manager_invariant\<close>; \<open>manager_calls\<close> (ManagerCalls) does the same for
  a property of the calls made; \<open>refinement\<close> (Assignment) relates a transition system to its
  specification, interpreted on the driver's steps and the ledger.

  \<^bold>\<open>What is proved\<close>
  \<^item> ManagerSteps, ManagerProps, ManagerCalls, ManagerSafety: the Manager as a transition system;
    one live journal reader per unit; \<open>Stop\<close> waits for everything and is final; jobs, reads, wake-ups
    and the reconnect backoff; which calls carry a budget.
  \<^item> CgroupProps: the in-place scanner against a fold over lines and what a sample contains.
    JournalProps, LogsProps: what the journal's loop sends and what the writer's loop writes.
    PipelineProps: together they are a bounded FIFO queue in every order of their steps, and
    only a full channel stops a reader whose context is alive.
  \<^item> HandlerProps, HandlerSafety: the handler's invariant and order; the exit is published once under
    every interleaving of concurrent state changes. TeardownProps: \<open>Handler.Stop\<close> returns once both
    goroutines have, whatever they were doing, unless a full FIFO holds the writer.
  \<^item> PprofProps: configuration, shutdown and the watching goroutines of the pprof servers as a
    transition system that holds at most one listener. ConfigSafety, LogxProps: policy, unit names,
    that property, numbers, log attributes.
  \<^item> InterleavingProps: an RPC run from place to place without interruption is the RPC.
  \<^item> DriverFrame, DriverInv, DriverConn, DriverTasks, DriverLifecycle: the driver's invariant (one
    task per unit, with its own handler, woken by the registered channel; all Managers but the
    current one stopped) and its preservation by every RPC and background step; what operations
    keep of a connection and which of its answers they report. DriverSteps: the driver as a
    transition system over the RPCs in flight, at most one per task, with what a step of one RPC
    guarantees to the others; \<open>drv_reachable\<close> are the states of all its interleavings, in which the
    theorems of the next theories hold.
  \<^item> DriverSafety: one task per unit; outcomes of starting, recovering, stopping and destroying tasks;
    which of the driver's calls are bounded. DriverReload: \<open>SetConfig\<close>, tasks across a reload,
    \<open>Shutdown\<close>. DriverObserve: waiting, status, statistics and fingerprints. DriverRaces: no claim
    leaks and every reply of an interleaved RPC is truthful; and what goes wrong when two starts of
    one task overlap. ReloadRaces: a start overtaken by a reload leaves its task with a handler on
    the old, stopped Manager.
  \<^item> Assignment: an abstract ledger of tasks, units and exits, and that every step of the driver is a
    step of it. ExitPath: from systemd's answer to a poll to everyone who waits for the task.
  \<^item> Sample, SampleDriver: a concrete world in which the witnesses run the model.

  \<^bold>\<open>Bounds.\<close> Loops over files and strings recurse on what is left of them and loops of goroutines on
  the events they receive, with no bound on their number. The only count is that of \<open>rpcDrive\<close>, the
  places an RPC has left: \<open>places\<close> decreases with every step, so it is never used up early.
  The 15 steps of \<open>handler_stop_returns\<close> are a bound it proves, not an assumption.

  \<^bold>\<open>Not modelled.\<close> The steps that interleave are the critical sections and calls of an RPC as
  \<open>Interleaving\<close> cuts them; \<open>SetConfig\<close>, \<open>Shutdown\<close>, one call of a Manager's method and the end of a
  destroy (unregister, delete, release) are single steps, \<open>StopTask\<close> is one or any sequence of its
  stop and kill, and memory-level races are outside the model. In the driver \<open>Handler_Stop\<close> is one step
  that finds the wait group empty; TeardownProps shows that it gets there unless a write to a full
  FIFO does not return. Nomad is taken to serialise the starts, recoveries and destroys of one task,
  except where overlapping starts are the subject. The log records that the components write, HTTP
  serving by the pprof server and its warning about the address, and \<open>TaskEvents\<close> (Nomad's eventer)
  are left out. Time spent is not modelled: a timer is an event. Floating-point CPU figures are
  opaque bit patterns.
\<close>

end
